(* ===== verification/Prelude.thy ===== *)
theory Prelude
  imports Main "HOL-Library.Word" "HOL-Library.Multiset"
begin

text \<open>
  Shared vocabulary of the icmpmon development: the Go idioms the sources use over and
  over, written once as HOL functions with their lemmas.
  \<^item> Go's \<open>int64\<close> (and the 64-bit \<open>int\<close>) arithmetic: values are \<open>int\<close>, and the
    operations that can overflow wrap modulo \<open>2^64\<close> into the signed range
    (\<open>wrap64\<close>, \<open>add64\<close>, \<open>sub64\<close>, \<open>mul64\<close>); Go's \<open>/\<close> truncates towards zero
    (\<open>go_quot\<close>).
  \<^item> The slice idioms: removing element \<open>i\<close> with \<open>append(xs[:i], xs[i+1:]...)\<close>
    (\<open>remove_at\<close>), the built-in \<open>copy\<close> between two windows of one backing array
    (\<open>slice_copy\<close>, memmove semantics), inserting with \<open>append\<close> + \<open>copy\<close> +
    assignment (\<open>insert_at\<close>), and the suffix \<open>xs[len(xs)-n:]\<close> (\<open>lastn\<close>).
  The collection \<open>go_simps\<close> gathers the rewrite rules that the component proofs pass
  to the simplifier.
\<close>

named_theorems go_simps "rewrite rules for the Go idioms of the model"

type_synonym millis = int \<comment> \<open>a UNIX timestamp in milliseconds, Go \<open>int64\<close>\<close>
type_synonym nanos = int \<comment> \<open>a reading of \<open>time.Now().UnixNano()\<close>\<close>

subsection \<open>Go 64-bit integer arithmetic\<close>

definition in_i64 :: "int \<Rightarrow> bool" where
  "in_i64 x \<longleftrightarrow> - (2 ^ 63) \<le> x \<and> x < 2 ^ 63"

definition wrap64 :: "int \<Rightarrow> int" where
  "wrap64 x = (x + 2 ^ 63) mod 2 ^ 64 - 2 ^ 63"

definition add64 :: "int \<Rightarrow> int \<Rightarrow> int" where
  "add64 a b = wrap64 (a + b)"

definition sub64 :: "int \<Rightarrow> int \<Rightarrow> int" where
  "sub64 a b = wrap64 (a - b)"

definition mul64 :: "int \<Rightarrow> int \<Rightarrow> int" where
  "mul64 a b = wrap64 (a * b)"

definition go_quot :: "int \<Rightarrow> int \<Rightarrow> int" where
  "go_quot a b = sgn a * sgn b * (\<bar>a\<bar> div \<bar>b\<bar>)"

text \<open>\<open>time.Now().UnixNano() / 1000000\<close>, the millisecond stamp of every event.\<close>

definition unix_millis :: "nanos \<Rightarrow> millis" where
  "unix_millis t = go_quot t 1000000"

subsection \<open>Go slice idioms\<close>

definition remove_at :: "nat \<Rightarrow> 'a list \<Rightarrow> 'a list" where
  "remove_at i xs = take i xs @ drop (Suc i) xs"

definition insert_at :: "nat \<Rightarrow> 'a \<Rightarrow> 'a list \<Rightarrow> 'a list" where
  "insert_at i x xs = take i xs @ x # drop i xs"

text \<open>
  \<open>copy(xs[d:], xs[s:e])\<close> on one backing array: \<open>n = min (len xs - d) (e - s)\<close>
  elements move from position \<open>s + k\<close> to \<open>d + k\<close>, all read before any is written.
\<close>

definition slice_copy :: "nat \<Rightarrow> nat \<Rightarrow> nat \<Rightarrow> 'a list \<Rightarrow> 'a list" where
  "slice_copy d s e xs =
     (let n = min (length xs - d) (e - s)
      in map (\<lambda>k. if d \<le> k \<and> k < d + n then xs ! (s + (k - d)) else xs ! k) [0..<length xs])"

definition lastn :: "nat \<Rightarrow> 'a list \<Rightarrow> 'a list" where
  "lastn n xs = drop (length xs - n) xs"

subsection \<open>Decimal integers: \<open>strconv.ParseInt(s, 10, 0)\<close> and \<open>strconv.Atoi\<close>\<close>

text \<open>
  \<open>parse_uint_loop\<close> is the digit loop of \<open>strconv.ParseUint\<close> for base 10 and 64 bits:
  a non-digit is a syntax error, and an accumulator that would exceed \<open>2^64 - 1\<close> is a range
  error at once, before the rest of the string is looked at. \<open>go_parse_int\<close> adds the sign
  and the clamping of \<open>ParseInt\<close>; on 64-bit platforms \<open>Atoi\<close> returns the same value
  and error. \<open>int_string\<close> is decimal printing (\<open>strconv.Itoa\<close>), the reference for the
  round trip.
\<close>


datatype num_error = ErrSyntax | ErrRange

definition is_digit :: "char \<Rightarrow> bool" where
  "is_digit c \<longleftrightarrow> 48 \<le> (of_char c :: nat) \<and> (of_char c :: nat) \<le> 57"

definition digit_val :: "char \<Rightarrow> nat" where
  "digit_val c = (of_char c :: nat) - 48"

definition max_uint64 :: nat where
  "max_uint64 = 18446744073709551615"

fun parse_uint_loop :: "string \<Rightarrow> nat \<Rightarrow> num_error + nat" where
  "parse_uint_loop [] n = Inr n"
| "parse_uint_loop (c # cs) n =
     (if \<not> is_digit c then Inl ErrSyntax
      else if n \<ge> max_uint64 div 10 + 1 then Inl ErrRange
      else (let n1 = n * 10 + digit_val c in
            if n1 > max_uint64 then Inl ErrRange else parse_uint_loop cs n1))"

definition go_parse_int :: "string \<Rightarrow> int \<times> num_error option" where
  "go_parse_int s =
     (if s = [] then (0, Some ErrSyntax)
      else
        (let neg = (hd s = CHR ''-'');
             ds = (if hd s = CHR ''+'' \<or> hd s = CHR ''-'' then tl s else s)
         in if ds = [] then (0, Some ErrSyntax)
            else (case parse_uint_loop ds 0 of
                    Inl ErrSyntax \<Rightarrow> (0, Some ErrSyntax)
                  | Inl ErrRange \<Rightarrow> (if neg then - (2 ^ 63) else 2 ^ 63 - 1, Some ErrRange)
                  | Inr un \<Rightarrow>
                      (if \<not> neg \<and> un \<ge> 2 ^ 63 then (2 ^ 63 - 1, Some ErrRange)
                       else if neg \<and> un > 2 ^ 63 then (- (2 ^ 63), Some ErrRange)
                       else (if neg then - int un else int un, None)))))"

definition dec_char :: "nat \<Rightarrow> char" where
  "dec_char d = ''0123456789'' ! d"

fun nat_digits :: "nat \<Rightarrow> string" where
  "nat_digits n = (if n < 10 then [dec_char n] else nat_digits (n div 10) @ [dec_char (n mod 10)])"

definition int_string :: "int \<Rightarrow> string" where
  "int_string x = (if x < 0 then CHR ''-'' # nat_digits (nat (- x)) else nat_digits (nat x))"

subsection \<open>Lemmas on 64-bit arithmetic\<close>

lemma wrap64_id [simp, go_simps]: "in_i64 x \<Longrightarrow> wrap64 x = x"
  by (simp add: in_i64_def wrap64_def)

lemma in_i64_wrap64: "in_i64 (wrap64 x)"
  unfolding in_i64_def wrap64_def by simp

lemma add64_eq [simp, go_simps]: "in_i64 (a + b) \<Longrightarrow> add64 a b = a + b"
  by (simp add: add64_def)

lemma sub64_eq [simp, go_simps]: "in_i64 (a - b) \<Longrightarrow> sub64 a b = a - b"
  by (simp add: sub64_def)

lemma mul64_eq [simp, go_simps]: "in_i64 (a * b) \<Longrightarrow> mul64 a b = a * b"
  by (simp add: mul64_def)

lemma add64_overflow: "2 ^ 63 \<le> a + b \<Longrightarrow> a + b < 2 ^ 64 \<Longrightarrow> add64 a b = a + b - 2 ^ 64"
proof -
  assume lo: "2 ^ 63 \<le> a + b" and hi: "a + b < 2 ^ 64"
  have "(a + b + 2 ^ 63) mod 2 ^ 64 = ((a + b + 2 ^ 63 - 2 ^ 64) + 1 * 2 ^ 64) mod 2 ^ 64"
    by (rule arg_cong [where f = "\<lambda>y. y mod 2 ^ 64"]) simp
  also have "\<dots> = (a + b + 2 ^ 63 - 2 ^ 64) mod 2 ^ 64"
    by (simp only: mod_mult_self1)
  also have "\<dots> = a + b + 2 ^ 63 - 2 ^ 64"
    using lo hi by (intro mod_pos_pos_trivial) simp_all
  finally show ?thesis by (simp add: add64_def wrap64_def)
qed

lemma int64_pow_values: "(2::int) ^ 61 = 2305843009213693952" "(2::int) ^ 63 = 9223372036854775808"
  by simp_all

lemma in_i64_diff: "\<bar>a\<bar> < 2 ^ 61 \<Longrightarrow> \<bar>b\<bar> < 2 ^ 61 \<Longrightarrow> in_i64 (a - b)"
  unfolding in_i64_def int64_pow_values by arith

lemma in_i64_diff3:
  "\<bar>a\<bar> < 2 ^ 61 \<Longrightarrow> \<bar>b\<bar> < 2 ^ 61 \<Longrightarrow> \<bar>c\<bar> < 2 ^ 61 \<Longrightarrow> in_i64 (a - b - c)"
  unfolding in_i64_def int64_pow_values by arith

lemma in_i64_add: "\<bar>a\<bar> < 2 ^ 61 \<Longrightarrow> \<bar>b\<bar> < 2 ^ 61 \<Longrightarrow> in_i64 (a + b)"
  unfolding in_i64_def int64_pow_values by linarith

lemma go_quot_nonneg [simp, go_simps]: "0 \<le> a \<Longrightarrow> 0 < b \<Longrightarrow> go_quot a b = a div b"
  by (cases "a = 0") (simp_all add: go_quot_def)

subsection \<open>Lemmas on the slice idioms\<close>

lemma length_remove_at [simp, go_simps]:
  "i < length xs \<Longrightarrow> length (remove_at i xs) = length xs - 1"
  by (simp add: remove_at_def)

lemma nth_remove_at_below [go_simps]:
  "j < i \<Longrightarrow> i < length xs \<Longrightarrow> remove_at i xs ! j = xs ! j"
  by (simp add: remove_at_def nth_append)

lemma mset_remove_at [go_simps]:
  "i < length xs \<Longrightarrow> mset xs = add_mset (xs ! i) (mset (remove_at i xs))"
proof -
  assume i: "i < length xs"
  then have "xs = take i xs @ xs ! i # drop (Suc i) xs"
    by (simp add: id_take_nth_drop)
  then have "mset xs = mset (take i xs @ xs ! i # drop (Suc i) xs)"
    by (rule arg_cong)
  then show ?thesis by (simp add: remove_at_def)
qed

lemma set_remove_at_subset: "set (remove_at i xs) \<subseteq> set xs"
  by (auto simp: remove_at_def dest: in_set_takeD in_set_dropD)

lemma take_remove_at [go_simps]: "i < length xs \<Longrightarrow> take i (remove_at i xs) = take i xs"
  by (simp add: remove_at_def)

lemma drop_remove_at [go_simps]: "i < length xs \<Longrightarrow> drop i (remove_at i xs) = drop (Suc i) xs"
  by (simp add: remove_at_def)

lemma length_slice_copy [simp, go_simps]: "length (slice_copy d s e xs) = length xs"
  by (simp add: slice_copy_def Let_def)

lemma length_lastn [simp, go_simps]: "length (lastn n xs) = min n (length xs)"
  by (simp add: lastn_def)

lemma lastn_append_single [go_simps]:
  "lastn n (xs @ [x]) = (if length (lastn n xs @ [x]) > n then tl (lastn n xs @ [x]) else lastn n xs @ [x])"
proof (cases "n \<le> length xs")
  case True
  then show ?thesis
    by (cases "n = 0") (simp_all add: lastn_def drop_Suc Suc_diff_le drop_tl tl_append_if)
next
  case False
  then show ?thesis by (simp add: lastn_def)
qed

subsection \<open>Lemmas on decimal integers\<close>

declare nat_digits.simps [simp del]

lemma digit_char: "d < 10 \<Longrightarrow> is_digit (dec_char d) \<and> digit_val (dec_char d) = d"
proof -
  assume "d < 10"
  then have "d = 0 \<or> d = 1 \<or> d = 2 \<or> d = 3 \<or> d = 4 \<or> d = 5 \<or> d = 6 \<or> d = 7 \<or> d = 8 \<or> d = 9"
    by (auto simp: less_Suc_eq numeral_eq_Suc)
  then show ?thesis by (auto simp: is_digit_def digit_val_def dec_char_def)
qed

lemma nat_digits_ne: "nat_digits n \<noteq> []"
  by (subst nat_digits.simps) simp

lemma parse_uint_loop_append:
  "parse_uint_loop (xs @ ys) n = (case parse_uint_loop xs n of Inl e \<Rightarrow> Inl e | Inr m \<Rightarrow> parse_uint_loop ys m)"
  by (induction xs n rule: parse_uint_loop.induct) (auto simp: Let_def)

lemma parse_nat_digits:
  "parse_uint_loop (nat_digits n) 0 = (if n \<le> max_uint64 then Inr n else Inl ErrRange)"
proof (induction n rule: nat_digits.induct)
  case (1 n)
  show ?case
  proof (cases "n < 10")
    case True
    then show ?thesis using digit_char [of n] by (subst nat_digits.simps) (simp add: max_uint64_def)
  next
    case False
    have IH: "parse_uint_loop (nat_digits (n div 10)) 0 =
              (if n div 10 \<le> max_uint64 then Inr (n div 10) else Inl ErrRange)"
      using 1 False by simp
    have n: "n div 10 * 10 + n mod 10 = n" by simp
    show ?thesis
    proof (cases "n div 10 \<le> max_uint64")
      case True
      then show ?thesis
        using False IH n digit_char [of "n mod 10"]
        by (subst nat_digits.simps) (auto simp: parse_uint_loop_append not_le max_uint64_def)
    next
      case False
      then have "\<not> n \<le> max_uint64" by (simp add: max_uint64_def)
      then show ?thesis
        using False \<open>\<not> n < 10\<close> IH by (subst nat_digits.simps) (simp add: parse_uint_loop_append)
    qed
  qed
qed

lemma hd_nat_digits: "is_digit (hd (nat_digits n))"
proof (induction n rule: nat_digits.induct)
  case (1 n)
  then show ?case
    using digit_char [of n] nat_digits_ne [of "n div 10"]
    by (subst nat_digits.simps) (auto simp: hd_append)
qed

lemma sign_not_digit: "\<not> is_digit CHR ''-''" "\<not> is_digit CHR ''+''"
  by (simp_all add: is_digit_def)

lemma go_parse_int_i64: "in_i64 (fst (go_parse_int s))"
  by (auto simp: go_parse_int_def Let_def in_i64_def split: sum.splits num_error.splits)

lemma go_parse_int_string: "in_i64 x \<Longrightarrow> go_parse_int (int_string x) = (x, None)"
proof -
  assume x: "in_i64 x"
  have hd: "hd (nat_digits n) \<noteq> CHR ''-''" "hd (nat_digits n) \<noteq> CHR ''+''" for n
    using hd_nat_digits [of n] sign_not_digit by auto
  show ?thesis
  proof (cases "x < 0")
    case True
    have "nat (- x) \<le> max_uint64" "nat (- x) \<le> 2 ^ 63"
      using x True by (simp_all add: in_i64_def max_uint64_def nat_le_iff)
    then show ?thesis
      using True parse_nat_digits [of "nat (- x)"] nat_digits_ne [of "nat (- x)"]
      by (simp add: go_parse_int_def int_string_def not_less)
  next
    case False
    have "nat x \<le> max_uint64" "nat x < 2 ^ 63"
      using x False by (simp_all add: in_i64_def max_uint64_def nat_less_iff)
    then show ?thesis
      using False parse_nat_digits [of "nat x"] nat_digits_ne [of "nat x"] hd [of "nat x"]
      by (simp add: go_parse_int_def int_string_def not_le)
  qed
qed



end
