(* ===== verification/Data.thy ===== *)
theory Data
  imports Prelude
begin

text \<open>
  The data types the components exchange (\<open>src/data.go\<close>, and the \<open>Peer\<close> struct of
  \<open>src/config.go\<close>). Go structs are records; a \<open>net.IP\<close> is its byte slice. The
  \<open>Peer\<close> record is the peer as every goroutine sees it after \<open>ReadConfig\<close> has
  filled in the defaults, so its pointer fields are plain values here; the raw, optional
  form is the business of the configuration theory. The \<open>messages\<close> channel carries
  \<open>interface{}\<close> values that the collector's type switch distinguishes as
  \<open>Request\<close> or \<open>Response\<close>: that is the datatype \<open>message\<close>. \<open>Config\<close> is
  likewise the configuration after \<open>ReadConfig\<close> has returned without error.
\<close>

type_synonym ip = "8 word list" \<comment> \<open>\<open>net.IP\<close>, a byte slice; \<open>nil\<close> is \<open>[]\<close>\<close>

record peer =
  peer_name :: string
  peer_address :: string
  peer_interval :: int
  peer_timeout :: int
  peer_id :: int
  peer_ip :: ip

record query =
  qry_peer_id :: int
  qry_response_time :: int
  qry_time :: millis

definition zero_query :: query where
  "zero_query = \<lparr>qry_peer_id = 0, qry_response_time = 0, qry_time = 0\<rparr>"

record request =
  req_id :: int
  req_ip :: ip
  req_time :: millis
  req_peer :: peer

record response =
  resp_id :: int
  resp_ip :: ip
  resp_time :: millis

datatype message = MsgRequest request | MsgResponse response

record config =
  cfg_peers :: "peer list"
  cfg_interval :: int
  cfg_timeout :: int
  cfg_listen_address :: string
  cfg_database :: string
  cfg_keep_history :: int \<comment> \<open>\<open>time.Duration\<close>, nanoseconds\<close>

end
