(* ===== verification/QueryChannel.thy ===== *)
theory QueryChannel
  imports Data "HOL-Library.Sublist"
begin

text \<open>
  The live-event broadcaster (\<open>src/querychannel.go\<close>) and the bounded channel it is
  built from, \<open>RingChannel\<close> of the library \<open>gopkg.in/eapache/channels.v1\<close>. The
  library is not part of the repository; its behaviour is modelled from the spec
  (section 4.1: a bounded buffer that drops its oldest element when a write finds it
  full, so the writer never blocks) and from the library's documented contract.
  A \<open>QueryChannel\<close> holds the list of subscriber channels; \<open>Add\<close> appends a
  fresh \<open>RingChannel(100)\<close> and returns it (here: its index), \<open>Push\<close> writes the
  value into every channel in order. A subscriber reads with \<open>Out()\<close>.
\<close>

subsection \<open>RingChannel\<close>

record 'a ring_channel =
  rc_size :: nat
  rc_buffer :: "'a list"

definition NewRingChannel :: "nat \<Rightarrow> 'a ring_channel" where
  "NewRingChannel n = \<lparr>rc_size = n, rc_buffer = []\<rparr>"

definition RingChannel_In :: "'a \<Rightarrow> 'a ring_channel \<Rightarrow> 'a ring_channel" where
  "RingChannel_In x c =
     (let b = rc_buffer c @ [x]
      in c\<lparr>rc_buffer := (if rc_size c < length b then tl b else b)\<rparr>)"

definition RingChannel_Out :: "'a ring_channel \<Rightarrow> ('a \<times> 'a ring_channel) option" where
  "RingChannel_Out c =
     (case rc_buffer c of [] \<Rightarrow> None | x # xs \<Rightarrow> Some (x, c\<lparr>rc_buffer := xs\<rparr>))"

definition ring_ok :: "'a ring_channel \<Rightarrow> bool" where
  "ring_ok c \<longleftrightarrow> length (rc_buffer c) \<le> rc_size c"

subsection \<open>QueryChannel\<close>

record 'a query_channel =
  channels :: "'a ring_channel list"

definition NewQueryChannel :: "'a query_channel" where
  "NewQueryChannel = \<lparr>channels = []\<rparr>"

definition QueryChannel_Add :: "'a query_channel \<Rightarrow> nat \<times> 'a query_channel" where
  "QueryChannel_Add qc =
     (length (channels qc), qc\<lparr>channels := channels qc @ [NewRingChannel 100]\<rparr>)"

definition QueryChannel_Push :: "'a \<Rightarrow> 'a query_channel \<Rightarrow> 'a query_channel" where
  "QueryChannel_Push x qc = qc\<lparr>channels := map (RingChannel_In x) (channels qc)\<rparr>"

definition QueryChannel_Recv :: "nat \<Rightarrow> 'a query_channel \<Rightarrow> ('a \<times> 'a query_channel) option" where
  "QueryChannel_Recv k qc =
     (if k < length (channels qc) then
        (case RingChannel_Out (channels qc ! k) of
           None \<Rightarrow> None
         | Some (x, c) \<Rightarrow> Some (x, qc\<lparr>channels := (channels qc)[k := c]\<rparr>))
      else None)"

definition qc_ok :: "'a query_channel \<Rightarrow> bool" where
  "qc_ok qc \<longleftrightarrow> (\<forall>c \<in> set (channels qc). ring_ok c \<and> rc_size c = 100)"

subsection \<open>Ring channel lemmas\<close>

lemma rc_size_In [simp]: "rc_size (RingChannel_In x c) = rc_size c"
  by (simp add: RingChannel_In_def Let_def)

lemma rc_buffer_In_lastn:
  "rc_buffer (RingChannel_In x c) = lastn (rc_size c) (rc_buffer c @ [x])"
  if "ring_ok c"
proof (cases "rc_size c < Suc (length (rc_buffer c))")
  case True
  with that have "rc_size c = length (rc_buffer c)"
    by (simp add: ring_ok_def)
  then show ?thesis
    by (cases "rc_buffer c") (simp_all add: RingChannel_In_def lastn_def Let_def drop_Suc)
next
  case False
  then show ?thesis
    by (simp add: RingChannel_In_def lastn_def Let_def)
qed

lemma ring_ok_In: "ring_ok c \<Longrightarrow> ring_ok (RingChannel_In x c)"
  by (auto simp: ring_ok_def rc_buffer_In_lastn)

lemma channels_fold_Push:
  "channels (fold QueryChannel_Push xs qc) = map (fold RingChannel_In xs) (channels qc)"
  by (induction xs arbitrary: qc) (simp_all add: QueryChannel_Push_def comp_def)

end
