(* ===== verification/Collector.thy ===== *)
theory Collector
  imports QueryChannel
begin

text \<open>
  The correlator: \<open>collector()\<close> and \<open>cleanup()\<close> of \<open>src/icmpmon.go\<close>. Its state is
  the global slice \<open>requests\<close> of pending probes, the persisted rows of the store
  (\<open>db\<close>), and the live-event broadcaster \<open>queryChannel\<close> (\<open>live\<close>). Each arm of the
  \<open>select\<close> is one \<open>collector_event\<close>:
  \<^item> a value read from \<open>messages\<close>, a \<open>Request\<close> (appended) or a \<open>Response\<close>
    (matched newest-first by sequence number, \<open>response_scan\<close>);
  \<^item> the one-second \<open>timeoutTicker\<close>, carrying the clock reading \<open>time.Now()\<close> in
    nanoseconds (\<open>timeout_scan\<close>);
  \<^item> the hourly \<open>cleanupTicker\<close> (\<open>cleanup\<close>);
  \<^item> the quit notification, on which the loop returns.
  Both scans are the source's index loops \<open>for i := len(requests) - 1; i >= 0; i--\<close>,
  written as recursion on the number of indices still to visit; removal is the slice
  idiom \<open>remove_at\<close>. All clock reads of one timeout tick are modelled by one reading:
  the handler runs in microseconds, while the quantities it computes are milliseconds
  and seconds. The store is the spec's persistence collaborator (\<open>db_create\<close>,
  \<open>db_delete_older\<close>), modelled as infallible.
\<close>

record collector_state =
  requests :: "request list"
  db :: "query list"
  live :: "query query_channel"

datatype collector_event =
    EvMessage message
  | EvTimeoutTick nanos
  | EvCleanupTick nanos
  | EvQuit

subsection \<open>Persistence collaborator and clock\<close>

definition db_create :: "query \<Rightarrow> query list \<Rightarrow> query list" where
  "db_create q rows = rows @ [q]"

definition db_delete_older :: "millis \<Rightarrow> query list \<Rightarrow> query list" where
  "db_delete_older t rows = filter (\<lambda>q. \<not> qry_time q < t) rows"

definition unix_seconds :: "nanos \<Rightarrow> int" where
  "unix_seconds t = t div 1000000000"

subsection \<open>The correlator's operations\<close>

definition emit :: "query \<Rightarrow> nat \<Rightarrow> collector_state \<Rightarrow> collector_state" where
  "emit q i s =
     s\<lparr>live := QueryChannel_Push q (live s),
       requests := remove_at i (requests s),
       db := db_create q (db s)\<rparr>"

definition response_query :: "request \<Rightarrow> response \<Rightarrow> query" where
  "response_query rq r =
     \<lparr>qry_peer_id = peer_id (req_peer rq),
      qry_response_time = sub64 (resp_time r) (req_time rq),
      qry_time = resp_time r\<rparr>"

fun response_scan :: "response \<Rightarrow> nat \<Rightarrow> collector_state \<Rightarrow> collector_state" where
  "response_scan r 0 s = s"
| "response_scan r (Suc i) s =
     (if req_id (requests s ! i) = resp_id r
      then emit (response_query (requests s ! i) r) i s
      else response_scan r i s)"

definition timed_out :: "millis \<Rightarrow> request \<Rightarrow> bool" where
  "timed_out now rq \<longleftrightarrow> add64 (req_time rq) (peer_timeout (req_peer rq)) > now"

definition timeout_query :: "request \<Rightarrow> nanos \<Rightarrow> query" where
  "timeout_query rq t =
     \<lparr>qry_peer_id = peer_id (req_peer rq), qry_response_time = -1, qry_time = unix_millis t\<rparr>"

fun timeout_scan :: "nanos \<Rightarrow> millis \<Rightarrow> nat \<Rightarrow> collector_state \<Rightarrow> collector_state" where
  "timeout_scan t now 0 s = s"
| "timeout_scan t now (Suc i) s =
     timeout_scan t now i
       (if timed_out now (requests s ! i)
        then emit (timeout_query (requests s ! i) t) i s
        else s)"

definition cleanup :: "int \<Rightarrow> nanos \<Rightarrow> query list \<Rightarrow> query list" where
  "cleanup keep t rows = db_delete_older (unix_seconds (t - keep) * 1000) rows"

fun collector_step :: "int \<Rightarrow> collector_event \<Rightarrow> collector_state \<Rightarrow> collector_state" where
  "collector_step keep (EvMessage (MsgRequest rq)) s = s\<lparr>requests := requests s @ [rq]\<rparr>"
| "collector_step keep (EvMessage (MsgResponse r)) s = response_scan r (length (requests s)) s"
| "collector_step keep (EvTimeoutTick t) s =
     timeout_scan t (unix_seconds t * 1000) (length (requests s)) s"
| "collector_step keep (EvCleanupTick t) s = s\<lparr>db := cleanup keep t (db s)\<rparr>"
| "collector_step keep EvQuit s = s"

fun collector_loop :: "int \<Rightarrow> collector_event list \<Rightarrow> collector_state \<Rightarrow> collector_state" where
  "collector_loop keep [] s = s"
| "collector_loop keep (EvQuit # es) s = s"
| "collector_loop keep (e # es) s = collector_loop keep es (collector_step keep e s)"

definition collector_start :: "int \<Rightarrow> nanos \<Rightarrow> query list \<Rightarrow> query query_channel \<Rightarrow> collector_state" where
  "collector_start keep t rows qc = \<lparr>requests = [], db = cleanup keep t rows, live = qc\<rparr>"

subsection \<open>Reference behaviour and invariant\<close>

text \<open>
  \<open>timeout_ref\<close> is what a timeout tick does, stated without indices: the requests for
  which the source's condition holds leave the pending list, and one loss row per such
  request is persisted and published, newest request first (the scan runs from the end).
  \<open>ev_clock\<close> is the millisecond clock reading an event carries, \<open>collector_inv\<close>
  the correlator's invariant against the clock, and \<open>clock_ok\<close> says a sequence of
  events is stamped by a monotone clock within the \<open>int64\<close> range.
\<close>

definition timeout_ref :: "nanos \<Rightarrow> millis \<Rightarrow> collector_state \<Rightarrow> collector_state" where
  "timeout_ref t now s =
     (let qs = map (\<lambda>rq. timeout_query rq t) (rev (filter (timed_out now) (requests s)))
      in s\<lparr>live := fold QueryChannel_Push qs (live s),
           requests := filter (\<lambda>rq. \<not> timed_out now rq) (requests s),
           db := db s @ qs\<rparr>)"

fun ev_clock :: "collector_event \<Rightarrow> millis option" where
  "ev_clock (EvMessage (MsgRequest rq)) = Some (req_time rq)"
| "ev_clock (EvMessage (MsgResponse r)) = Some (resp_time r)"
| "ev_clock (EvTimeoutTick t) = Some (unix_millis t)"
| "ev_clock (EvCleanupTick t) = Some (unix_millis t)"
| "ev_clock EvQuit = None"

definition collector_inv :: "millis \<Rightarrow> collector_state \<Rightarrow> bool" where
  "collector_inv c s \<longleftrightarrow>
     (\<forall>rq \<in> set (requests s). 0 \<le> req_time rq \<and> req_time rq \<le> c) \<and>
     sorted (map qry_time (db s)) \<and> (\<forall>q \<in> set (db s). qry_time q \<le> c) \<and>
     (\<forall>q \<in> set (db s). qry_response_time q = -1 \<or> 0 \<le> qry_response_time q)"

definition clock_ok :: "millis \<Rightarrow> collector_event list \<Rightarrow> bool" where
  "clock_ok c es \<longleftrightarrow>
     0 \<le> c \<and> sorted (c # List.map_filter ev_clock es) \<and>
     (\<forall>x \<in> set (List.map_filter ev_clock es). x < 2 ^ 63)"

text \<open>A peer, a pending probe to it, and its echo reply 20 ms later, for the examples.\<close>

abbreviation ex_peer :: peer where
  "ex_peer \<equiv> \<lparr>peer_name = ''gw'', peer_address = ''10.0.0.1'', peer_interval = 1000,
     peer_timeout = 1000, peer_id = 7, peer_ip = [10, 0, 0, 1]\<rparr>"

abbreviation ex_request :: request where
  "ex_request \<equiv> \<lparr>req_id = 1, req_ip = [], req_time = 1000, req_peer = ex_peer\<rparr>"

abbreviation ex_state :: collector_state where
  "ex_state \<equiv> \<lparr>requests = [ex_request], db = [], live = NewQueryChannel\<rparr>"

abbreviation ex_response :: response where
  "ex_response \<equiv> \<lparr>resp_id = 1, resp_ip = [10, 0, 0, 1], resp_time = 1020\<rparr>"

subsection \<open>The scans\<close>

lemma response_scan_unmatched:
  "(\<forall>k<n. req_id (requests s ! k) \<noteq> resp_id r) \<Longrightarrow> response_scan r n s = s"
  by (induction n) auto

lemma response_scan_match:
  "j < n \<Longrightarrow> req_id (requests s ! j) = resp_id r \<Longrightarrow>
   (\<forall>k. j < k \<and> k < n \<longrightarrow> req_id (requests s ! k) \<noteq> resp_id r) \<Longrightarrow>
   response_scan r n s = emit (response_query (requests s ! j) r) j s"
proof (induction n)
  case 0
  then show ?case by simp
next
  case (Suc n)
  show ?case
  proof (cases "j = n")
    case True
    with Suc.prems show ?thesis by simp
  next
    case False
    with Suc.prems have "j < n" and "req_id (requests s ! n) \<noteq> resp_id r" by auto
    with Suc show ?thesis by simp
  qed
qed

lemma timeout_scan_prefix:
  "i \<le> length (requests s) \<Longrightarrow>
   timeout_scan t now i s =
     (let xs = take i (requests s);
          qs = map (\<lambda>rq. timeout_query rq t) (rev (filter (timed_out now) xs))
      in s\<lparr>live := fold QueryChannel_Push qs (live s),
           requests := filter (\<lambda>rq. \<not> timed_out now rq) xs @ drop i (requests s),
           db := db s @ qs\<rparr>)"
proof (induction i arbitrary: s)
  case 0
  then show ?case by simp
next
  case (Suc i)
  let ?x = "requests s ! i"
  have i: "i < length (requests s)" using Suc.prems by simp
  have tk: "take (Suc i) (requests s) = take i (requests s) @ [?x]"
    using i by (simp add: take_Suc_conv_app_nth)
  show ?case
  proof (cases "timed_out now ?x")
    case True
    let ?s = "emit (timeout_query ?x t) i s"
    have len: "i \<le> length (requests ?s)" using i by (simp add: emit_def)
    have "timeout_scan t now (Suc i) s = timeout_scan t now i ?s" using True by simp
    with Suc.IH [OF len] True i tk show ?thesis
      by (simp add: emit_def db_create_def Let_def go_simps)
  next
    case False
    have len: "i \<le> length (requests s)" using i by simp
    have "timeout_scan t now (Suc i) s = timeout_scan t now i s" using False by simp
    with Suc.IH [OF len] False i tk show ?thesis
      by (simp add: Let_def Cons_nth_drop_Suc)
  qed
qed

lemma emit_fields [simp]:
  "requests (emit q i s) = remove_at i (requests s)"
  "db (emit q i s) = db s @ [q]"
  "live (emit q i s) = QueryChannel_Push q (live s)"
  by (simp_all add: emit_def db_create_def)

lemma timeout_scan_full [simp]:
  "timeout_scan t now (length (requests s)) s = timeout_ref t now s"
  using timeout_scan_prefix [of "length (requests s)" s t now]
  by (simp add: timeout_ref_def Let_def)

lemma timeout_ref_fields [simp]:
  "requests (timeout_ref t now s) = filter (\<lambda>rq. \<not> timed_out now rq) (requests s)"
  "db (timeout_ref t now s) =
     db s @ map (\<lambda>rq. timeout_query rq t) (rev (filter (timed_out now) (requests s)))"
  "live (timeout_ref t now s) =
     fold QueryChannel_Push (map (\<lambda>rq. timeout_query rq t) (rev (filter (timed_out now) (requests s)))) (live s)"
  by (simp_all add: timeout_ref_def Let_def)

lemma timeout_ref_idle:
  "\<forall>rq \<in> set (requests s). \<not> timed_out now rq \<Longrightarrow> timeout_ref t now s = s"
  by (simp add: timeout_ref_def filter_empty_conv)

subsection \<open>Timeout ticks\<close>

text \<open>
  C3. The index loop of a timeout tick (removing in place while scanning backwards) is
  equivalent to the reference \<open>timeout_ref\<close>: filter the pending list, and emit one
  loss row per removed request, newest first.
\<close>

theorem timeout_tick_equiv:
  "collector_step keep (EvTimeoutTick t) s = timeout_ref t (unix_seconds t * 1000) s"
  by simp

lemma response_scan_cases:
  "response_scan r n s = s \<or>
   (\<exists>j<n. req_id (requests s ! j) = resp_id r \<and>
      response_scan r n s = emit (response_query (requests s ! j) r) j s)"
proof (induction n)
  case 0
  then show ?case by simp
next
  case (Suc n)
  show ?case
  proof (cases "req_id (requests s ! n) = resp_id r")
    case True
    then show ?thesis by auto
  next
    case False
    then have eq: "response_scan r (Suc n) s = response_scan r n s" by simp
    from Suc.IH show ?thesis
    proof
      assume "response_scan r n s = s"
      with eq show ?thesis by simp
    next
      assume "\<exists>j<n. req_id (requests s ! j) = resp_id r \<and>
        response_scan r n s = emit (response_query (requests s ! j) r) j s"
      with eq show ?thesis using less_SucI by metis
    qed
  qed
qed

subsection \<open>Replies\<close>

text \<open>
  C1. A reply whose sequence number matches a pending request removes the newest such
  request (the scan runs from the end of the list and stops at the first match), and
  persists and publishes one row for the request's peer whose response time is the
  reply's receipt time minus the request's send time, stamped with the receipt time.
\<close>

theorem response_matches_newest:
  assumes "j < length (requests s)" and "req_id (requests s ! j) = resp_id r"
    and "\<forall>k. j < k \<and> k < length (requests s) \<longrightarrow> req_id (requests s ! k) \<noteq> resp_id r"
    and "in_i64 (resp_time r - req_time (requests s ! j))"
  shows "requests (collector_step keep (EvMessage (MsgResponse r)) s) = remove_at j (requests s) \<and>
         db (collector_step keep (EvMessage (MsgResponse r)) s) =
           db s @ [\<lparr>qry_peer_id = peer_id (req_peer (requests s ! j)),
                    qry_response_time = resp_time r - req_time (requests s ! j),
                    qry_time = resp_time r\<rparr>] \<and>
         live (collector_step keep (EvMessage (MsgResponse r)) s) =
           QueryChannel_Push (response_query (requests s ! j) r) (live s)"
  using response_scan_match [OF assms(1-3)] assms(4) by (simp add: response_query_def)

text \<open>
  C2. A reply that matches no pending request (late, duplicate or foreign) changes
  nothing: no row, no publication, the pending list unchanged.
\<close>

theorem response_unmatched_noop:
  "\<forall>rq \<in> set (requests s). req_id rq \<noteq> resp_id r \<Longrightarrow>
   collector_step keep (EvMessage (MsgResponse r)) s = s"
  by (simp add: response_scan_unmatched)

text \<open>
  C4. The timeout test of \<open>collector()\<close> is \<open>Time + Timeout > now\<close>: a request whose
  deadline still lies in the future at a tick is removed and recorded as lost
  (response time -1). The spec's open question flags this condition; the model shows
  what it does.
\<close>

theorem timeout_fires_before_deadline:
  assumes "rq \<in> set (requests s)" and "unix_seconds t * 1000 < req_time rq + peer_timeout (req_peer rq)"
    and "in_i64 (req_time rq + peer_timeout (req_peer rq))"
  shows "rq \<notin> set (requests (collector_step keep (EvTimeoutTick t) s)) \<and>
         timeout_query rq t \<in> set (db (collector_step keep (EvTimeoutTick t) s))"
  using assms by (auto simp: timed_out_def)

text \<open>
  C5. Conversely, a request whose deadline has passed (age at least its peer's timeout)
  is kept by the tick: the spec's "age \<open>\<ge>\<close> timeoutMs yields a -1 sample" does
  not hold of the code.
\<close>

theorem timeout_keeps_expired:
  assumes "rq \<in> set (requests s)" and "req_time rq + peer_timeout (req_peer rq) \<le> unix_seconds t * 1000"
    and "in_i64 (req_time rq + peer_timeout (req_peer rq))"
  shows "rq \<in> set (requests (collector_step keep (EvTimeoutTick t) s))"
  using assms by (auto simp: timed_out_def)

text \<open>
  C6. No request is timed out twice: after one tick, a second tick at the same or a later
  second finds nothing to time out and leaves the state unchanged. (With the condition
  of C4 this also means that what survives one tick is never timed out at all.)
\<close>

theorem timeout_tick_once:
  assumes "unix_seconds t \<le> unix_seconds t'"
  shows "collector_step keep (EvTimeoutTick t') (collector_step keep (EvTimeoutTick t) s) =
         collector_step keep (EvTimeoutTick t) s"
proof -
  let ?s = "collector_step keep (EvTimeoutTick t) s"
  have "\<forall>rq \<in> set (requests ?s). \<not> timed_out (unix_seconds t' * 1000) rq"
    using assms by (auto simp: timed_out_def)
  then have "timeout_ref t' (unix_seconds t' * 1000) ?s = ?s"
    by (rule timeout_ref_idle)
  then show ?thesis by (simp only: collector_step.simps timeout_scan_full)
qed

lemma collector_inv_mono: "collector_inv c s \<Longrightarrow> c \<le> c' \<Longrightarrow> collector_inv c' s"
  by (fastforce simp: collector_inv_def)

lemma collector_inv_emit_response:
  assumes inv: "collector_inv c s" and j: "j < length (requests s)"
    and c: "c \<le> resp_time r" "resp_time r < 2 ^ 63"
  shows "collector_inv (resp_time r) (emit (response_query (requests s ! j) r) j s)"
proof -
  let ?rq = "requests s ! j"
  have rq: "0 \<le> req_time ?rq" "req_time ?rq \<le> c"
    using inv j by (auto simp: collector_inv_def)
  then have "in_i64 (resp_time r - req_time ?rq)"
    using c by (simp add: in_i64_def)
  then have rt: "qry_response_time (response_query ?rq r) = resp_time r - req_time ?rq"
    by (simp add: response_query_def)
  have "set (remove_at j (requests s)) \<subseteq> set (requests s)"
    by (rule set_remove_at_subset)
  with inv c rt rq show ?thesis
    by (fastforce simp: collector_inv_def sorted_append response_query_def)
qed

lemma timeout_query_times:
  "map qry_time (map (\<lambda>rq. timeout_query rq t) xs) = replicate (length xs) (unix_millis t)"
  by (induction xs) (simp_all add: timeout_query_def)

lemma collector_inv_step:
  assumes inv: "collector_inv c s" and e: "ev_clock e = Some c'"
    and c': "0 \<le> c" "c \<le> c'" "c' < 2 ^ 63"
  shows "collector_inv c' (collector_step keep e s)"
proof (cases e)
  case (EvMessage m)
  show ?thesis
  proof (cases m)
    case (MsgRequest rq)
    with EvMessage e inv c' show ?thesis
      by (fastforce simp: collector_inv_def)
  next
    case (MsgResponse r)
    with EvMessage e have r: "c' = resp_time r" by simp
    from response_scan_cases [of r "length (requests s)" s] show ?thesis
    proof
      assume "response_scan r (length (requests s)) s = s"
      with EvMessage MsgResponse inv c' show ?thesis by (simp add: collector_inv_mono)
    next
      assume "\<exists>j<length (requests s). req_id (requests s ! j) = resp_id r \<and>
        response_scan r (length (requests s)) s = emit (response_query (requests s ! j) r) j s"
      then obtain j where "j < length (requests s)"
        and "response_scan r (length (requests s)) s = emit (response_query (requests s ! j) r) j s"
        by blast
      with EvMessage MsgResponse inv c' r show ?thesis
        by (simp add: collector_inv_emit_response)
    qed
  qed
next
  case (EvTimeoutTick t)
  with e have t: "c' = unix_millis t" by simp
  let ?now = "unix_seconds t * 1000"
  let ?new = "map (\<lambda>rq. timeout_query rq t) (rev (filter (timed_out ?now) (requests s)))"
  have step: "collector_step keep e s = timeout_ref t ?now s"
    using EvTimeoutTick by simp
  have times: "map qry_time ?new = replicate (length ?new) c'"
    using t timeout_query_times by simp
  have new_time: "\<forall>q \<in> set ?new. qry_time q = c'"
    using t by (auto simp: timeout_query_def)
  have new_rt: "\<forall>q \<in> set ?new. qry_response_time q = -1"
    by (auto simp: timeout_query_def)
  have old: "sorted (map qry_time (db s))" "\<forall>q \<in> set (db s). qry_time q \<le> c"
    "\<forall>q \<in> set (db s). qry_response_time q = -1 \<or> 0 \<le> qry_response_time q"
    "\<forall>rq \<in> set (requests s). 0 \<le> req_time rq \<and> req_time rq \<le> c"
    using inv by (simp_all add: collector_inv_def)
  have "sorted (map qry_time (db s @ ?new))"
    using old(1,2) new_time c'(2) times by (auto simp: sorted_append simp del: map_map)
  with old new_time new_rt c'(2) show ?thesis
    by (auto simp: step collector_inv_def)
next
  case (EvCleanupTick t)
  with inv c' show ?thesis
    by (fastforce simp: collector_inv_def cleanup_def db_delete_older_def sorted_filter)
next
  case EvQuit
  with e show ?thesis by simp
qed

subsection \<open>The event loop\<close>

text \<open>
  C7. Under a monotone clock, every run of the event loop keeps the persisted rows
  ordered by time, and every persisted response time is either a non-negative latency
  or the loss sentinel -1.
\<close>

theorem collector_rows_sorted_and_valid:
  assumes "collector_inv c s" and "clock_ok c es"
  shows "sorted (map qry_time (db (collector_loop keep es s))) \<and>
         (\<forall>q \<in> set (db (collector_loop keep es s)).
            qry_response_time q = -1 \<or> 0 \<le> qry_response_time q)"
proof -
  have "\<exists>c'. collector_inv c' (collector_loop keep es s)"
    using assms
  proof (induction es arbitrary: s c)
    case Nil
    then show ?case by auto
  next
    case (Cons e es)
    show ?case
    proof (cases "e = EvQuit")
      case True
      with Cons.prems show ?thesis by auto
    next
      case False
      then have loop: "collector_loop keep (e # es) s = collector_loop keep es (collector_step keep e s)"
        by (cases e) simp_all
      from False obtain c' where c': "ev_clock e = Some c'"
        by (cases e rule: ev_clock.cases) simp_all
      with Cons.prems have "0 \<le> c" "c \<le> c'" "c' < 2 ^ 63" "clock_ok c' es"
        by (auto simp: clock_ok_def map_filter_def)
      with c' Cons.prems(1) have "collector_inv c' (collector_step keep e s)"
        by (simp add: collector_inv_step)
      with Cons.IH \<open>clock_ok c' es\<close> loop show ?thesis by simp
    qed
  qed
  then show ?thesis by (auto simp: collector_inv_def)
qed

text \<open>
  C8. Every row the correlator emits is both persisted and published to every live
  subscriber, in the same order (cleanup apart, which only deletes rows).
\<close>

theorem emitted_rows_published:
  assumes "\<forall>t. e \<noteq> EvCleanupTick t"
  shows "\<exists>new. db (collector_step keep e s) = db s @ new \<and>
           channels (live (collector_step keep e s)) = map (fold RingChannel_In new) (channels (live s))"
proof (cases e)
  case (EvMessage m)
  show ?thesis
  proof (cases m)
    case (MsgRequest rq)
    with EvMessage show ?thesis by simp
  next
    case (MsgResponse r)
    from response_scan_cases [of r "length (requests s)" s] show ?thesis
    proof
      assume "response_scan r (length (requests s)) s = s"
      with EvMessage MsgResponse show ?thesis by simp
    next
      assume "\<exists>j<length (requests s). req_id (requests s ! j) = resp_id r \<and>
        response_scan r (length (requests s)) s = emit (response_query (requests s ! j) r) j s"
      with EvMessage MsgResponse show ?thesis
        by (auto simp: QueryChannel_Push_def)
    qed
  qed
next
  case (EvTimeoutTick t)
  then show ?thesis by (simp add: channels_fold_Push)
next
  case (EvCleanupTick t)
  with assms show ?thesis by simp
next
  case EvQuit
  then show ?thesis by simp
qed

subsection \<open>Examples\<close>

theorem response_matches_newest_witness:
  "requests (collector_step 0 (EvMessage (MsgResponse ex_response)) ex_state) = [] \<and>
   db (collector_step 0 (EvMessage (MsgResponse ex_response)) ex_state) =
     [\<lparr>qry_peer_id = 7, qry_response_time = 20, qry_time = 1020\<rparr>]"
  using response_matches_newest [of 0 ex_state ex_response 0]
  by (simp add: remove_at_def in_i64_def response_query_def)

theorem response_unmatched_noop_witness:
  "collector_step 0 (EvMessage (MsgResponse (ex_response\<lparr>resp_id := 2\<rparr>))) ex_state = ex_state"
  using response_unmatched_noop [of ex_state "ex_response\<lparr>resp_id := 2\<rparr>" 0] by simp

theorem timeout_fires_before_deadline_witness:
  "ex_request \<notin> set (requests (collector_step 0 (EvTimeoutTick 1500000000) ex_state)) \<and>
   timeout_query ex_request 1500000000 \<in> set (db (collector_step 0 (EvTimeoutTick 1500000000) ex_state))"
  using timeout_fires_before_deadline [of ex_request ex_state 1500000000 0]
  by (simp add: unix_seconds_def in_i64_def)

theorem timeout_keeps_expired_witness:
  "ex_request\<lparr>req_peer := ex_peer\<lparr>peer_timeout := 10\<rparr>\<rparr> \<in>
     set (requests (collector_step 0 (EvTimeoutTick 2000000000)
       (ex_state\<lparr>requests := [ex_request\<lparr>req_peer := ex_peer\<lparr>peer_timeout := 10\<rparr>\<rparr>]\<rparr>)))"
  using timeout_keeps_expired [of "ex_request\<lparr>req_peer := ex_peer\<lparr>peer_timeout := 10\<rparr>\<rparr>"
    "ex_state\<lparr>requests := [ex_request\<lparr>req_peer := ex_peer\<lparr>peer_timeout := 10\<rparr>\<rparr>]\<rparr>" 2000000000 0]
  by (simp add: unix_seconds_def in_i64_def)

theorem timeout_tick_once_witness:
  "collector_step 0 (EvTimeoutTick 2500000000) (collector_step 0 (EvTimeoutTick 1500000000) ex_state) =
   collector_step 0 (EvTimeoutTick 1500000000) ex_state"
  using timeout_tick_once [of 1500000000 2500000000 0 ex_state] by (simp add: unix_seconds_def)

theorem collector_rows_sorted_and_valid_witness:
  "collector_inv 1000 ex_state \<and>
   clock_ok 1000 [EvMessage (MsgResponse ex_response), EvTimeoutTick 2000000000] \<and>
   sorted (map qry_time (db (collector_loop 0 [EvMessage (MsgResponse ex_response), EvTimeoutTick 2000000000] ex_state)))"
proof -
  have inv: "collector_inv 1000 ex_state" by (simp add: collector_inv_def)
  have ck: "clock_ok 1000 [EvMessage (MsgResponse ex_response), EvTimeoutTick 2000000000]"
    by (simp add: clock_ok_def map_filter_def unix_millis_def)
  show ?thesis using collector_rows_sorted_and_valid [OF inv ck, of 0] inv ck by simp
qed

theorem emitted_rows_published_witness:
  "\<exists>new. db (collector_step 0 (EvMessage (MsgResponse ex_response)) (ex_state\<lparr>live := snd (QueryChannel_Add NewQueryChannel)\<rparr>)) = [] @ new \<and>
     channels (live (collector_step 0 (EvMessage (MsgResponse ex_response)) (ex_state\<lparr>live := snd (QueryChannel_Add NewQueryChannel)\<rparr>))) =
     map (fold RingChannel_In new) [NewRingChannel 100]"
  using emitted_rows_published [of "EvMessage (MsgResponse ex_response)" 0
    "ex_state\<lparr>live := snd (QueryChannel_Add NewQueryChannel)\<rparr>"]
  by (simp add: QueryChannel_Add_def NewQueryChannel_def)

end
