(* ===== verification/DataHandler.thy ===== *)
theory DataHandler
  imports Data
begin

text \<open>
  The time-series query service: \<open>dataHandler\<close> and \<open>getPeerInterval\<close> of
  \<open>src/icmpmon.go\<close>. A request names a peer and optionally a range \<open>[start, stop]\<close>
  and a count \<open>max\<close>; absent values are -1. The handler reads the peer's rows from the
  store (\<open>db_select\<close>, \<open>db_select_range\<close>: the spec's persistence query, which
  selects only the columns \<open>response_time, time\<close>, so the rows come back with
  \<open>PeerID\<close> 0), fills gaps with synthetic zero rows, and downsamples. Each step is
  one definition, as the source writes it:
  \<^item> \<open>lead_insert\<close>: a row at \<open>start + interval\<close> in front, made room for by
    \<open>append\<close> and \<open>copy(queries[1:], queries[:l-1])\<close>;
  \<^item> \<open>trail_insert\<close>: a row at \<open>stop - interval\<close> at the end;
  \<^item> \<open>fill_loop\<close>: the loop over \<open>i < l\<close> with the pointer \<open>previousQuery\<close>
    (\<open>None\<close> for \<open>nil\<close>; the value it points to never changes, since insertions only
    move elements at or after \<open>i\<close> and a reallocated array leaves the old one intact);
    it may not terminate in general, so it is a \<open>partial_function (option)\<close>;
  \<^item> \<open>stride_loop\<close> and \<open>respond_max\<close>: the \<open>max\<close> handling, where slicing
    \<open>resultQueries[len-max:]\<close> with a negative bound would panic (\<open>GoPanic\<close>).
  The separate length \<open>l\<close> the source keeps is carried along as it is.
  Times and the interval are Go \<open>int64\<close>; their arithmetic wraps (\<open>add64\<close>,
  \<open>sub64\<close>, \<open>mul64\<close>).
\<close>

datatype data_reply = Http400 | Json "query list" | GoPanic

definition getPeerInterval :: "config \<Rightarrow> int \<Rightarrow> int" where
  "getPeerInterval cfg pid =
     (case find (\<lambda>p. peer_id p = pid) (cfg_peers cfg) of
        Some p \<Rightarrow> peer_interval p
      | None \<Rightarrow> cfg_interval cfg)"

definition db_select :: "int \<Rightarrow> query list \<Rightarrow> query list" where
  "db_select pid rows =
     map (\<lambda>q. q\<lparr>qry_peer_id := 0\<rparr>) (sort_key qry_time (filter (\<lambda>q. qry_peer_id q = pid) rows))"

definition db_select_range :: "int \<Rightarrow> int \<Rightarrow> int \<Rightarrow> query list \<Rightarrow> query list" where
  "db_select_range pid start stop rows =
     db_select pid (filter (\<lambda>q. start \<le> qry_time q \<and> qry_time q \<le> stop) rows)"

definition synthetic_query :: "int \<Rightarrow> millis \<Rightarrow> query" where
  "synthetic_query pid t = \<lparr>qry_peer_id = pid, qry_response_time = 0, qry_time = t\<rparr>"

definition tolerance :: int where
  "tolerance = 500"

definition lead_insert :: "int \<Rightarrow> int \<Rightarrow> millis \<Rightarrow> query list \<times> nat \<Rightarrow> query list \<times> nat" where
  "lead_insert iv pid start ql =
     (let (qs, l) = ql
      in if sub64 (sub64 (qry_time (qs ! 0)) start) tolerance > iv
         then ((slice_copy 1 0 (l - 1) (qs @ [zero_query]))[0 := synthetic_query pid (add64 start iv)],
               l + 1)
         else (qs, l))"

definition trail_insert :: "int \<Rightarrow> int \<Rightarrow> millis \<Rightarrow> query list \<times> nat \<Rightarrow> query list \<times> nat" where
  "trail_insert iv pid stop ql =
     (let (qs, l) = ql
      in if sub64 (sub64 (qry_time (qs ! (l - 1))) stop) tolerance > iv
         then (qs @ [synthetic_query pid (sub64 stop iv)], l + 1)
         else (qs, l))"

definition fill_insert :: "int \<Rightarrow> int \<Rightarrow> query \<Rightarrow> nat \<Rightarrow> query list \<times> nat \<Rightarrow> query list \<times> nat" where
  "fill_insert iv pid prev i ql =
     (let (qs, l) = ql
      in if sub64 (sub64 (qry_time (qs ! i)) (qry_time prev)) tolerance > iv
         then ((slice_copy (i + 1) i (l + 1) (qs @ [zero_query]))[i := synthetic_query pid (add64 (qry_time prev) iv)],
               l + 1)
         else (qs, l))"

partial_function (option) fill_loop ::
  "int \<Rightarrow> int \<Rightarrow> query option \<Rightarrow> nat \<Rightarrow> query list \<times> nat \<Rightarrow> (query list \<times> nat) option"
where
  "fill_loop iv pid prev i ql =
     (if i < snd ql then
        (let ql' = (case prev of None \<Rightarrow> ql | Some p \<Rightarrow> fill_insert iv pid p i ql)
         in fill_loop iv pid (Some (fst ql' ! i)) (i + 1) ql')
      else Some ql)"

definition gap_fill :: "int \<Rightarrow> int \<Rightarrow> millis \<Rightarrow> millis \<Rightarrow> query list \<Rightarrow> (query list \<times> nat) option" where
  "gap_fill iv pid start stop qs =
     (if 0 < length qs
      then fill_loop iv pid None 0 (trail_insert iv pid stop (lead_insert iv pid start (qs, length qs)))
      else Some (qs, length qs))"

function stride_loop :: "nat \<Rightarrow> nat \<Rightarrow> nat \<Rightarrow> query list \<Rightarrow> query list \<Rightarrow> query list" where
  "stride_loop s l i qs acc = (if i < l \<and> 0 < s then stride_loop s l (i + s) qs (acc @ [qs ! i]) else acc)"
  by pat_completeness auto
termination
  by (relation "measure (\<lambda>(s, l, i, qs, acc). l - i)") auto

definition respond_max :: "int \<Rightarrow> int \<Rightarrow> int \<Rightarrow> millis \<Rightarrow> query list \<times> nat \<Rightarrow> data_reply" where
  "respond_max mx iv pid start ql =
     (let (qs, l) = ql
      in if 0 < mx then
           (if l = 0 then Json (map (\<lambda>i. synthetic_query pid (add64 start (mul64 iv (int i)))) [0..<nat mx])
            else if mx < int l then
              (let s = l div nat mx; picks = stride_loop s l 0 qs []
               in if length picks < nat mx then GoPanic else Json (drop (length picks - nat mx) picks))
            else Json qs)
         else Json qs)"

definition data_series :: "config \<Rightarrow> query list \<Rightarrow> int \<Rightarrow> millis \<Rightarrow> millis \<Rightarrow> int \<Rightarrow> data_reply option" where
  "data_series cfg rows pid start stop mx =
     (let ranged = (0 \<le> start \<and> 0 \<le> stop);
          start' = (if ranged \<and> stop < start then stop else start);
          stop' = (if ranged \<and> stop < start then start else stop);
          qs = (if ranged then db_select_range pid start' stop' rows else db_select pid rows);
          iv = getPeerInterval cfg pid
      in map_option (respond_max mx iv pid start') (gap_fill iv pid start' stop' qs))"

declare fill_loop.simps [code]

subsection \<open>Reference behaviour of the gap-filling loop\<close>

text \<open>
  \<open>fill_after iv pid p xs\<close> is what \<open>fill_loop\<close> does to the rest \<open>xs\<close> of the
  series after the element \<open>p\<close>, written without indices and with unbounded
  arithmetic: while the next element lies more than \<open>iv + tolerance\<close> after the
  previous one, a synthetic row \<open>iv\<close> after the previous one is inserted and becomes
  the previous one. \<open>bounded_times\<close> is the range within which no \<open>int64\<close>
  operation of the loop wraps. The examples use one peer with a 1000 ms interval.
\<close>

function fill_after :: "int \<Rightarrow> int \<Rightarrow> query \<Rightarrow> query list \<Rightarrow> query list" where
  "fill_after iv pid p [] = []"
| "fill_after iv pid p (x # xs) =
     (if 0 < iv \<and> iv < qry_time x - qry_time p - tolerance
      then synthetic_query pid (qry_time p + iv) #
           fill_after iv pid (synthetic_query pid (qry_time p + iv)) (x # xs)
      else x # fill_after iv pid x xs)"
  by pat_completeness auto
termination
  by (relation "measures [\<lambda>(iv, pid, p, xs). length xs,
      \<lambda>(iv, pid, p, xs). case xs of [] \<Rightarrow> 0 | x # _ \<Rightarrow> nat (qry_time x - qry_time p)]")
    (auto simp: synthetic_query_def tolerance_def)

definition fill_list :: "int \<Rightarrow> int \<Rightarrow> query list \<Rightarrow> query list" where
  "fill_list iv pid qs = (case qs of [] \<Rightarrow> [] | x # xs \<Rightarrow> x # fill_after iv pid x xs)"

definition bounded_times :: "query list \<Rightarrow> bool" where
  "bounded_times qs \<longleftrightarrow> (\<forall>q \<in> set qs. \<bar>qry_time q\<bar> < 2 ^ 61)"

abbreviation ex_cfg :: config where
  "ex_cfg \<equiv> \<lparr>cfg_peers = [\<lparr>peer_name = ''gw'', peer_address = ''10.0.0.1'', peer_interval = 1000,
     peer_timeout = 1000, peer_id = 7, peer_ip = [10, 0, 0, 1]\<rparr>], cfg_interval = 1000,
     cfg_timeout = 1000, cfg_listen_address = '':8000'', cfg_database = ''data.db'', cfg_keep_history = 0\<rparr>"

abbreviation ex_row :: "int \<Rightarrow> millis \<Rightarrow> query" where
  "ex_row rt t \<equiv> \<lparr>qry_peer_id = 0, qry_response_time = rt, qry_time = t\<rparr>"


declare stride_loop.simps [simp del]
declare fill_after.simps(2) [simp del]

subsection \<open>The gap-filling loop against its reference\<close>

lemma fill_after_Cons:
  "fill_after iv pid p (x # xs) =
     (if 0 < iv \<and> iv < qry_time x - qry_time p - tolerance
      then synthetic_query pid (qry_time p + iv) #
           fill_after iv pid (synthetic_query pid (qry_time p + iv)) (x # xs)
      else x # fill_after iv pid x xs)"
  by (rule fill_after.simps(2))

lemma fill_after_Nil_iff: "fill_after iv pid p xs = [] \<longleftrightarrow> xs = []"
proof (cases xs)
  case Nil
  then show ?thesis by simp
next
  case (Cons x xs')
  have "fill_after iv pid p (x # xs') \<noteq> []"
    by (subst fill_after_Cons) simp
  with Cons show ?thesis by simp
qed


lemma slice_copy_insert:
  assumes "i \<le> length qs"
  shows "(slice_copy (Suc i) i (Suc (length qs)) (qs @ [z]))[i := y] = insert_at i y qs"
proof (rule nth_equalityI)
  show "length ((slice_copy (Suc i) i (Suc (length qs)) (qs @ [z]))[i := y]) = length (insert_at i y qs)"
    using assms by (simp add: insert_at_def)
next
  fix k assume k: "k < length ((slice_copy (Suc i) i (Suc (length qs)) (qs @ [z]))[i := y])"
  then have k': "k < Suc (length qs)" by simp
  show "(slice_copy (Suc i) i (Suc (length qs)) (qs @ [z]))[i := y] ! k = insert_at i y qs ! k"
    using assms k' by (auto simp: slice_copy_def insert_at_def nth_append min_def nth_list_update
      Suc_diff_le not_less_eq_eq)
qed

lemma slice_copy_front:
  assumes "qs \<noteq> []"
  shows "(slice_copy 1 0 (length qs - 1) (qs @ [z]))[0 := y] = y # butlast qs @ [z]"
proof (rule nth_equalityI)
  show "length ((slice_copy 1 0 (length qs - 1) (qs @ [z]))[0 := y]) = length (y # butlast qs @ [z])"
    using assms by simp
next
  fix k assume k: "k < length ((slice_copy 1 0 (length qs - 1) (qs @ [z]))[0 := y])"
  then have k': "k < Suc (length qs)" by simp
  have n: "0 < length qs" using assms by simp
  show "(slice_copy 1 0 (length qs - 1) (qs @ [z]))[0 := y] ! k = (y # butlast qs @ [z]) ! k"
    using n k' by (cases k) (auto simp: slice_copy_def nth_append nth_butlast min_def nth_list_update Let_def)
qed

lemma fill_insert_eq:
  assumes "i < length qs" and "\<bar>qry_time (qs ! i)\<bar> < 2 ^ 61" and "\<bar>qry_time p\<bar> < 2 ^ 61"
    and "0 < iv" and "iv < 2 ^ 61"
  shows "fill_insert iv pid p i (qs, length qs) =
    (if iv < qry_time (qs ! i) - qry_time p - tolerance
     then (insert_at i (synthetic_query pid (qry_time p + iv)) qs, Suc (length qs))
     else (qs, length qs))"
proof -
  have "in_i64 (qry_time (qs ! i) - qry_time p)"
    using assms(2,3) by (rule in_i64_diff)
  moreover have "in_i64 (qry_time (qs ! i) - qry_time p - tolerance)"
    using assms(2,3) by (rule in_i64_diff3) (simp add: tolerance_def)
  moreover have "in_i64 (qry_time p + iv)"
    using assms(3,4,5) by (intro in_i64_add) simp_all
  ultimately show ?thesis
    using assms(1) by (simp add: fill_insert_def slice_copy_insert less_imp_le)
qed

lemma fill_loop_after:
  "0 < iv \<Longrightarrow> iv < 2 ^ 61 \<Longrightarrow> \<bar>qry_time p\<bar> < 2 ^ 61 \<Longrightarrow> bounded_times rest \<Longrightarrow>
   length ds = i \<Longrightarrow>
   fill_loop iv pid (Some p) i (ds @ rest, length (ds @ rest)) =
     Some (ds @ fill_after iv pid p rest, length (ds @ fill_after iv pid p rest))"
proof (induction iv pid p rest arbitrary: ds i rule: fill_after.induct)
  case (1 iv pid p)
  then show ?case by (simp add: fill_loop.simps)
next
  case (2 iv pid p x xs)
  let ?y = "synthetic_query pid (qry_time p + iv)"
  have x: "\<bar>qry_time x\<bar> < 2 ^ 61" and xs: "bounded_times xs"
    using "2.prems"(4) by (simp_all add: bounded_times_def)
  have nth: "(ds @ x # xs) ! i = x" using "2.prems"(5) by (simp add: nth_append)
  have step: "fill_loop iv pid (Some p) i (ds @ x # xs, length (ds @ x # xs)) =
     (let ql' = fill_insert iv pid p i (ds @ x # xs, length (ds @ x # xs))
      in fill_loop iv pid (Some (fst ql' ! i)) (i + 1) ql')"
    using "2.prems"(5) by (subst fill_loop.simps) simp
  show ?case
  proof (cases "iv < qry_time x - qry_time p - tolerance")
    case True
    have ins: "insert_at i ?y (ds @ x # xs) = (ds @ [?y]) @ x # xs"
      using "2.prems"(5) by (simp add: insert_at_def)
    have y: "\<bar>qry_time ?y\<bar> < 2 ^ 61"
      using True "2.prems"(1,3) x by (simp add: synthetic_query_def tolerance_def)
    have fi: "fill_insert iv pid p i (ds @ x # xs, length (ds @ x # xs)) =
      (insert_at i ?y (ds @ x # xs), Suc (length (ds @ x # xs)))"
      using fill_insert_eq [of i "ds @ x # xs" p iv pid] True "2.prems" x nth by simp
    have "fill_loop iv pid (Some p) i (ds @ x # xs, length (ds @ x # xs)) =
      fill_loop iv pid (Some ?y) (Suc i) ((ds @ [?y]) @ x # xs, length ((ds @ [?y]) @ x # xs))"
      using step fi ins "2.prems"(5) by (simp add: nth_append)
    also have "\<dots> = Some ((ds @ [?y]) @ fill_after iv pid ?y (x # xs),
        length ((ds @ [?y]) @ fill_after iv pid ?y (x # xs)))"
      using "2.IH"(1) [of "ds @ [?y]" "Suc i"] True "2.prems" y x xs
      by (simp add: bounded_times_def)
    moreover have "fill_after iv pid p (x # xs) = ?y # fill_after iv pid ?y (x # xs)"
      using True "2.prems"(1) by (subst fill_after_Cons) simp
    ultimately show ?thesis by simp
  next
    case False
    have fi: "fill_insert iv pid p i (ds @ x # xs, length (ds @ x # xs)) = (ds @ x # xs, length (ds @ x # xs))"
      using fill_insert_eq [of i "ds @ x # xs" p iv pid] False "2.prems" x nth by simp
    have "fill_loop iv pid (Some p) i (ds @ x # xs, length (ds @ x # xs)) =
      fill_loop iv pid (Some x) (Suc i) ((ds @ [x]) @ xs, length ((ds @ [x]) @ xs))"
      using step fi nth by simp
    also have "\<dots> = Some ((ds @ [x]) @ fill_after iv pid x xs, length ((ds @ [x]) @ fill_after iv pid x xs))"
      using "2.IH"(2) [of "ds @ [x]" "Suc i"] False "2.prems" x xs by simp
    moreover have "fill_after iv pid p (x # xs) = x # fill_after iv pid x xs"
      using False by (subst fill_after_Cons) simp
    ultimately show ?thesis by simp
  qed
qed

lemma fill_after_single:
  assumes "0 < iv"
  shows "fill_after iv pid p [y] =
    map (\<lambda>k. synthetic_query pid (qry_time p + int k * iv))
      [1..<Suc (nat ((qry_time y - qry_time p - tolerance - 1) div iv))] @ [y]"
  using assms
proof (induction "nat ((qry_time y - qry_time p - tolerance - 1) div iv)" arbitrary: p)
  case 0
  then have "(qry_time y - qry_time p - tolerance - 1) div iv \<le> 0"
    by linarith
  then have "\<not> iv < qry_time y - qry_time p - tolerance"
    using "0.prems" pos_imp_zdiv_pos_iff [of iv "qry_time y - qry_time p - tolerance - 1"]
    by linarith
  with 0 show ?case by (subst fill_after_Cons) simp
next
  case (Suc m)
  let ?p' = "synthetic_query pid (qry_time p + iv)"
  have ge: "1 \<le> (qry_time y - qry_time p - tolerance - 1) div iv"
    using Suc.hyps by linarith
  then have lt: "iv < qry_time y - qry_time p - tolerance"
    using Suc.prems pos_imp_zdiv_pos_iff [of iv "qry_time y - qry_time p - tolerance - 1"]
    by linarith
  have eq: "qry_time y - qry_time p - tolerance - 1 = (qry_time y - qry_time ?p' - tolerance - 1) + iv"
    by (simp add: synthetic_query_def)
  have "(qry_time y - qry_time p - tolerance - 1) div iv =
        (qry_time y - qry_time ?p' - tolerance - 1) div iv + 1"
    unfolding eq using Suc.prems by (intro div_add_self2) simp
  with Suc.hyps have m: "m = nat ((qry_time y - qry_time ?p' - tolerance - 1) div iv)"
    by linarith
  have IH: "fill_after iv pid ?p' [y] =
    map (\<lambda>k. synthetic_query pid (qry_time ?p' + int k * iv)) [1..<Suc m] @ [y]"
    using Suc.hyps(1) [OF m Suc.prems] m by simp
  have "[1..<Suc (Suc m)] = 1 # map Suc [1..<Suc m]"
    by (simp add: map_Suc_upt upt_conv_Cons)
  then show ?case
    using lt Suc.prems IH Suc.hyps(2)
    by (subst fill_after_Cons) (simp add: synthetic_query_def algebra_simps)
qed

lemma stride_count_step:
  assumes "0 < (s::nat)" and "i < l"
  shows "(l - i + s - 1) div s = Suc ((l - (i + s) + s - 1) div s)"
proof -
  have e: "l - i + s - 1 = s + (l - Suc i)" using assms by simp
  have d: "(s + (l - Suc i)) div s = Suc ((l - Suc i) div s)" using assms(1) by (simp add: div_add_self1)
  show ?thesis
  proof (cases "s \<le> l - i")
    case True
    then have "l - (i + s) + s - 1 = l - Suc i" by simp
    then show ?thesis by (simp only: e d)
  next
    case False
    then have "(l - Suc i) div s = 0" and "l - (i + s) + s - 1 = s - 1" by simp_all
    moreover have "(s - 1) div s = 0" using assms(1) by simp
    ultimately show ?thesis by (simp only: e d)
  qed
qed

lemma stride_loop_eq:
  "0 < s \<Longrightarrow> stride_loop s l i qs acc = acc @ map (\<lambda>k. qs ! (i + k * s)) [0..<(l - i + s - 1) div s]"
proof (induction s l i qs acc rule: stride_loop.induct)
  case (1 s l i qs acc)
  show ?case
  proof (cases "i < l")
    case True
    let ?m = "(l - (i + s) + s - 1) div s"
    have "stride_loop s l i qs acc = stride_loop s l (i + s) qs (acc @ [qs ! i])"
      using True "1.prems" by (simp add: stride_loop.simps [of s l i])
    also have "\<dots> = (acc @ [qs ! i]) @ map (\<lambda>k. qs ! (i + s + k * s)) [0..<?m]"
      using "1.IH" True "1.prems" by simp
    also have "\<dots> = acc @ map (\<lambda>k. qs ! (i + k * s)) [0..<Suc ?m]"
      by (simp del: upt_Suc add: map_upt_Suc algebra_simps)
    finally show ?thesis
      using stride_count_step [OF "1.prems" True] by simp
  next
    case False
    then show ?thesis using "1.prems" by (simp add: stride_loop.simps [of s l i])
  qed
qed

lemma stride_enough:
  assumes "0 < (m::nat)" and "m < l"
  shows "m \<le> (l + l div m - 1) div (l div m)"
proof -
  have pos: "0 < l div m" using assms by (simp add: div_greater_zero_iff)
  have "m * (l div m) \<le> l" by (rule times_div_less_eq_dividend)
  then have "m \<le> l div (l div m)" using pos by (simp add: less_eq_div_iff_mult_less_eq)
  also have "\<dots> \<le> (l + l div m - 1) div (l div m)" using pos by (intro div_le_mono) simp
  finally show ?thesis .
qed

text \<open>C13. When \<open>max\<close> is positive and smaller than the number of rows, the reply has
  exactly \<open>max\<close> rows, namely the last \<open>max\<close> of the rows taken at every
  \<open>len/max\<close>-th index from 0; the slice never panics.\<close>

theorem downsample_exact:
  assumes "0 < mx" and "mx < int (length qs)"
  shows "\<exists>ys. respond_max mx iv pid start (qs, length qs) = Json ys \<and> length ys = nat mx \<and>
           ys = lastn (nat mx) (map (\<lambda>k. qs ! (k * (length qs div nat mx)))
                  [0..<(length qs + length qs div nat mx - 1) div (length qs div nat mx)])"
proof -
  let ?l = "length qs" and ?m = "nat mx"
  let ?s = "?l div ?m"
  have m: "0 < ?m" "?m < ?l" using assms by linarith+
  then have s: "0 < ?s" by (simp add: div_greater_zero_iff)
  let ?picks = "map (\<lambda>k. qs ! (k * ?s)) [0..<(?l + ?s - 1) div ?s]"
  have picks: "stride_loop ?s ?l 0 qs [] = ?picks"
    using stride_loop_eq [OF s, of ?l 0 qs "[]"] by simp
  have enough: "?m \<le> length ?picks"
    using stride_enough [OF m] by simp
  have "respond_max mx iv pid start (qs, ?l) =
    (if length (stride_loop ?s ?l 0 qs []) < ?m then GoPanic
     else Json (drop (length (stride_loop ?s ?l 0 qs []) - ?m) (stride_loop ?s ?l 0 qs [])))"
    using assms m unfolding respond_max_def Let_def by (cases qs) simp_all
  also have "\<dots> = Json (drop (length ?picks - ?m) ?picks)"
    using enough unfolding picks by (simp add: not_less)
  finally have r: "respond_max mx iv pid start (qs, ?l) = Json (drop (length ?picks - ?m) ?picks)" .
  have len: "length (drop (length ?picks - ?m) ?picks) = ?m" using enough by simp
  show ?thesis using r len unfolding lastn_def by blast
qed

lemma fill_loop_fill_list:
  assumes "0 < iv" and "iv < 2 ^ 61" and "bounded_times qs"
  shows "fill_loop iv pid None 0 (qs, length qs) = Some (fill_list iv pid qs, length (fill_list iv pid qs))"
proof (cases qs)
  case Nil
  then show ?thesis by (simp add: fill_loop.simps fill_list_def)
next
  case (Cons x xs)
  have x: "\<bar>qry_time x\<bar> < 2 ^ 61" and xs: "bounded_times xs"
    using assms(3) Cons by (simp_all add: bounded_times_def)
  have "fill_loop iv pid None 0 (qs, length qs) = fill_loop iv pid (Some x) 1 ([x] @ xs, length ([x] @ xs))"
    using Cons by (subst fill_loop.simps) simp
  also have "\<dots> = Some ([x] @ fill_after iv pid x xs, length ([x] @ fill_after iv pid x xs))"
    using fill_loop_after [of iv x xs "[x]" 1 pid] assms x xs by simp
  finally show ?thesis using Cons by (simp add: fill_list_def)
qed

lemma last_fill_after: "xs \<noteq> [] \<Longrightarrow> last (fill_after iv pid p xs) = last xs"
proof (induction iv pid p xs rule: fill_after.induct)
  case (1 iv pid p)
  then show ?case by simp
next
  case (2 iv pid p x xs)
  show ?case
  proof (cases "0 < iv \<and> iv < qry_time x - qry_time p - tolerance")
    case True
    let ?y = "synthetic_query pid (qry_time p + iv)"
    have "fill_after iv pid p (x # xs) = ?y # fill_after iv pid ?y (x # xs)"
      using True by (subst fill_after_Cons) simp
    then show ?thesis using "2.IH"(1) [OF True] by (simp add: fill_after_Nil_iff)
  next
    case False
    have "fill_after iv pid p (x # xs) = x # fill_after iv pid x xs"
      by (subst fill_after_Cons) (simp only: if_not_P [OF False])
    then show ?thesis using "2.IH"(2) [OF False] by (cases xs) (simp_all add: fill_after_Nil_iff)
  qed
qed

lemma lead_insert_shape:
  assumes "qs \<noteq> []"
  shows "\<exists>qs'. lead_insert iv pid start (qs, length qs) = (qs', length qs') \<and> qs' \<noteq> [] \<and>
           set qs' \<subseteq> set qs \<union> {synthetic_query pid (add64 start iv), zero_query} \<and>
           (last qs' = last qs \<or> last qs' = zero_query)"
  using assms slice_copy_front [OF assms]
  by (auto simp: lead_insert_def Let_def dest: in_set_butlastD)

text \<open>C9. When the first sample of a non-empty series lies more than \<open>interval +
  tolerance\<close> after \<open>start\<close>, the leading insertion of \<open>dataHandler\<close> puts a synthetic
  row at \<open>start + interval\<close> in front, but its \<open>copy(queries[1:], queries[0:])\<close> on the
  grown slice keeps only the first \<open>n - 1\<close> samples and the new last slot stays
  \<open>Query{}\<close>: the last sample is replaced by a zero row.\<close>

theorem lead_insert_drops_last:
  assumes "qs \<noteq> []" and "iv < sub64 (sub64 (qry_time (hd qs)) start) tolerance"
  shows "lead_insert iv pid start (qs, length qs) =
           (synthetic_query pid (add64 start iv) # butlast qs @ [zero_query], Suc (length qs))"
  using assms slice_copy_front [OF assms(1)] by (simp add: lead_insert_def hd_conv_nth)


text \<open>C12. Between two samples more than \<open>interval + tolerance\<close> apart, the fill loop
  inserts a synthetic row every \<open>interval\<close> after the first one, as many as fit
  before \<open>y - tolerance\<close>, and keeps both samples.\<close>

theorem fill_inserts_every_interval:
  assumes "0 < iv" and "iv < 2 ^ 61" and "\<bar>qry_time x\<bar> < 2 ^ 61" and "\<bar>qry_time y\<bar> < 2 ^ 61"
  shows "map_option fst (fill_loop iv pid None 0 ([x, y], 2)) =
    Some (x # map (\<lambda>k. synthetic_query pid (qry_time x + int k * iv))
                 [1..<Suc (nat ((qry_time y - qry_time x - tolerance - 1) div iv))] @ [y])"
  using fill_loop_fill_list [of iv "[x, y]" pid] fill_after_single [of iv pid x y] assms
  by (simp add: fill_list_def bounded_times_def numeral_2_eq_2)

lemma trail_insert_shape:
  "\<exists>qs'. trail_insert iv pid stop (qs, length qs) = (qs', length qs') \<and>
      set qs' \<subseteq> set qs \<union> {synthetic_query pid (sub64 stop iv)}"
  by (auto simp: trail_insert_def Let_def)

lemma bounded_synthetic: "\<bar>t\<bar> < 2 ^ 61 \<Longrightarrow> \<bar>qry_time (synthetic_query pid t)\<bar> < 2 ^ 61"
  by (simp add: synthetic_query_def)

text \<open>C11. The gap-filling pass of \<open>dataHandler\<close> terminates: for a positive interval and
  timestamps, \<open>start\<close> and \<open>stop\<close> within \<open>2^60\<close>, the whole
  lead/trail/fill pipeline returns a result.\<close>

theorem gap_fill_terminates:
  assumes "0 < iv" and "iv < 2 ^ 60" and "\<bar>start\<bar> < 2 ^ 60" and "\<bar>stop\<bar> < 2 ^ 60"
    and "\<forall>q \<in> set qs. \<bar>qry_time q\<bar> < 2 ^ 60"
  shows "\<exists>r. gap_fill iv pid start stop qs = Some r"
proof (cases "qs = []")
  case True
  then show ?thesis by (simp add: gap_fill_def)
next
  case False
  obtain qs1 where l: "lead_insert iv pid start (qs, length qs) = (qs1, length qs1)"
    and s1: "set qs1 \<subseteq> set qs \<union> {synthetic_query pid (add64 start iv), zero_query}"
    using lead_insert_shape [OF False] by blast
  obtain qs2 where t: "trail_insert iv pid stop (qs1, length qs1) = (qs2, length qs2)"
    and s2: "set qs2 \<subseteq> set qs1 \<union> {synthetic_query pid (sub64 stop iv)}"
    using trail_insert_shape by blast
  have "in_i64 (start + iv)" "in_i64 (stop - iv)"
    using assms(1-4) unfolding in_i64_def by auto
  then have a: "\<bar>add64 start iv\<bar> < 2 ^ 61" "\<bar>sub64 stop iv\<bar> < 2 ^ 61"
    using assms(1-4) by auto
  have "\<forall>q \<in> set qs. \<bar>qry_time q\<bar> < 2 ^ 61"
    using assms(5) by force
  then have "bounded_times qs2"
    using s1 s2 a by (force simp: bounded_times_def synthetic_query_def zero_query_def)
  then have "fill_loop iv pid None 0 (qs2, length qs2) = Some (fill_list iv pid qs2, length (fill_list iv pid qs2))"
    using assms(1,2) by (intro fill_loop_fill_list) simp_all
  then show ?thesis using False l t by (simp add: gap_fill_def)
qed

text \<open>C14. A query without a range (\<open>start = stop = -1\<close>) whose first stored sample is
  later than \<open>interval + tolerance\<close> gets a synthetic first row at \<open>interval - 1\<close>
  and, with no \<open>max\<close>, a reply whose last row is the zero row \<open>Query{}\<close>.\<close>

theorem unranged_reply_ends_with_zero_row:
  assumes sel: "db_select pid rows = q # qs" and iv: "iv = getPeerInterval cfg pid"
    and pos: "0 < iv" "iv < 2 ^ 60" and bnd: "\<forall>r \<in> set (q # qs). \<bar>qry_time r\<bar> < 2 ^ 60"
    and lead: "iv + tolerance \<le> qry_time q" and mx: "mx \<le> 0"
  shows "\<exists>zs. data_series cfg rows pid (-1) (-1) mx =
           Some (Json (synthetic_query pid (iv - 1) # zs)) \<and> zs \<noteq> [] \<and> last zs = zero_query"
proof -
  let ?y = "synthetic_query pid (iv - 1)"
  let ?rest = "butlast (q # qs) @ [zero_query]"
  have tq: "\<bar>qry_time q\<bar> < 2 ^ 60" using bnd by simp
  have "in_i64 (qry_time q + 1)" "in_i64 (qry_time q + 1 - tolerance)" "in_i64 (iv - 1)"
    using tq pos unfolding in_i64_def tolerance_def by auto
  then have c: "iv < sub64 (sub64 (qry_time (hd (q # qs))) (-1)) tolerance" and a: "add64 (-1) iv = iv - 1"
    using lead by (simp_all add: tolerance_def)
  have L: "lead_insert iv pid (-1) (q # qs, length (q # qs)) = (?y # ?rest, length (?y # ?rest))"
    using slice_copy_front [of "q # qs"] c a by (simp add: lead_insert_def)
  have z: "(?y # ?rest) ! (length (?y # ?rest) - 1) = zero_query"
    by (simp add: nth_append)
  have "sub64 (sub64 0 (-1)) tolerance = -499"
    by (simp add: tolerance_def in_i64_def)
  then have "\<not> iv < sub64 (sub64 0 (-1)) tolerance"
    using pos by simp
  then have T: "trail_insert iv pid (-1) (?y # ?rest, length (?y # ?rest)) = (?y # ?rest, length (?y # ?rest))"
    using z by (simp add: trail_insert_def zero_query_def)
  have b61: "\<forall>r \<in> set (q # qs). \<bar>qry_time r\<bar> < 2 ^ 61"
    using bnd by force
  have "\<forall>r \<in> set ?rest. \<bar>qry_time r\<bar> < 2 ^ 61"
  proof
    fix r assume "r \<in> set ?rest"
    then have "r \<in> set (q # qs) \<or> r = zero_query" by (auto simp del: butlast.simps dest: in_set_butlastD)
    then show "\<bar>qry_time r\<bar> < 2 ^ 61" using b61 by (auto simp: zero_query_def)
  qed
  then have "bounded_times (?y # ?rest)"
    using pos by (simp add: bounded_times_def synthetic_query_def)
  then have F: "fill_loop iv pid None 0 (?y # ?rest, length (?y # ?rest)) =
      Some (?y # fill_after iv pid ?y ?rest, length (?y # fill_after iv pid ?y ?rest))"
    using fill_loop_fill_list [of iv "?y # ?rest" pid] pos by (simp add: fill_list_def)
  have G: "gap_fill iv pid (-1) (-1) (q # qs) = Some (?y # fill_after iv pid ?y ?rest, length (?y # fill_after iv pid ?y ?rest))"
    using L T F by (simp add: gap_fill_def)
  have "data_series cfg rows pid (-1) (-1) mx = Some (Json (?y # fill_after iv pid ?y ?rest))"
    using G sel mx by (simp add: data_series_def respond_max_def Let_def iv [symmetric] del: butlast.simps)
  moreover have "fill_after iv pid ?y ?rest \<noteq> []" "last (fill_after iv pid ?y ?rest) = zero_query"
    by (simp_all add: fill_after_Nil_iff last_fill_after)
  ultimately show ?thesis by blast
qed

theorem lead_insert_drops_last_witness:
  "lead_insert 1000 7 0 ([ex_row 5 2000, ex_row 6 3000], 2) =
     ([synthetic_query 7 1000, ex_row 5 2000, zero_query], 3)"
proof -
  have "iv < sub64 (sub64 2000 0) tolerance" if "iv = (1000::int)" for iv
    using that by (simp add: tolerance_def in_i64_def)
  then show ?thesis
    using lead_insert_drops_last [of "[ex_row 5 2000, ex_row 6 3000]" 1000 0 7]
    by (simp add: in_i64_def numeral_2_eq_2 numeral_3_eq_3)
qed


theorem gap_fill_terminates_witness:
  "\<exists>r. gap_fill 1000 7 0 3000 [ex_row 5 0, ex_row 6 3000] = Some r"
  using gap_fill_terminates [of 1000 0 3000 "[ex_row 5 0, ex_row 6 3000]" 7] by simp

theorem fill_inserts_every_interval_witness:
  "map_option fst (fill_loop 1000 7 None 0 ([ex_row 5 0, ex_row 6 3000], 2)) =
     Some [ex_row 5 0, synthetic_query 7 1000, synthetic_query 7 2000, ex_row 6 3000]"
  using fill_inserts_every_interval [of 1000 "ex_row 5 0" "ex_row 6 3000" 7]
  by (simp add: tolerance_def upt_rec)

theorem downsample_exact_witness:
  "respond_max 10 1000 7 0
     (map (\<lambda>i. ex_row 1 (1000 * int i)) [0..<100], length (map (\<lambda>i. ex_row 1 (1000 * int i)) [0..<100])) =
   Json (map (\<lambda>k. map (\<lambda>i. ex_row 1 (1000 * int i)) [0..<100] ! (k * 10)) [0..<10])"
  using downsample_exact [of 10 "map (\<lambda>i. ex_row 1 (1000 * int i)) [0..<100]" 1000 7 0]
  by (simp add: lastn_def)

theorem unranged_reply_ends_with_zero_row_witness:
  "\<exists>zs. data_series ex_cfg [\<lparr>qry_peer_id = 7, qry_response_time = 5, qry_time = 5000\<rparr>,
       \<lparr>qry_peer_id = 7, qry_response_time = 6, qry_time = 6000\<rparr>] 7 (-1) (-1) 0 =
     Some (Json (synthetic_query 7 999 # zs)) \<and> zs \<noteq> [] \<and> last zs = zero_query"
proof -
  have sel: "db_select 7 [\<lparr>qry_peer_id = 7, qry_response_time = 5, qry_time = 5000\<rparr>,
       \<lparr>qry_peer_id = 7, qry_response_time = 6, qry_time = 6000\<rparr>] = [ex_row 5 5000, ex_row 6 6000]"
    by code_simp
  have iv: "getPeerInterval ex_cfg 7 = 1000" by (simp add: getPeerInterval_def)
  show ?thesis
    using unranged_reply_ends_with_zero_row [OF sel iv [symmetric]] by (simp add: tolerance_def)
qed

end
