(* ===== verification/Transport.thy ===== *)
theory Transport
  imports QueryChannel
begin

unbundle bit_operations_syntax

text \<open>
  The ICMP transport. The wire format is that of the library \<open>golang.org/x/net/icmp\<close>,
  which is not part of the repository: \<open>Message.Marshal\<close> with no pseudo-header
  (\<open>icmp_marshal\<close>: type, code, checksum, body; the Internet checksum \<open>checksum\<close>
  over 32-bit accumulator words for IPv4, none for IPv6), \<open>Echo.Marshal\<close>
  (\<open>echo_marshal\<close>: big-endian 16-bit identifier and sequence, then the data) and
  \<open>ParseMessage\<close> (\<open>icmp_parse\<close>: the protocol number decides whether the type
  byte is read as an \<open>ipv4.ICMPType\<close> or an \<open>ipv6.ICMPType\<close>; echo types get an
  echo body, other types a raw body, which is all the receive loop can tell apart).
  The receive loop is \<open>readListener\<close> of \<open>src/icmpmon.go\<close>: each datagram read into
  the 1500-byte buffer is parsed with protocol \<open>ProtocolICMP\<close> (1) and, when its type
  is the echo reply of the listener's family, becomes a \<open>Response\<close> written into the
  \<open>messages\<close> channel; read and parse errors are skipped, the quit notification ends
  the loop, and an IP version other than 4 or 6 panics.
\<close>

datatype icmp_type = V4Type "8 word" | V6Type "8 word"

record echo =
  echo_id :: int
  echo_seq :: int
  echo_data :: "8 word list"

datatype icmp_body = EchoBody echo | OtherBody "8 word list"

record icmp_message =
  msg_type :: icmp_type
  msg_code :: int
  msg_checksum :: int
  msg_body :: icmp_body

definition put_u16 :: "16 word \<Rightarrow> 8 word list" where
  "put_u16 v = [ucast (drop_bit 8 v), ucast v]"

definition get_u16 :: "8 word \<Rightarrow> 8 word \<Rightarrow> 16 word" where
  "get_u16 a b = ucast b OR push_bit 8 (ucast a)"

fun csum_sum :: "8 word list \<Rightarrow> 32 word \<Rightarrow> 32 word" where
  "csum_sum (a # b # rest) s = csum_sum rest (s + (push_bit 8 (ucast b) OR ucast a))"
| "csum_sum [a] s = s + ucast a"
| "csum_sum [] s = s"

definition checksum :: "8 word list \<Rightarrow> 16 word" where
  "checksum b =
     (let s = csum_sum b 0;
          s = drop_bit 16 s + (s AND 0xffff);
          s = s + drop_bit 16 s
      in NOT (ucast s))"

definition type_byte :: "icmp_type \<Rightarrow> 8 word" where
  "type_byte t = (case t of V4Type b \<Rightarrow> b | V6Type b \<Rightarrow> b)"

definition echo_marshal :: "echo \<Rightarrow> 8 word list" where
  "echo_marshal p = put_u16 (word_of_int (echo_id p)) @ put_u16 (word_of_int (echo_seq p)) @ echo_data p"

definition icmp_marshal :: "icmp_message \<Rightarrow> 8 word list" where
  "icmp_marshal m =
     (let b = [type_byte (msg_type m), word_of_int (msg_code m), 0, 0] @
              (case msg_body m of EchoBody e \<Rightarrow> echo_marshal e | OtherBody d \<Rightarrow> d)
      in case msg_type m of
           V6Type _ \<Rightarrow> b
         | V4Type _ \<Rightarrow>
             (let s = checksum b in b[2 := b ! 2 XOR ucast s, 3 := b ! 3 XOR ucast (drop_bit 8 s)]))"

definition parse_echo :: "8 word list \<Rightarrow> echo option" where
  "parse_echo b =
     (if length b < 4 then None
      else Some \<lparr>echo_id = uint (get_u16 (b ! 0) (b ! 1)), echo_seq = uint (get_u16 (b ! 2) (b ! 3)),
                 echo_data = drop 4 b\<rparr>)"

definition echo_type :: "icmp_type \<Rightarrow> bool" where
  "echo_type t \<longleftrightarrow> t \<in> {V4Type 8, V4Type 0, V6Type 128, V6Type 129}"

definition icmp_parse :: "int \<Rightarrow> 8 word list \<Rightarrow> icmp_message option" where
  "icmp_parse proto b =
     (if length b < 4 then None
      else if proto \<noteq> 1 \<and> proto \<noteq> 58 then None
      else
        (let t = (if proto = 1 then V4Type (b ! 0) else V6Type (b ! 0));
             m = \<lparr>msg_type = t, msg_code = uint (b ! 1), msg_checksum = uint (get_u16 (b ! 2) (b ! 3)),
                  msg_body = OtherBody (drop 4 b)\<rparr>
         in if echo_type t then map_option (\<lambda>e. m\<lparr>msg_body := EchoBody e\<rparr>) (parse_echo (drop 4 b))
            else Some m))"

definition proto_of :: "icmp_type \<Rightarrow> int" where
  "proto_of t = (case t of V4Type _ \<Rightarrow> 1 | V6Type _ \<Rightarrow> 58)"

subsection \<open>Reference arithmetic of the checksum\<close>

text \<open>
  \<open>csum_nat\<close> is the sum the checksum loop accumulates, over the naturals (bytes paired
  low byte first, as the loop pairs them), and \<open>ones_fold\<close> the end-around-carry fold
  of a 32-bit sum into 16 bits. They state what the word computation means.
\<close>


fun csum_nat :: "8 word list \<Rightarrow> nat" where
  "csum_nat (a # b # rest) = unat b * 256 + unat a + csum_nat rest"
| "csum_nat [a] = unat a"
| "csum_nat [] = 0"

definition ones_fold :: "nat \<Rightarrow> nat" where
  "ones_fold x = (let f = x div 65536 + x mod 65536 in (f + f div 65536) mod 65536)"


subsection \<open>The receive loop: \<open>readListener\<close>\<close>

definition ProtocolICMP :: int where
  "ProtocolICMP = 1"

definition ICMPPacketLength :: nat where
  "ICMPPacketLength = 1500"

definition expected_type :: "int \<Rightarrow> icmp_type option" where
  "expected_type v = (if v = 4 then Some (V4Type 0) else if v = 6 then Some (V6Type 129) else None)"

definition remote_ip :: "ip \<Rightarrow> string \<Rightarrow> ip" where
  "remote_ip a zone =
     (if zone \<noteq> [] then []
      else if length a = 4 then replicate 10 0 @ [0xff, 0xff] @ a
      else if length a = 16 then a
      else [])"

definition listener_recv :: "icmp_type \<Rightarrow> 8 word list \<Rightarrow> ip \<Rightarrow> string \<Rightarrow> nanos \<Rightarrow> response option" where
  "listener_recv expected bytes a zone t =
     (case icmp_parse ProtocolICMP bytes of
        None \<Rightarrow> None
      | Some m \<Rightarrow>
          (if msg_type m = expected then
             (case msg_body m of
                EchoBody e \<Rightarrow> Some \<lparr>resp_id = echo_seq e, resp_ip = remote_ip a zone, resp_time = unix_millis t\<rparr>
              | OtherBody _ \<Rightarrow> None)
           else None))"

datatype listener_event = LRead "8 word list" ip string nanos | LReadError | LQuit

fun listener_loop ::
  "icmp_type \<Rightarrow> listener_event list \<Rightarrow> message ring_channel \<Rightarrow> bool \<times> message ring_channel"
where
  "listener_loop ty [] ms = (False, ms)"
| "listener_loop ty (LQuit # evs) ms = (True, ms)"
| "listener_loop ty (LReadError # evs) ms = listener_loop ty evs ms"
| "listener_loop ty (LRead d a zone t # evs) ms =
     listener_loop ty evs
       (case listener_recv ty (take ICMPPacketLength d) a zone t of
          None \<Rightarrow> ms
        | Some r \<Rightarrow> RingChannel_In (MsgResponse r) ms)"

datatype listener_error = UnknownIpVersion int

definition readListener ::
  "int \<Rightarrow> listener_event list \<Rightarrow> message ring_channel \<Rightarrow> listener_error + bool \<times> message ring_channel"
where
  "readListener v evs ms =
     (case expected_type v of
        None \<Rightarrow> Inl (UnknownIpVersion v)
      | Some ty \<Rightarrow> Inr (listener_loop ty evs ms))"

subsection \<open>Wire format lemmas\<close>

lemma get_put_u16: "get_u16 (ucast (drop_bit 8 v)) (ucast v) = v"
  unfolding get_u16_def
  by (rule bit_word_eqI) (auto simp: bit_simps)

lemma length_put_u16 [simp]: "length (put_u16 v) = 2"
  by (simp add: put_u16_def)

lemma uint_word_of_int_16: "0 \<le> i \<Longrightarrow> i < 65536 \<Longrightarrow> uint (word_of_int i :: 16 word) = i"
  by (simp add: uint_word_of_int_eq take_bit_int_eq_self)

lemma icmp_marshal_prefix:
  "take 2 (icmp_marshal m) = [type_byte (msg_type m), word_of_int (msg_code m)]"
  "drop 4 (icmp_marshal m) = (case msg_body m of EchoBody e \<Rightarrow> echo_marshal e | OtherBody d \<Rightarrow> d)"
  "4 \<le> length (icmp_marshal m)"
  by (auto simp: icmp_marshal_def Let_def split: icmp_type.split)

lemma unat_byte_lt: "unat (a :: 8 word) < 256"
  using unsigned_less [of a] by simp

lemma unat_word32_lt: "unat (s :: 32 word) < 4294967296"
  using unsigned_less [of s] by simp

lemma unat_word32_mod [simp]: "unat (s :: 32 word) mod 4294967296 = unat s"
  using unat_word32_lt [of s] by simp

lemma take_bit_32_byte [simp]: "take_bit 32 (unat (a :: 8 word)) = unat a"
proof -
  have "unat a < 4294967296" using unat_byte_lt [of a] by linarith
  then show ?thesis by (simp add: take_bit_nat_eq_self_iff)
qed

lemma unat_pair: "unat (push_bit 8 (ucast (b :: 8 word)) OR ucast (a :: 8 word) :: 32 word) = unat b * 256 + unat a"
proof -
  have "push_bit 8 (ucast b) OR ucast a = (push_bit 8 (ucast b) + ucast a :: 32 word)"
    apply (rule disjunctive_add [symmetric])
    apply (simp add: bit_simps)
    using bit_imp_le_length [of a] by fastforce
  moreover have "unat b < 256" "unat a < 256"
    using unsigned_less [of b] unsigned_less [of a] by simp_all
  ultimately show ?thesis
    by (simp add: unat_word_ariths unsigned_push_bit_eq unsigned_ucast_eq take_bit_nat_eq_self push_bit_nat_def)
qed

lemma unat_csum_sum: "unat (csum_sum b s) = (unat s + csum_nat b) mod 2 ^ 32"
  by (induction b s rule: csum_sum.induct)
     (simp_all add: unat_word_ariths unat_pair unsigned_ucast_eq mod_add_left_eq add.assoc)

lemma csum_nat_bound: "csum_nat b \<le> 65535 * length b"
  proof (induction b rule: csum_nat.induct)
  case (1 a b rest)
  have "unat b * 256 + unat a \<le> 255 * 256 + 255"
    using unat_byte_lt [of a] unat_byte_lt [of b] by linarith
  with 1 show ?case by simp
next
  case (2 a)
  show ?case using unat_byte_lt [of a] by simp
qed simp

lemma unat_not16: "unat (NOT (w :: 16 word)) = 65535 - unat w"
proof -
  have "NOT w + w = NOT w OR w"
    by (rule disjunctive_add) (simp add: bit_simps)
  also have "\<dots> = -1" by simp
  finally have e: "NOT w + w = -1" .
  have m1: "unat (-1 :: 16 word) = 65535"
    by (simp add: unsigned_minus_1_eq_mask mask_eq_exp_minus_1)
  have "(unat (NOT w) + unat w) mod 65536 = 65535"
    using arg_cong [OF e, of unat] m1 by (simp add: unat_word_ariths)
  moreover have "unat (NOT w) < 65536" "unat w < 65536"
    using unsigned_less [of "NOT w"] unsigned_less [of w] by simp_all
  ultimately show ?thesis
    by (cases "unat (NOT w) + unat w < 65536") (simp_all add: le_mod_geq)
qed

lemma unat_fold_steps:
  fixes x :: "32 word"
  shows "unat (ucast (drop_bit 16 x + (x AND 0xffff) + drop_bit 16 (drop_bit 16 x + (x AND 0xffff))) :: 16 word) =
         ones_fold (unat x)"
proof -
  let ?f = "unat x div 65536 + unat x mod 65536"
  have m: "(0xffff :: 32 word) = mask 16" by (simp add: mask_eq_exp_minus_1)
  have q: "unat (drop_bit 16 x) = unat x div 65536"
    by (simp add: unat_drop_bit_eq drop_bit_nat_def)
  have r: "unat (x AND 0xffff) = unat x mod 65536"
    by (simp add: m flip: take_bit_eq_mask) (simp add: unsigned_take_bit_eq take_bit_nat_def)
  have xb: "unat x < 4294967296" by (rule unat_word32_lt)
  then have fb: "?f < 131072" by linarith
  have s1: "unat (drop_bit 16 x + (x AND 0xffff)) = ?f"
    using fb by (simp add: unat_word_ariths q r)
  have s2: "unat (drop_bit 16 x + (x AND 0xffff) + drop_bit 16 (drop_bit 16 x + (x AND 0xffff))) =
            ?f + ?f div 65536"
    using fb by (simp add: unat_word_ariths q r unat_drop_bit_eq drop_bit_nat_def)
  show ?thesis
    by (simp add: unsigned_ucast_eq s2 take_bit_nat_def ones_fold_def Let_def)
qed

lemma unat_checksum: "unat (checksum b) = 65535 - ones_fold (unat (csum_sum b 0))"
  by (simp add: checksum_def Let_def unat_not16 unat_fold_steps)

lemma ones_fold_props:
  assumes "x < 4294967296"
  shows "ones_fold x mod 65535 = x mod 65535" and "ones_fold x \<le> 65535"
    and "ones_fold x = 0 \<longleftrightarrow> x = 0" and "ones_fold x \<le> x"
proof -
  define q r where "q = x div 65536" and "r = x mod 65536"
  have x: "x = 65536 * q + r" and r: "r < 65536" and q: "q < 65536"
    using assms by (simp_all add: q_def r_def)
  have cong: "(q + r) mod 65535 = x mod 65535"
  proof -
    have "x = (q + r) + q * 65535" using x by simp
    then show ?thesis by (metis mod_mult_self1)
  qed
  have f: "ones_fold x = (if q + r < 65536 then q + r else q + r - 65535)"
  proof (cases "q + r < 65536")
    case True
    then show ?thesis by (simp add: ones_fold_def Let_def flip: q_def r_def)
  next
    case False
    then have "(q + r) div 65536 = 1" using q r by linarith
    moreover have "(q + r + 1) mod 65536 = q + r - 65535"
      using False q r by (simp add: le_mod_geq)
    ultimately show ?thesis using False by (simp add: ones_fold_def Let_def flip: q_def r_def)
  qed
  show "ones_fold x mod 65535 = x mod 65535"
  proof (cases "q + r < 65536")
    case False
    then have "q + r - 65535 + 1 * 65535 = q + r" by simp
    then have "(q + r - 65535) mod 65535 = (q + r) mod 65535" by (metis mod_mult_self1)
    with False f cong show ?thesis by simp
  qed (use f cong in simp)
  show "ones_fold x \<le> 65535" using f q r by (simp, arith)
  show "ones_fold x = 0 \<longleftrightarrow> x = 0" using f x by auto
  show "ones_fold x \<le> x" using f x by (simp, arith)
qed

lemma ones_fold_complement:
  assumes "x + 65535 < 4294967296"
  shows "ones_fold (x + (65535 - ones_fold x)) = 65535"
proof -
  let ?c = "65535 - ones_fold x" and ?y = "x + (65535 - ones_fold x)"
  have b: "x < 4294967296" using assms by simp
  have le: "ones_fold x \<le> x" "ones_fold x \<le> 65535" using ones_fold_props [OF b] by simp_all
  have y: "?y < 4294967296" using assms by simp
  have "?y = (x - ones_fold x) + 1 * 65535" using le by simp
  then have "?y mod 65535 = (x - ones_fold x) mod 65535" by (metis mod_mult_self1)
  also have "\<dots> = 0"
  proof -
    have "65535 dvd x - ones_fold x"
      using mod_eq_dvd_iff_nat [OF le(1), of 65535] ones_fold_props(1) [OF b] by simp
    then show ?thesis by simp
  qed
  finally have m: "ones_fold ?y mod 65535 = 0"
    using ones_fold_props(1) [OF y] by simp
  have "?y \<noteq> 0" using le ones_fold_props(3) [OF b] by auto
  then have nz: "ones_fold ?y \<noteq> 0" using ones_fold_props(3) [OF y] by simp
  have "ones_fold ?y \<le> 65535" by (rule ones_fold_props(2) [OF y])
  with m nz show ?thesis by auto
qed

lemma unat_split16:
  "unat (ucast (drop_bit 8 s) :: 8 word) * 256 + unat (ucast s :: 8 word) = unat (s :: 16 word)"
proof -
  have "unat s < 65536" using unsigned_less [of s] by simp
  then have "unat s div 256 < 256" by simp
  then show ?thesis
    by (simp add: unsigned_ucast_eq unat_drop_bit_eq drop_bit_nat_def take_bit_nat_eq_self take_bit_nat_def)
qed

lemma csum_nat_bytes: "unat (csum_sum b 0) = csum_nat b" if "length b \<le> 65535"
proof -
  have "csum_nat b \<le> 65535 * 65535"
    using csum_nat_bound [of b] that by (meson le_trans mult_le_mono2)
  then show ?thesis by (simp add: unat_csum_sum)
qed

lemma marshal_checksum_zero:
  assumes v4: "msg_type m = V4Type t" and len: "length (icmp_marshal m) \<le> 65535"
  shows "checksum (icmp_marshal m) = 0"
proof -
  define body where "body = (case msg_body m of EchoBody e \<Rightarrow> echo_marshal e | OtherBody d \<Rightarrow> d)"
  define b where "b = [type_byte (msg_type m), word_of_int (msg_code m), 0, 0] @ body"
  define s where "s = checksum b"
  have w: "icmp_marshal m = [type_byte (msg_type m), word_of_int (msg_code m), ucast s, ucast (drop_bit 8 s)] @ body"
    using v4 by (simp add: icmp_marshal_def Let_def b_def s_def body_def)
  have lb: "length b \<le> 65535" using len w by (simp add: b_def)
  define x where "x = csum_nat b"
  have xb: "x \<le> 65535 * 65535"
    using csum_nat_bound [of b] lb unfolding x_def by (meson le_trans mult_le_mono2)
  have us: "unat s = 65535 - ones_fold x"
    using lb by (simp add: s_def unat_checksum csum_nat_bytes x_def)
  have "csum_nat (icmp_marshal m) = x + unat s"
    using unat_split16 [of s] by (simp add: w x_def b_def)
  then have "unat (checksum (icmp_marshal m)) = 65535 - ones_fold (x + (65535 - ones_fold x))"
    using len by (simp add: unat_checksum csum_nat_bytes us)
  also have "\<dots> = 0"
    using ones_fold_complement [of x] xb by simp
  finally show ?thesis by (simp only: unat_eq_0)
qed

lemma parse_echo_marshal:
  assumes "0 \<le> echo_id e" "echo_id e < 65536" "0 \<le> echo_seq e" "echo_seq e < 65536"
  shows "parse_echo (echo_marshal e) = Some e"
proof -
  let ?a = "word_of_int (echo_id e) :: 16 word" and ?b = "word_of_int (echo_seq e) :: 16 word"
  have n: "echo_marshal e ! 0 = ucast (drop_bit 8 ?a)" "echo_marshal e ! Suc 0 = ucast ?a"
      "echo_marshal e ! 2 = ucast (drop_bit 8 ?b)" "echo_marshal e ! 3 = ucast ?b"
    by (simp_all add: echo_marshal_def put_u16_def nth_append)
  have d: "drop 4 (echo_marshal e) = echo_data e"
    by (simp add: echo_marshal_def)
  have l: "\<not> length (echo_marshal e) < 4"
    by (simp add: echo_marshal_def)
  show ?thesis
    using assms l by (simp add: parse_echo_def n d get_put_u16 uint_word_of_int_16)
qed

lemma uint_byte: "0 \<le> c \<Longrightarrow> c < 256 \<Longrightarrow> uint (word_of_int c :: 8 word) = c"
  by (simp add: uint_word_of_int_eq take_bit_int_eq_self)

lemma icmp_roundtrip:
  assumes t: "echo_type (msg_type m)" and b: "msg_body m = EchoBody e"
    and e: "0 \<le> echo_id e" "echo_id e < 65536" "0 \<le> echo_seq e" "echo_seq e < 65536"
    and c: "0 \<le> msg_code m" "msg_code m < 256"
  shows "map_option (\<lambda>m'. (msg_type m', msg_code m', msg_body m'))
           (icmp_parse (proto_of (msg_type m)) (icmp_marshal m)) = Some (msg_type m, msg_code m, msg_body m)"
proof -
  let ?w = "icmp_marshal m"
  have tk: "take 2 ?w = [type_byte (msg_type m), word_of_int (msg_code m)]" and len: "4 \<le> length ?w"
    by (rule icmp_marshal_prefix)+
  then have w01: "?w ! 0 = type_byte (msg_type m)" "?w ! 1 = word_of_int (msg_code m)"
    by (metis nth_take nth_Cons_0 zero_less_numeral, metis nth_take One_nat_def less_2_cases_iff nth_Cons_0 nth_Cons_Suc one_less_numeral_iff semiring_norm(76))
  have dr: "drop 4 ?w = echo_marshal e"
    using icmp_marshal_prefix(2) [of m] b by simp
  have ty: "(if proto_of (msg_type m) = 1 then V4Type (?w ! 0) else V6Type (?w ! 0)) = msg_type m"
    using w01 by (cases "msg_type m") (simp_all add: proto_of_def type_byte_def)
  show ?thesis
    using len ty t dr parse_echo_marshal [OF e] w01 b c
    by (auto simp: icmp_parse_def Let_def uint_byte proto_of_def split: icmp_type.split)
qed

subsection \<open>The receive loop\<close>

lemma icmp_parse_proto1_type:
  "icmp_parse ProtocolICMP b = Some m \<Longrightarrow> msg_type m = V4Type (b ! 0)"
  by (auto simp: icmp_parse_def ProtocolICMP_def Let_def split: if_splits)

lemma listener_recv_v6: "listener_recv (V6Type x) b a zone t = None"
  by (auto simp: listener_recv_def dest: icmp_parse_proto1_type split: option.split)

text \<open>C16. The IPv6 receive loop never delivers a reply: it parses every datagram with
  \<open>ProtocolICMP\<close> (the IPv4 protocol number), so the type is an IPv4 type and never
  equals \<open>ipv6.ICMPTypeEchoReply\<close>; the \<open>messages\<close> channel is left unchanged.\<close>

theorem readListener_v6_silent: "\<exists>q. readListener 6 evs ms = Inr (q, ms)"
proof -
  have "snd (listener_loop (V6Type 129) evs ms) = ms"
    by (induction "V6Type 129" evs ms rule: listener_loop.induct) (simp_all add: listener_recv_v6)
  then show ?thesis
    by (simp add: readListener_def expected_type_def) (metis prod.collapse)
qed

text \<open>C15. The IPv4 receive loop turns every well-formed echo reply into a \<open>Response\<close>
  with the reply's sequence number, whatever its identifier (and code): the identifier
  that the spec uses to tell this process's echoes from other ICMP traffic is never
  checked.\<close>

theorem listener_ignores_identifier:
  assumes "0 \<le> i" "i < 65536" "0 \<le> q" "q < 65536" "0 \<le> c" "c < 256"
  shows "listener_recv (V4Type 0)
           (icmp_marshal \<lparr>msg_type = V4Type 0, msg_code = c, msg_checksum = cs,
                          msg_body = EchoBody \<lparr>echo_id = i, echo_seq = q, echo_data = d\<rparr>\<rparr>) a zone t =
         Some \<lparr>resp_id = q, resp_ip = remote_ip a zone, resp_time = unix_millis t\<rparr>"
proof -
  let ?m = "\<lparr>msg_type = V4Type 0, msg_code = c, msg_checksum = cs,
             msg_body = EchoBody \<lparr>echo_id = i, echo_seq = q, echo_data = d\<rparr>\<rparr>"
  have "map_option (\<lambda>m'. (msg_type m', msg_code m', msg_body m'))
          (icmp_parse (proto_of (msg_type ?m)) (icmp_marshal ?m)) = Some (msg_type ?m, msg_code ?m, msg_body ?m)"
    using assms icmp_roundtrip [of ?m "\<lparr>echo_id = i, echo_seq = q, echo_data = d\<rparr>"]
    by (simp add: echo_type_def)
  then obtain m' where "icmp_parse ProtocolICMP (icmp_marshal ?m) = Some m'"
    "msg_type m' = V4Type 0" "msg_body m' = EchoBody \<lparr>echo_id = i, echo_seq = q, echo_data = d\<rparr>"
    by (auto simp: proto_of_def ProtocolICMP_def)
  then show ?thesis by (simp add: listener_recv_def)
qed

subsection \<open>Examples\<close>

theorem listener_ignores_identifier_witness:
  "listener_recv (V4Type 0)
     (icmp_marshal \<lparr>msg_type = V4Type 0, msg_code = 0, msg_checksum = 0,
                    msg_body = EchoBody \<lparr>echo_id = 4321, echo_seq = 17, echo_data = []\<rparr>\<rparr>) [10, 0, 0, 1] [] 5000000 =
   Some \<lparr>resp_id = 17, resp_ip = replicate 10 0 @ [0xff, 0xff] @ [10, 0, 0, 1], resp_time = 5\<rparr>"
  using listener_ignores_identifier [of 4321 17 0 0 "[]" "[10, 0, 0, 1]" "[]" 5000000]
  by (simp add: remote_ip_def unix_millis_def go_quot_def)

end
