(* ===== verification/Scheduler.thy ===== *)
theory Scheduler
  imports Transport
begin

unbundle bit_operations_syntax

text \<open>
  The send side: \<open>ping\<close> and \<open>pingRoutine\<close> of \<open>src/icmpmon.go\<close>. The global
  \<open>seqcount\<close> (guarded by \<open>lock\<close>), the \<open>messages\<close> channel into the collector (a
  \<open>RingChannel(1024)\<close>) and the datagrams written to the two raw sockets form the
  state \<open>sched_state\<close>; the process id, the clock reading and the outcome of
  \<open>WriteTo\<close> are the inputs of one \<open>ping\<close>. Since every access to \<open>seqcount\<close> is
  under the mutex, the per-peer routines interleave as a sequence of whole \<open>ping\<close>
  calls (\<open>ping_all\<close>).
\<close>

datatype family = Fam4 | Fam6

record sched_state =
  seqcount :: int
  messages :: "message ring_channel"
  wire :: "(family \<times> ip \<times> 8 word list) list"

datatype ping_error = WriteError

definition is_ip4 :: "ip \<Rightarrow> bool" where
  "is_ip4 a \<longleftrightarrow> length a = 4 \<or> (length a = 16 \<and> take 12 a = replicate 10 0 @ [0xff, 0xff])"

definition next_seq :: "int \<Rightarrow> int" where
  "next_seq c = (if c \<ge> 65535 then 0 else c) + 1"

definition echo_request :: "bool \<Rightarrow> int \<Rightarrow> int \<Rightarrow> icmp_message" where
  "echo_request v4 pid seq =
     \<lparr>msg_type = (if v4 then V4Type 8 else V6Type 128), msg_code = 0, msg_checksum = 0,
      msg_body = EchoBody \<lparr>echo_id = pid AND 0xffff, echo_seq = seq, echo_data = []\<rparr>\<rparr>"

definition ping :: "int \<Rightarrow> nanos \<Rightarrow> bool \<Rightarrow> peer \<Rightarrow> sched_state \<Rightarrow> ping_error option \<times> sched_state" where
  "ping pid t sent p s =
     (let v4 = is_ip4 (peer_ip p);
          seq = next_seq (seqcount s);
          bytes = icmp_marshal (echo_request v4 pid seq);
          rq = \<lparr>req_id = seq, req_ip = [], req_time = unix_millis t, req_peer = p\<rparr>;
          s' = s\<lparr>seqcount := seq, messages := RingChannel_In (MsgRequest rq) (messages s)\<rparr>
      in if sent then (None, s'\<lparr>wire := wire s @ [(if v4 then Fam4 else Fam6, peer_ip p, bytes)]\<rparr>)
         else (Some WriteError, s'))"

datatype routine_exit = RoutinePanic ping_error | RoutineQuit | RoutineRunning

fun pingRoutine ::
  "int \<Rightarrow> peer \<Rightarrow> (nanos \<times> bool \<times> bool) list \<Rightarrow> sched_state \<Rightarrow> routine_exit \<times> sched_state"
where
  "pingRoutine pid p [] s = (RoutineRunning, s)"
| "pingRoutine pid p ((t, sent, quit) # rs) s =
     (case ping pid t sent p s of
        (Some e, s') \<Rightarrow> (RoutinePanic e, s')
      | (None, s') \<Rightarrow> (if quit then (RoutineQuit, s') else pingRoutine pid p rs s'))"

fun ping_all :: "int \<Rightarrow> (peer \<times> nanos \<times> bool) list \<Rightarrow> sched_state \<Rightarrow> sched_state" where
  "ping_all pid [] s = s"
| "ping_all pid ((p, t, sent) # rs) s = ping_all pid rs (snd (ping pid t sent p s))"

definition seq_ok :: "sched_state \<Rightarrow> bool" where
  "seq_ok s \<longleftrightarrow> 0 \<le> seqcount s \<and> seqcount s \<le> 65535"

definition sched_start :: sched_state where
  "sched_start = \<lparr>seqcount = 0, messages = NewRingChannel 1024, wire = []\<rparr>"


text \<open>An IPv4 peer for the examples.\<close>

abbreviation sched_peer :: peer where
  "sched_peer \<equiv> \<lparr>peer_name = ''gw'', peer_address = ''10.0.0.1'', peer_interval = 1000,
     peer_timeout = 1000, peer_id = 7, peer_ip = [10, 0, 0, 1]\<rparr>"

subsection \<open>Sequence numbers\<close>

lemma next_seq_mod: "0 \<le> c \<Longrightarrow> c \<le> 65535 \<Longrightarrow> next_seq c = c mod 65535 + 1"
  by (cases "c = 65535") (simp_all add: next_seq_def)

lemma next_seq_range: "0 \<le> c \<Longrightarrow> c \<le> 65535 \<Longrightarrow> 1 \<le> next_seq c \<and> next_seq c \<le> 65535"
  by (simp add: next_seq_def)

lemma ping_fields [simp]:
  "seqcount (snd (ping pid t sent p s)) = next_seq (seqcount s)"
  "messages (snd (ping pid t sent p s)) =
     RingChannel_In (MsgRequest \<lparr>req_id = next_seq (seqcount s), req_ip = [], req_time = unix_millis t, req_peer = p\<rparr>)
       (messages s)"
  by (simp_all add: ping_def Let_def)

lemma next_seq_iter:
  assumes "0 \<le> c" "c \<le> 65535"
  shows "(next_seq ^^ Suc k) c = (c + int k) mod 65535 + 1"
proof (induction k)
  case 0
  then show ?case using assms by (simp add: next_seq_mod)
next
  case (Suc k)
  have "0 \<le> (c + int k) mod 65535 + 1" "(c + int k) mod 65535 + 1 \<le> 65535" by simp_all
  then have "(next_seq ^^ Suc (Suc k)) c = ((c + int k) mod 65535 + 1) mod 65535 + 1"
    using Suc by (simp add: next_seq_mod)
  also have "\<dots> = (c + int (Suc k)) mod 65535 + 1"
    by (simp add: mod_add_right_eq algebra_simps)
  finally show ?case .
qed


lemma seqcount_ping_all: "seqcount (ping_all pid rs s) = (next_seq ^^ length rs) (seqcount s)"
  by (induction pid rs s rule: ping_all.induct) (simp_all add: funpow_swap1)

text \<open>C19. Sequence allocation: after \<open>n > 0\<close> pings from the start of the process, by any
  interleaving of the per-peer routines, \<open>seqcount\<close> (the sequence number of the last probe)
  is \<open>(n - 1) mod 65535 + 1\<close>: the values run \<open>1, 2, \<dots>, 65535\<close> and wrap to 1, and 0
  is never issued.\<close>

theorem seq_allocation_from_start:
  "seqcount (ping_all pid rs sched_start) = (if rs = [] then 0 else (int (length rs) - 1) mod 65535 + 1)"
proof (cases rs)
  case Nil
  then show ?thesis by (simp add: sched_start_def)
next
  case (Cons r rs')
  then show ?thesis
    using next_seq_iter [of 0 "length rs'"] by (simp add: seqcount_ping_all sched_start_def)
qed

lemma mod_inj_window:
  fixes c :: int
  assumes "i < 65535" "j < 65535" "(c + int i) mod 65535 = (c + int j) mod 65535"
  shows "i = j"
proof -
  have "65535 dvd (c + int i) - (c + int j)"
    using assms(3) by (simp add: mod_eq_dvd_iff)
  then have "65535 dvd int i - int j" by simp
  then obtain k where k: "int i - int j = 65535 * k" by (auto elim: dvdE)
  have "\<bar>int i - int j\<bar> < 65535" using assms(1,2) by linarith
  with k have "k = 0" by (cases "k = 0") (auto simp: abs_mult)
  with k show ?thesis by simp
qed

text \<open>C20. From any valid counter value, 65535 consecutive allocations are pairwise
  distinct and lie in \<open>[1, 65535]\<close>, and the 65536th repeats the first: the
  allocator is a cycle of length exactly 65535.\<close>

theorem seq_distinct_cycle:
  assumes "0 \<le> c" "c \<le> 65535"
  shows "distinct (map (\<lambda>k. (next_seq ^^ Suc k) c) [0..<65535]) \<and>
         (\<forall>k. 1 \<le> (next_seq ^^ Suc k) c \<and> (next_seq ^^ Suc k) c \<le> 65535) \<and>
         (next_seq ^^ Suc 65535) c = next_seq c"
proof (intro conjI allI)
  show "distinct (map (\<lambda>k. (next_seq ^^ Suc k) c) [0..<65535])"
    unfolding distinct_map
  proof
    show "inj_on (\<lambda>k. (next_seq ^^ Suc k) c) (set [0..<65535])"
    proof (rule inj_onI)
      fix x y
      assume x: "x \<in> set [0..<65535]" and y: "y \<in> set [0..<65535]"
        and e: "(next_seq ^^ Suc x) c = (next_seq ^^ Suc y) c"
      from e have "(c + int x) mod 65535 = (c + int y) mod 65535"
        by (simp only: next_seq_iter [OF assms])
      then show "x = y" using x y mod_inj_window by simp
    qed
  qed simp
next
  fix k
  show "1 \<le> (next_seq ^^ Suc k) c" "(next_seq ^^ Suc k) c \<le> 65535"
    unfolding next_seq_iter [OF assms] by simp_all
next
  show "(next_seq ^^ Suc 65535) c = next_seq c"
    using assms next_seq_iter [OF assms, of 65535] next_seq_iter [OF assms, of 0] by simp
qed


lemma ping_result: "fst (ping pid t sent p s) = (if sent then None else Some WriteError)"
  by (simp add: ping_def Let_def)

lemma ping_split: "ping pid t sent p s = (fst (ping pid t sent p s), snd (ping pid t sent p s))"
  by simp

text \<open>C18. \<open>pingRoutine\<close> stops at the first round whose send fails, by \<open>log.Panic\<close>, or at
  the first quit notification, whichever comes first; the spec asks that a send error be
  logged and the routine continue.\<close>

theorem pingRoutine_exit:
  "fst (pingRoutine pid p rs s) =
     (case find (\<lambda>(t, sent, quit). \<not> sent \<or> quit) rs of
        None \<Rightarrow> RoutineRunning
      | Some (t, sent, quit) \<Rightarrow> if sent then RoutineQuit else RoutinePanic WriteError)"
proof (induction pid p rs s rule: pingRoutine.induct)
  case (1 pid p s)
  then show ?case by simp
next
  case (2 pid p t sent quit rs s)
  show ?case
  proof (cases sent)
    case True
    then obtain s' where p: "ping pid t sent p s = (None, s')"
      using ping_result by (metis prod.collapse)
    show ?thesis
    proof (cases quit)
      case False
      with True p "2.IH" [OF p [symmetric] refl] show ?thesis by simp
    qed (use True p in simp)
  next
    case False
    then obtain s' where "ping pid t sent p s = (Some WriteError, s')"
      using ping_result by (metis prod.collapse)
    with False show ?thesis by simp
  qed
qed

lemma pid_id_range: "0 \<le> pid AND 0xffff \<and> pid AND 0xffff < (65536 :: int)"
proof -
  have "pid AND 0xffff = take_bit 16 pid"
    by (simp add: take_bit_eq_mask mask_eq_exp_minus_1)
  then show ?thesis using take_bit_int_less_exp [of 16 pid] by simp
qed


text \<open>The counter invariant \<open>0 \<le> seqcount \<le> 65535\<close> holds under every interleaving of
  pings, so every issued sequence number fits the 16-bit field of the echo message.\<close>

lemma seq_ok_ping_all: "seq_ok s \<Longrightarrow> seq_ok (ping_all pid rs s)"
proof (induction pid rs s rule: ping_all.induct)
  case (2 pid p t sent rs s)
  have "seq_ok (snd (ping pid t sent p s))"
    using "2.prems" next_seq_range [of "seqcount s"] by (simp add: seq_ok_def)
  then show ?case using "2.IH" by simp
qed simp

subsection \<open>Examples\<close>

theorem seq_distinct_cycle_witness:
  "distinct (map (\<lambda>k. (next_seq ^^ Suc k) 0) [0..<65535]) \<and>
   (\<forall>k. 1 \<le> (next_seq ^^ Suc k) 0 \<and> (next_seq ^^ Suc k) 0 \<le> 65535) \<and>
   (next_seq ^^ Suc 65535) 0 = next_seq 0"
  by (rule seq_distinct_cycle) simp_all


theorem pingRoutine_exit_witness:
  "fst (pingRoutine 4242 sched_peer [(0, True, False), (1000000000, False, False), (2000000000, True, True)] sched_start) =
   RoutinePanic WriteError"
  using pingRoutine_exit [of 4242 sched_peer "[(0, True, False), (1000000000, False, False), (2000000000, True, True)]" sched_start]
  by simp

end
