(* ===== verification/QuitChannel.thy ===== *)
theory QuitChannel
  imports Prelude
begin

text \<open>
  The shutdown broadcaster \<open>src/quitchannel.go\<close> together with its users. A
  \<open>QuitChannel\<close> is a list of Go channels of capacity 2 carrying \<open>true\<close>; a channel is
  modelled by the number of values it holds. \<open>Add\<close> appends an empty channel and returns
  it (its index). \<open>SignalQuit\<close> sends on every channel in order and \<open>WaitForCleanup\<close>
  receives from every channel in order; both loops evaluate \<open>range\<close> once, so each keeps
  its bound (the length of the list when the loop started). Every subscriber
  (\<open>collector\<close>, \<open>readListener\<close>, \<open>pingRoutine\<close>, \<open>webServer\<close>) runs
  \<open>case <-quitChannel: quitChannel <- true; return\<close>: it receives once, sends the
  acknowledgement on the same channel, and stops.

  The whole system is the step relation \<open>qstep\<close> over \<open>qsys\<close>: the main goroutine's
  position in its two loops (\<open>main_pc\<close>), the channel contents and each subscriber's
  position. A send is enabled when the channel holds fewer than 2 values, a receive when
  it holds at least one; any enabled step may be taken next, which is Go's scheduling.
\<close>

datatype main_pc =
    MainRunning
  | Signalling nat nat      \<comment> \<open>\<open>SignalQuit\<close> at index \<open>i\<close> of \<open>n\<close> channels\<close>
  | Waiting nat nat nat     \<comment> \<open>\<open>WaitForCleanup\<close> at index \<open>j\<close> of \<open>m\<close>, after signalling \<open>n\<close>\<close>
  | MainDone nat nat        \<comment> \<open>both loops finished, over \<open>n\<close> and \<open>m\<close> channels\<close>

datatype sub_pc = Listening | Acking | Stopped

record qsys =
  bufs :: "nat list"
  main_pc :: main_pc
  subs :: "sub_pc list"

definition chan_cap :: nat where
  "chan_cap = 2"

definition NewQuitChannel :: "nat list" where
  "NewQuitChannel = []"

definition QuitChannel_Add :: "nat list \<Rightarrow> nat \<times> nat list" where
  "QuitChannel_Add qc = (length qc, qc @ [0])"

definition chan_send :: "nat \<Rightarrow> nat list \<Rightarrow> nat list option" where
  "chan_send i cs = (if i < length cs \<and> cs ! i < chan_cap then Some (cs[i := Suc (cs ! i)]) else None)"

definition chan_recv :: "nat \<Rightarrow> nat list \<Rightarrow> nat list option" where
  "chan_recv i cs = (if i < length cs \<and> 0 < cs ! i then Some (cs[i := cs ! i - 1]) else None)"

definition main_live :: "main_pc \<Rightarrow> bool" where
  "main_live pc = (case pc of MainDone n m \<Rightarrow> False | _ \<Rightarrow> True)"

inductive qstep :: "qsys \<Rightarrow> qsys \<Rightarrow> bool" where
  subscribe:
    "main_live (main_pc s) \<Longrightarrow>
     qstep s (s\<lparr>bufs := snd (QuitChannel_Add (bufs s)), subs := subs s @ [Listening]\<rparr>)"
| signal_start:
    "main_pc s = MainRunning \<Longrightarrow> qstep s (s\<lparr>main_pc := Signalling 0 (length (bufs s))\<rparr>)"
| signal_send:
    "main_pc s = Signalling i n \<Longrightarrow> i < n \<Longrightarrow> chan_send i (bufs s) = Some cs \<Longrightarrow>
     qstep s (s\<lparr>bufs := cs, main_pc := Signalling (Suc i) n\<rparr>)"
| signal_end:
    "main_pc s = Signalling n n \<Longrightarrow> qstep s (s\<lparr>main_pc := Waiting 0 n (length (bufs s))\<rparr>)"
| wait_recv:
    "main_pc s = Waiting j n m \<Longrightarrow> j < m \<Longrightarrow> chan_recv j (bufs s) = Some cs \<Longrightarrow>
     qstep s (s\<lparr>bufs := cs, main_pc := Waiting (Suc j) n m\<rparr>)"
| wait_end:
    "main_pc s = Waiting m n m \<Longrightarrow> qstep s (s\<lparr>main_pc := MainDone n m\<rparr>)"
| sub_recv:
    "k < length (subs s) \<Longrightarrow> subs s ! k = Listening \<Longrightarrow> chan_recv k (bufs s) = Some cs \<Longrightarrow>
     qstep s (s\<lparr>bufs := cs, subs := (subs s)[k := Acking]\<rparr>)"
| sub_ack:
    "k < length (subs s) \<Longrightarrow> subs s ! k = Acking \<Longrightarrow> chan_send k (bufs s) = Some cs \<Longrightarrow>
     qstep s (s\<lparr>bufs := cs, subs := (subs s)[k := Stopped]\<rparr>)"

definition qinit :: qsys where
  "qinit = \<lparr>bufs = NewQuitChannel, main_pc = MainRunning, subs = []\<rparr>"

text \<open>
  Whether main has sent on channel \<open>k\<close>, or received from it, read off its loop
  position; whether subscriber \<open>k\<close> has received its signal, or acknowledged it.
\<close>

definition main_sent :: "main_pc \<Rightarrow> nat \<Rightarrow> bool" where
  "main_sent pc k = (case pc of MainRunning \<Rightarrow> False | Signalling i n \<Rightarrow> k < i
                     | Waiting j n m \<Rightarrow> k < n | MainDone n m \<Rightarrow> k < n)"

definition main_got :: "main_pc \<Rightarrow> nat \<Rightarrow> bool" where
  "main_got pc k = (case pc of Waiting j n m \<Rightarrow> k < j | MainDone n m \<Rightarrow> k < m | _ \<Rightarrow> False)"

definition main_bound :: "main_pc \<Rightarrow> nat \<Rightarrow> bool" where
  "main_bound pc l = (case pc of MainRunning \<Rightarrow> True | Signalling i n \<Rightarrow> i \<le> n \<and> n \<le> l
                      | Waiting j n m \<Rightarrow> n \<le> m \<and> j \<le> m \<and> m \<le> l | MainDone n m \<Rightarrow> n \<le> m \<and> m \<le> l)"

definition chan_balance :: "main_pc \<Rightarrow> sub_pc list \<Rightarrow> nat \<Rightarrow> int" where
  "chan_balance pc ss k =
     of_bool (main_sent pc k) - of_bool (ss ! k \<noteq> Listening) + of_bool (ss ! k = Stopped)
     - of_bool (main_got pc k)"

definition qinv :: "qsys \<Rightarrow> bool" where
  "qinv s \<longleftrightarrow> length (subs s) = length (bufs s) \<and> main_bound (main_pc s) (length (bufs s)) \<and>
     (\<forall>k < length (bufs s). int (bufs s ! k) = chan_balance (main_pc s) (subs s) k) \<and>
     (\<forall>k < length (subs s). subs s ! k \<noteq> Listening \<longrightarrow> main_sent (main_pc s) k)"


lemma qinit_inv: "qinv qinit"
  by (simp add: qinv_def qinit_def NewQuitChannel_def main_bound_def)

lemma balance_update:
  assumes "\<forall>k<length b. int (b ! k) = f k" and "i < length b" and "int v = g i"
    and "\<And>k. k \<noteq> i \<Longrightarrow> g k = f k"
  shows "\<forall>k<length (b[i := v]). int (b[i := v] ! k) = g k"
proof (intro allI impI)
  fix k assume "k < length (b[i := v])"
  then show "int (b[i := v] ! k) = g k"
    using assms by (cases "k = i") simp_all
qed

lemma qinv_at: "qinv s \<Longrightarrow> k < length (bufs s) \<Longrightarrow> int (bufs s ! k) = chan_balance (main_pc s) (subs s) k"
  by (simp add: qinv_def)

lemma qinv_balance: "qinv s \<Longrightarrow> \<forall>k<length (bufs s). int (bufs s ! k) = chan_balance (main_pc s) (subs s) k"
  by (simp add: qinv_def)

lemma chan_send_Some: "chan_send i cs = Some cs' \<Longrightarrow> i < length cs \<and> cs ! i < chan_cap \<and> cs' = cs[i := Suc (cs ! i)]"
  by (simp add: chan_send_def split: if_splits)

lemma chan_recv_Some: "chan_recv i cs = Some cs' \<Longrightarrow> i < length cs \<and> 0 < cs ! i \<and> cs' = cs[i := cs ! i - 1]"
  by (simp add: chan_recv_def split: if_splits)

lemmas balance_simps = chan_balance_def main_sent_def main_got_def

lemma qstep_inv: "qstep s t \<Longrightarrow> qinv s \<Longrightarrow> qinv t"
proof (induction rule: qstep.induct)
  case (subscribe s)
  then show ?case
    by (auto simp: qinv_def QuitChannel_Add_def nth_append main_bound_def main_live_def balance_simps
             split: main_pc.splits)
next
  case (signal_start s)
  then show ?case by (auto simp: qinv_def main_bound_def balance_simps)
next
  case (signal_send s i n cs)
  note c = chan_send_Some [OF signal_send.hyps(3)]
  have b: "int (bufs s ! i) = chan_balance (Signalling i n) (subs s) i"
    using qinv_at [OF signal_send.prems] c signal_send.hyps(1) by simp
  have "\<forall>k<length cs. int (cs ! k) = chan_balance (Signalling (Suc i) n) (subs s) k"
    unfolding c [THEN conjunct2, THEN conjunct2]
  proof (rule balance_update)
    show "\<forall>k<length (bufs s). int (bufs s ! k) = chan_balance (Signalling i n) (subs s) k"
      using qinv_balance [OF signal_send.prems] signal_send.hyps(1) by simp
    show "int (Suc (bufs s ! i)) = chan_balance (Signalling (Suc i) n) (subs s) i"
      using b by (simp add: balance_simps)
  qed (use c in \<open>auto simp: balance_simps\<close>)
  then show ?case using signal_send c
    by (auto simp: qinv_def main_bound_def main_sent_def)
next
  case (signal_end s n)
  then show ?case by (auto simp: qinv_def main_bound_def balance_simps)
next
  case (wait_recv s j n m cs)
  note c = chan_recv_Some [OF wait_recv.hyps(3)]
  have b: "int (bufs s ! j) = chan_balance (Waiting j n m) (subs s) j"
    using qinv_at [OF wait_recv.prems] c wait_recv.hyps(1) by simp
  have "\<forall>k<length cs. int (cs ! k) = chan_balance (Waiting (Suc j) n m) (subs s) k"
    unfolding c [THEN conjunct2, THEN conjunct2]
  proof (rule balance_update)
    show "\<forall>k<length (bufs s). int (bufs s ! k) = chan_balance (Waiting j n m) (subs s) k"
      using qinv_balance [OF wait_recv.prems] wait_recv.hyps(1) by simp
    show "int (bufs s ! j - 1) = chan_balance (Waiting (Suc j) n m) (subs s) j"
      using b c by (simp add: balance_simps of_nat_diff)
  qed (use c in \<open>auto simp: balance_simps\<close>)
  then show ?case using wait_recv c
    by (auto simp: qinv_def main_bound_def main_sent_def)
next
  case (wait_end s m n)
  then show ?case by (auto simp: qinv_def main_bound_def balance_simps)
next
  case (sub_recv k s cs)
  note c = chan_recv_Some [OF sub_recv.hyps(3)]
  have b: "int (bufs s ! k) = chan_balance (main_pc s) (subs s) k"
    using qinv_at [OF sub_recv.prems] c by simp
  have "\<forall>i<length cs. int (cs ! i) = chan_balance (main_pc s) ((subs s)[k := Acking]) i"
    unfolding c [THEN conjunct2, THEN conjunct2]
  proof (rule balance_update)
    show "\<forall>i<length (bufs s). int (bufs s ! i) = chan_balance (main_pc s) (subs s) i"
      by (rule qinv_balance [OF sub_recv.prems])
    show "int (bufs s ! k - 1) = chan_balance (main_pc s) ((subs s)[k := Acking]) k"
      using b c sub_recv.hyps by (simp add: balance_simps of_nat_diff)
  qed (use c in \<open>auto simp: balance_simps\<close>)
  moreover have "main_sent (main_pc s) k"
    using b c sub_recv.hyps(2)
    by (cases "main_sent (main_pc s) k"; cases "main_got (main_pc s) k") (auto simp: chan_balance_def)
  ultimately show ?case using sub_recv c
    by (auto simp: qinv_def nth_list_update)
next
  case (sub_ack k s cs)
  note c = chan_send_Some [OF sub_ack.hyps(3)]
  have b: "int (bufs s ! k) = chan_balance (main_pc s) (subs s) k"
    using qinv_at [OF sub_ack.prems] c by simp
  have "\<forall>i<length cs. int (cs ! i) = chan_balance (main_pc s) ((subs s)[k := Stopped]) i"
    unfolding c [THEN conjunct2, THEN conjunct2]
  proof (rule balance_update)
    show "\<forall>i<length (bufs s). int (bufs s ! i) = chan_balance (main_pc s) (subs s) i"
      by (rule qinv_balance [OF sub_ack.prems])
    show "int (Suc (bufs s ! k)) = chan_balance (main_pc s) ((subs s)[k := Stopped]) k"
      using b c sub_ack.hyps by (simp add: balance_simps)
  qed (use c in \<open>auto simp: balance_simps\<close>)
  moreover have "main_sent (main_pc s) k"
    using sub_ack.prems sub_ack.hyps(1,2) by (auto simp: qinv_def)
  ultimately show ?case using sub_ack c
    by (auto simp: qinv_def nth_list_update)
qed

lemma reachable_inv: "qstep\<^sup>*\<^sup>* qinit s \<Longrightarrow> qinv s"
  by (induction rule: rtranclp_induct) (auto intro: qinit_inv qstep_inv)


lemma balance_le_one: "chan_balance pc ss k \<le> 1"
  by (cases "ss ! k") (simp_all add: balance_simps)

text \<open>In every reachable state of the shutdown protocol each quit channel holds at
  most one value: a signal and its acknowledgement are never buffered together, since the
  subscriber must take the signal before it acknowledges.\<close>

lemma quit_buffer_at_most_one:
  assumes "qstep\<^sup>*\<^sup>* qinit s" and "k < length (bufs s)"
  shows "bufs s ! k \<le> 1"
  using qinv_at [OF reachable_inv [OF assms(1)] assms(2)] balance_le_one [of "main_pc s" "subs s" k] by simp

text \<open>C23. \<open>SignalQuit\<close> never blocks: whenever main is about to send on a channel, the
  send is enabled (the channel has room, as no channel ever holds two values), so main moves on to the next channel.\<close>

theorem signal_never_blocks:
  assumes "qstep\<^sup>*\<^sup>* qinit s" and "main_pc s = Signalling i n" and "i < n"
  shows "\<exists>t. qstep s t \<and> main_pc t = Signalling (Suc i) n"
proof -
  have inv: "qinv s" by (rule reachable_inv [OF assms(1)])
  then have i: "i < length (bufs s)" using assms(2,3) by (simp add: qinv_def main_bound_def)
  have "int (bufs s ! i) \<le> 1"
    using qinv_at [OF inv i] balance_le_one [of "main_pc s" "subs s" i] by simp
  then have "chan_send i (bufs s) = Some ((bufs s)[i := Suc (bufs s ! i)])"
    using i by (simp add: chan_send_def chan_cap_def)
  then show ?thesis using qstep.signal_send [OF assms(2,3)] by fastforce
qed

lemma late_channel_stays_empty:
  assumes "qstep s t" and "main_pc s = Waiting j n m" and "n \<le> j" and "j < m"
    and "j < length (bufs s)" and "j < length (subs s)" and "bufs s ! j = 0" and "subs s ! j = Listening"
  shows "main_pc t = Waiting j n m \<and> j < length (bufs t) \<and> j < length (subs t) \<and>
         bufs t ! j = 0 \<and> subs t ! j = Listening"
  using assms
proof (induction rule: qstep.induct)
  case (subscribe s)
  then show ?case by (simp add: QuitChannel_Add_def nth_append)
next
  case (sub_recv k s cs)
  then show ?case by (cases "k = j") (auto dest: chan_recv_Some)
next
  case (sub_ack k s cs)
  then show ?case by (cases "k = j") (auto dest: chan_send_Some)
qed (auto dest: chan_recv_Some)

text \<open>C26. A subscriber added after \<open>SignalQuit\<close> started is never signalled (the loop's
  \<open>range\<close> was evaluated before it existed) but \<open>WaitForCleanup\<close> waits on it: once
  main reaches that channel, no interleaving lets it move on, so shutdown hangs. The spec
  leaves subscription after the signal unsupported; \<open>liveDataHandler\<close> subscribes on
  every new connection, so the code does not exclude it.\<close>

theorem late_subscriber_blocks_wait:
  assumes "qstep\<^sup>*\<^sup>* qinit s" and "main_pc s = Waiting j n m" and "n \<le> j" and "j < m"
    and "qstep\<^sup>*\<^sup>* s t"
  shows "main_pc t = Waiting j n m"
proof -
  have inv: "qinv s" by (rule reachable_inv [OF assms(1)])
  then have j: "j < length (bufs s)" "j < length (subs s)"
    using assms(2,4) by (auto simp: qinv_def main_bound_def)
  have "int (bufs s ! j) = chan_balance (main_pc s) (subs s) j"
    by (rule qinv_at [OF inv j(1)])
  then have "bufs s ! j = 0 \<and> subs s ! j = Listening"
    using assms(2,3) inv j by (cases "subs s ! j") (auto simp: balance_simps qinv_def)
  note start = this
  have "main_pc t = Waiting j n m \<and> j < length (bufs t) \<and> j < length (subs t) \<and>
             bufs t ! j = 0 \<and> subs t ! j = Listening"
    using assms(5)
  proof (induction rule: rtranclp_induct)
    case base
    then show ?case using start assms(2) j by simp
  next
    case (step u v)
    then show ?case using late_channel_stays_empty [of u v j n m] assms(3,4) by blast
  qed
  then show ?thesis by simp
qed


text \<open>C24. When \<open>WaitForCleanup\<close> has returned, every signalled channel is empty and its
  subscriber has either acknowledged and stopped, or is still waiting for a signal that
  main took back itself; a subscriber is never caught between receiving and
  acknowledging.\<close>

theorem wait_done_characterisation:
  assumes "qstep\<^sup>*\<^sup>* qinit s" and "main_pc s = MainDone n m" and "k < n"
  shows "bufs s ! k = 0 \<and> (subs s ! k = Stopped \<or> subs s ! k = Listening)"
proof -
  have inv: "qinv s" by (rule reachable_inv [OF assms(1)])
  then have k: "k < length (bufs s)" using assms(2,3) by (simp add: qinv_def main_bound_def)
  have "int (bufs s ! k) = chan_balance (main_pc s) (subs s) k" by (rule qinv_at [OF inv k])
  moreover have "k < m" using inv assms(2,3) by (simp add: qinv_def main_bound_def)
  ultimately show ?thesis using assms(2,3) by (cases "subs s ! k") (auto simp: balance_simps)
qed

subsection \<open>Two runs of the protocol\<close>

lemma run_signalling:
  "qstep\<^sup>*\<^sup>* qinit \<lparr>bufs = [0], main_pc = Signalling 0 1, subs = [Listening]\<rparr>"
proof -
  let ?s1 = "\<lparr>bufs = [0], main_pc = MainRunning, subs = [Listening]\<rparr>"
  have 1: "qstep qinit ?s1"
    using qstep.subscribe [of qinit] by (simp add: qinit_def main_live_def QuitChannel_Add_def NewQuitChannel_def)
  have 2: "qstep ?s1 \<lparr>bufs = [0], main_pc = Signalling 0 1, subs = [Listening]\<rparr>"
    using qstep.signal_start [of ?s1] by simp
  show ?thesis using 1 2 by (meson rtranclp.rtrancl_refl rtranclp.rtrancl_into_rtrancl)
qed

text \<open>One subscriber; main signals it and then, in \<open>WaitForCleanup\<close>, receives its own
  signal back from the channel before the subscriber runs.\<close>

lemma run_stolen_signal:
  "qstep\<^sup>*\<^sup>* qinit \<lparr>bufs = [0], main_pc = MainDone 1 1, subs = [Listening]\<rparr>"
proof -
  let ?s2 = "\<lparr>bufs = [0], main_pc = Signalling 0 1, subs = [Listening]\<rparr>"
  let ?s3 = "\<lparr>bufs = [1], main_pc = Signalling 1 1, subs = [Listening]\<rparr>"
  let ?s4 = "\<lparr>bufs = [1], main_pc = Waiting 0 1 1, subs = [Listening]\<rparr>"
  let ?s5 = "\<lparr>bufs = [0], main_pc = Waiting 1 1 1, subs = [Listening]\<rparr>"
  let ?s6 = "\<lparr>bufs = [0], main_pc = MainDone 1 1, subs = [Listening]\<rparr>"
  have 3: "qstep ?s2 ?s3" using qstep.signal_send [of ?s2 0 1] by (simp add: chan_send_def chan_cap_def)
  have 4: "qstep ?s3 ?s4" using qstep.signal_end [of ?s3 1] by simp
  have 5: "qstep ?s4 ?s5" using qstep.wait_recv [of ?s4 0 1 1] by (simp add: chan_recv_def)
  have 6: "qstep ?s5 ?s6" using qstep.wait_end [of ?s5 1 1] by simp
  show ?thesis using run_signalling 3 4 5 6 by (meson rtranclp.rtrancl_into_rtrancl)
qed

text \<open>One subscriber at the start, a second one subscribing after \<open>SignalQuit\<close> began;
  the first is signalled and acknowledges, and main moves on to the second channel.\<close>

lemma run_late_subscriber:
  "qstep\<^sup>*\<^sup>* qinit \<lparr>bufs = [0, 0], main_pc = Waiting 1 1 2, subs = [Stopped, Listening]\<rparr>"
proof -
  let ?s1 = "\<lparr>bufs = [0], main_pc = MainRunning, subs = [Listening]\<rparr>"
  let ?s2 = "\<lparr>bufs = [0], main_pc = Signalling 0 1, subs = [Listening]\<rparr>"
  let ?s3 = "\<lparr>bufs = [0, 0], main_pc = Signalling 0 1, subs = [Listening, Listening]\<rparr>"
  let ?s4 = "\<lparr>bufs = [1, 0], main_pc = Signalling 1 1, subs = [Listening, Listening]\<rparr>"
  let ?s5 = "\<lparr>bufs = [1, 0], main_pc = Waiting 0 1 2, subs = [Listening, Listening]\<rparr>"
  let ?s6 = "\<lparr>bufs = [0, 0], main_pc = Waiting 0 1 2, subs = [Acking, Listening]\<rparr>"
  let ?s7 = "\<lparr>bufs = [1, 0], main_pc = Waiting 0 1 2, subs = [Stopped, Listening]\<rparr>"
  let ?s8 = "\<lparr>bufs = [0, 0], main_pc = Waiting 1 1 2, subs = [Stopped, Listening]\<rparr>"
  have 1: "qstep qinit ?s1"
    using qstep.subscribe [of qinit] by (simp add: qinit_def main_live_def QuitChannel_Add_def NewQuitChannel_def)
  have 2: "qstep ?s1 ?s2" using qstep.signal_start [of ?s1] by simp
  have 3: "qstep ?s2 ?s3"
    using qstep.subscribe [of ?s2] by (simp add: main_live_def QuitChannel_Add_def)
  have 4: "qstep ?s3 ?s4" using qstep.signal_send [of ?s3 0 1] by (simp add: chan_send_def chan_cap_def)
  have 5: "qstep ?s4 ?s5" using qstep.signal_end [of ?s4 1] by (simp add: numeral_2_eq_2)
  have 6: "qstep ?s5 ?s6" using qstep.sub_recv [of 0 ?s5] by (simp add: chan_recv_def)
  have 7: "qstep ?s6 ?s7" using qstep.sub_ack [of 0 ?s6] by (simp add: chan_send_def chan_cap_def)
  have 8: "qstep ?s7 ?s8" using qstep.wait_recv [of ?s7 0 1 2] by (simp add: chan_recv_def)
  show ?thesis using 1 2 3 4 5 6 7 8
    by (meson rtranclp.rtrancl_refl rtranclp.rtrancl_into_rtrancl converse_rtranclp_into_rtranclp)
qed

text \<open>C25. \<open>WaitForCleanup\<close> can return although a subscriber never received the signal
  nor acknowledged: one Go channel carries both the signal and the acknowledgement, so
  main's receive can take its own signal back. The spec requires the wait to return only
  after every subscriber has acknowledged.\<close>

theorem wait_returns_without_ack:
  "\<exists>s. qstep\<^sup>*\<^sup>* qinit s \<and> main_pc s = MainDone 1 1 \<and> length (subs s) = 1 \<and> subs s ! 0 = Listening"
  using run_stolen_signal by fastforce

subsection \<open>Examples\<close>

theorem signal_never_blocks_witness:
  "\<exists>t. qstep \<lparr>bufs = [0], main_pc = Signalling 0 1, subs = [Listening]\<rparr> t \<and> main_pc t = Signalling 1 1"
  using signal_never_blocks [OF run_signalling, of 0 1] by simp

theorem wait_done_characterisation_witness:
  "bufs \<lparr>bufs = [0], main_pc = MainDone 1 1, subs = [Listening]\<rparr> ! 0 = 0 \<and>
   (subs \<lparr>bufs = [0], main_pc = MainDone 1 1, subs = [Listening]\<rparr> ! 0 = Stopped \<or>
    subs \<lparr>bufs = [0], main_pc = MainDone 1 1, subs = [Listening]\<rparr> ! 0 = Listening)"
  using wait_done_characterisation [OF run_stolen_signal, of 1 1 0] by simp

theorem late_subscriber_blocks_wait_witness:
  "main_pc \<lparr>bufs = [0, 0], main_pc = Waiting 1 1 2, subs = [Stopped, Listening]\<rparr> = Waiting 1 1 2"
  using late_subscriber_blocks_wait [OF run_late_subscriber, of 1 1 2
      "\<lparr>bufs = [0, 0], main_pc = Waiting 1 1 2, subs = [Stopped, Listening]\<rparr>"] by simp

end
