(* ===== verification/Config.thy ===== *)
theory Config
  imports Complex_Main Data
begin

unbundle bit_operations_syntax

text \<open>
  The configuration reader \<open>src/config.go\<close>. \<open>ReadConfig\<close> reads the file and decodes it
  with hjson into a \<open>map[string]interface{}\<close>; the model starts from that decoded map
  (\<open>jvalue\<close>, an association list in Go's iteration order, which is unspecified, so the
  lemmas hold for every order). Go's dynamic types of the decoded values are the
  constructors of \<open>jvalue\<close>; floats are exact rationals (every \<open>float64\<close> is one).
  Pointers that may be \<open>nil\<close> are options (\<open>raw_peer\<close>, \<open>raw_config\<close>); an error is
  a value of \<open>cfg_error\<close>, returned beside the partial configuration as the Go function
  returns \<open>(config, err)\<close>. Three library functions are parameters of the model, not
  parts of it: \<open>strconv.FormatFloat(f, 'E', -1, bits)\<close> (\<open>fmt_float\<close>), \<open>net.ParseIP\<close>
  (\<open>parse_ip\<close>, \<open>[]\<close> for \<open>nil\<close>) and the key comparison \<open>strings.EqualFold\<close>, which is
  modelled as ASCII case folding (\<open>equal_fold\<close>); its Unicode special cases
  (e.g. the Kelvin sign folding to \<open>k\<close>) are not.
\<close>

datatype jvalue =
    JInt int | JInt64 int | JString string | JFloat32 rat | JFloat64 rat | JBool bool
  | JList "jvalue list" | JMap "(string \<times> jvalue) list" | JNull

datatype cfg_error =
    NotFound | InvalidFormat | NumError num_error
  | AddressInvalidFormat | AddressNotFound | AddressInvalid
  | NotValidIP string | SameIDs string string | ListenAddressInvalidFormat | NilDereference

record raw_peer =
  rp_name :: "string option"
  rp_address :: "string option"
  rp_interval :: "int option"
  rp_timeout :: "int option"
  rp_id :: "int option"
  rp_ip :: ip

record raw_config =
  raw_peers :: "raw_peer list"
  raw_interval :: "int option"
  raw_timeout :: "int option"
  raw_listen :: "string option"
  raw_database :: "string option"
  raw_keep :: int

definition ascii_lower :: "char \<Rightarrow> char" where
  "ascii_lower c = (if 65 \<le> (of_char c :: nat) \<and> (of_char c :: nat) \<le> 90 then char_of ((of_char c :: nat) + 32) else c)"

definition equal_fold :: "string \<Rightarrow> string \<Rightarrow> bool" where
  "equal_fold a b \<longleftrightarrow> map ascii_lower a = map ascii_lower b"

definition lookup_key :: "(string \<times> jvalue) list \<Rightarrow> string \<Rightarrow> jvalue option" where
  "lookup_key m name = map_option snd (find (\<lambda>(k, v). equal_fold k name) m)"

definition go_int_of_float :: "rat \<Rightarrow> int" where
  "go_int_of_float f = (let t = (if f < 0 then - floor (- f) else floor f)
                        in if in_i64 t then t else - (2 ^ 63))"

definition utf8_rune :: "int \<Rightarrow> string" where
  "utf8_rune r =
     (let b = (\<lambda>n::int. char_of (nat n))
      in if 0 \<le> r \<and> r < 128 then [b r]
         else if 128 \<le> r \<and> r < 2048 then [b (192 + r div 64), b (128 + r mod 64)]
         else if (2048 \<le> r \<and> r < 55296) \<or> (57344 \<le> r \<and> r < 65536) then
           [b (224 + r div 4096), b (128 + r div 64 mod 64), b (128 + r mod 64)]
         else if 65536 \<le> r \<and> r < 1114112 then
           [b (240 + r div 262144), b (128 + r div 4096 mod 64), b (128 + r div 64 mod 64), b (128 + r mod 64)]
         else [b 239, b 191, b 189])"

definition readInt :: "(string \<times> jvalue) list \<Rightarrow> string \<Rightarrow> int option \<times> cfg_error option" where
  "readInt m name =
     (case lookup_key m name of
        None \<Rightarrow> (None, Some NotFound)
      | Some v \<Rightarrow>
          (case v of
             JInt i \<Rightarrow> (Some i, None)
           | JInt64 i \<Rightarrow> (Some i, None)
           | JString s \<Rightarrow> (Some (fst (go_parse_int s)), map_option NumError (snd (go_parse_int s)))
           | JFloat32 f \<Rightarrow> (Some (go_int_of_float f), None)
           | JFloat64 f \<Rightarrow> (Some (go_int_of_float f), None)
           | JBool bv \<Rightarrow> (Some (if bv then 1 else 0), None)
           | _ \<Rightarrow> (None, Some InvalidFormat)))"

definition readString ::
  "(nat \<Rightarrow> rat \<Rightarrow> string) \<Rightarrow> (string \<times> jvalue) list \<Rightarrow> string \<Rightarrow> string option \<times> cfg_error option"
where
  "readString fmt_float m name =
     (case lookup_key m name of
        None \<Rightarrow> (None, Some NotFound)
      | Some v \<Rightarrow>
          (case v of
             JInt i \<Rightarrow> (Some (utf8_rune i), None)
           | JInt64 i \<Rightarrow> (Some (utf8_rune i), None)
           | JString s \<Rightarrow> (Some s, None)
           | JFloat32 f \<Rightarrow> (Some (fmt_float 32 f), None)
           | JFloat64 f \<Rightarrow> (Some (fmt_float 64 f), None)
           | JBool bv \<Rightarrow> (Some (if bv then ''true'' else ''false''), None)
           | _ \<Rightarrow> (None, Some InvalidFormat)))"

definition address_peer :: "string \<Rightarrow> raw_peer" where
  "address_peer s = \<lparr>rp_name = None, rp_address = Some s, rp_interval = None, rp_timeout = None,
                     rp_id = None, rp_ip = []\<rparr>"

fun peers_loop ::
  "(nat \<Rightarrow> rat \<Rightarrow> string) \<Rightarrow> jvalue list \<Rightarrow> raw_peer list \<Rightarrow> raw_peer list \<times> cfg_error option"
where
  "peers_loop fmt [] acc = (acc, None)"
| "peers_loop fmt (JString s # vs) acc = peers_loop fmt vs (acc @ [address_peer s])"
| "peers_loop fmt (JMap m # vs) acc =
     (let (addr, err) = readString fmt m ''Address''
      in if err = Some InvalidFormat then (acc, Some AddressInvalidFormat)
         else if err = Some NotFound then (acc, Some AddressNotFound)
         else if addr = None \<or> addr = Some [] then (acc, Some AddressInvalid)
         else peers_loop fmt vs
                (acc @ [\<lparr>rp_name = fst (readString fmt m ''Name''), rp_address = addr,
                          rp_interval = fst (readInt m ''Interval''), rp_timeout = fst (readInt m ''Timeout''),
                          rp_id = fst (readInt m ''ID''), rp_ip = []\<rparr>]))"
| "peers_loop fmt (_ # vs) acc = peers_loop fmt vs acc"

definition readPeers ::
  "(nat \<Rightarrow> rat \<Rightarrow> string) \<Rightarrow> (string \<times> jvalue) list \<Rightarrow> string \<Rightarrow> raw_peer list \<times> cfg_error option"
where
  "readPeers fmt m name =
     (case lookup_key m name of
        None \<Rightarrow> ([], None)
      | Some (JString s) \<Rightarrow> ([address_peer s], None)
      | Some (JList vs) \<Rightarrow> peers_loop fmt vs []
      | Some _ \<Rightarrow> ([], None))"


subsection \<open>Peer ids: CRC-32 of the address\<close>

text \<open>\<open>crc32.MakeTable(0xD5828281)\<close> and \<open>crc32.Checksum\<close> for a table that is neither
  the IEEE nor the Castagnoli one, i.e. the library's \<open>simpleMakeTable\<close> and
  \<open>simpleUpdate\<close>.\<close>

definition crc_poly :: "32 word" where
  "crc_poly = 0xD5828281"

definition crc_shift :: "32 word \<Rightarrow> 32 word \<Rightarrow> 32 word" where
  "crc_shift poly c = (if c AND 1 = 1 then drop_bit 1 c XOR poly else drop_bit 1 c)"

definition crc_table :: "32 word \<Rightarrow> 32 word list" where
  "crc_table poly = map (\<lambda>i. (crc_shift poly ^^ 8) (word_of_nat i)) [0..<256]"

definition crc_update :: "32 word \<Rightarrow> 32 word list \<Rightarrow> 8 word list \<Rightarrow> 32 word" where
  "crc_update crc tab p =
     NOT (foldl (\<lambda>c v. tab ! unat (ucast c XOR v :: 8 word) XOR drop_bit 8 c) (NOT crc) p)"

definition string_bytes :: "string \<Rightarrow> 8 word list" where
  "string_bytes s = map (\<lambda>c. word_of_nat (of_char c)) s"

text \<open>The CRC the table implements, one bit at a time: each byte is XORed into the low end of
  the register, which is then shifted right eight times, XORing the polynomial in whenever a
  one is shifted out.\<close>

definition crc_bitwise :: "32 word \<Rightarrow> 32 word \<Rightarrow> 8 word list \<Rightarrow> 32 word" where
  "crc_bitwise poly crc p = NOT (foldl (\<lambda>c v. (crc_shift poly ^^ 8) (c XOR ucast v)) (NOT crc) p)"

definition address_id :: "string \<Rightarrow> int" where
  "address_id a = uint (crc_update 0 (crc_table crc_poly) (string_bytes a))"

subsection \<open>\<open>ReadConfig\<close>\<close>

definition default_clamp :: "int option \<Rightarrow> int option \<Rightarrow> int option" where
  "default_clamp d x = (case x of None \<Rightarrow> d | Some v \<Rightarrow> Some (if v < 10 then 10 else v))"

definition keep_history_default :: int where
  "keep_history_default = 672 * 3600 * 1000000000"

fun normalise_peers ::
  "(string \<Rightarrow> ip) \<Rightarrow> int option \<Rightarrow> int option \<Rightarrow> raw_peer list \<Rightarrow> raw_peer list \<Rightarrow>
   raw_peer list \<times> cfg_error option"
where
  "normalise_peers parse_ip iv to [] acc = (acc, None)"
| "normalise_peers parse_ip iv to (p # ps) acc =
     (let p1 = p\<lparr>rp_interval := default_clamp iv (rp_interval p), rp_timeout := default_clamp to (rp_timeout p)\<rparr>
      in case rp_address p of
           None \<Rightarrow> (acc @ p1 # ps, Some NilDereference)
         | Some a \<Rightarrow>
             (if parse_ip a = [] then (acc @ p1 # ps, Some (NotValidIP a))
              else normalise_peers parse_ip iv to ps
                     (acc @ [p1\<lparr>rp_ip := parse_ip a,
                                rp_name := (case rp_name p of None \<Rightarrow> Some a | Some n \<Rightarrow> Some n),
                                rp_id := (case rp_id p of None \<Rightarrow> Some (address_id a) | Some i \<Rightarrow> Some i)\<rparr>])))"

definition dup_ids :: "raw_peer list \<Rightarrow> (string \<times> string) option" where
  "dup_ids ps =
     map_option (\<lambda>(i, j). ((case rp_address (ps ! i) of Some a \<Rightarrow> a | None \<Rightarrow> []),
                            (case rp_address (ps ! j) of Some a \<Rightarrow> a | None \<Rightarrow> [])))
       (find (\<lambda>(i, j). i \<noteq> j \<and> rp_id (ps ! i) = rp_id (ps ! j))
          (List.product [0..<length ps] [0..<length ps]))"

definition ReadConfig ::
  "(nat \<Rightarrow> rat \<Rightarrow> string) \<Rightarrow> (string \<Rightarrow> ip) \<Rightarrow> (string \<times> jvalue) list \<Rightarrow> raw_config \<times> cfg_error option"
where
  "ReadConfig fmt parse_ip dat =
     (let iv = default_clamp (Some 1000) (fst (readInt dat ''Interval''));
          to = default_clamp (Some 1000) (fst (readInt dat ''Timeout''));
          dbs = (case fst (readString fmt dat ''DataBase'') of
                   None \<Rightarrow> ''data.db'' | Some [] \<Rightarrow> ''data.db'' | Some d \<Rightarrow> d);
          (ps, perr) = readPeers fmt dat ''Peers'';
          c0 = \<lparr>raw_peers = ps, raw_interval = iv, raw_timeout = to, raw_listen = None,
                raw_database = Some dbs, raw_keep = keep_history_default\<rparr>
      in if perr \<noteq> None then (c0, perr)
         else
           (let (ps2, nerr) = normalise_peers parse_ip iv to ps [];
                c1 = c0\<lparr>raw_peers := ps2\<rparr>
            in if nerr \<noteq> None then (c1, nerr)
               else (case dup_ids ps2 of
                       Some (a, b) \<Rightarrow> (c1, Some (SameIDs a b))
                     | None \<Rightarrow>
                         (let (la, lerr) = readString fmt dat ''ListenAddress''
                          in if lerr = Some InvalidFormat then (c1\<lparr>raw_listen := la\<rparr>, Some ListenAddressInvalidFormat)
                             else (c1\<lparr>raw_listen := (case la of None \<Rightarrow> Some '':8000'' | Some l \<Rightarrow> Some l)\<rparr>, lerr)))))"

definition peer_of :: "raw_peer \<Rightarrow> peer option" where
  "peer_of p =
     (case (rp_name p, rp_address p, rp_interval p, rp_timeout p, rp_id p) of
        (Some n, Some a, Some i, Some t, Some d) \<Rightarrow>
          Some \<lparr>peer_name = n, peer_address = a, peer_interval = i, peer_timeout = t, peer_id = d, peer_ip = rp_ip p\<rparr>
      | _ \<Rightarrow> None)"

definition config_of :: "raw_config \<Rightarrow> config option" where
  "config_of c =
     (case (those (map peer_of (raw_peers c)), raw_interval c, raw_timeout c, raw_listen c, raw_database c) of
        (Some ps, Some i, Some t, Some l, Some d) \<Rightarrow>
          Some \<lparr>cfg_peers = ps, cfg_interval = i, cfg_timeout = t, cfg_listen_address = l,
                cfg_database = d, cfg_keep_history = raw_keep c\<rparr>
      | _ \<Rightarrow> None)"

text \<open>\<open>peer_ok\<close>: a peer with every field the rest of the program dereferences, and with the
  bounds the spec's contract asks for.\<close>

definition peer_ok :: "raw_peer \<Rightarrow> bool" where
  "peer_ok p \<longleftrightarrow> rp_name p \<noteq> None \<and> rp_address p \<noteq> None \<and>
     (case rp_interval p of Some i \<Rightarrow> 10 \<le> i | None \<Rightarrow> False) \<and>
     (case rp_timeout p of Some t \<Rightarrow> 10 \<le> t | None \<Rightarrow> False) \<and> rp_id p \<noteq> None \<and> rp_ip p \<noteq> []"

text \<open>The dynamic types an \<open>interface{}\<close> value of the decoded document can hold, and the
  typing judgement \<open>jv_type v t\<close>: a Go \<open>int\<close> or \<open>int64\<close> holds a 64-bit integer,
  and the elements of a slice and the values of a map are typed in turn. \<open>rp_typed\<close>
  says that the integer fields a peer has are Go \<open>int\<close>s.\<close>

datatype go_type = TInt | TInt64 | TString | TFloat32 | TFloat64 | TBool | TSlice | TMap | TNil

inductive jv_type :: "jvalue \<Rightarrow> go_type \<Rightarrow> bool" where
  jt_int: "in_i64 i \<Longrightarrow> jv_type (JInt i) TInt"
| jt_int64: "in_i64 i \<Longrightarrow> jv_type (JInt64 i) TInt64"
| jt_string: "jv_type (JString s) TString"
| jt_float32: "jv_type (JFloat32 f) TFloat32"
| jt_float64: "jv_type (JFloat64 f) TFloat64"
| jt_bool: "jv_type (JBool b) TBool"
| jt_slice: "(\<forall>v\<in>set vs. \<exists>t. jv_type v t) \<Longrightarrow> jv_type (JList vs) TSlice"
| jt_map: "(\<forall>kv\<in>set m. \<exists>t. jv_type (snd kv) t) \<Longrightarrow> jv_type (JMap m) TMap"
| jt_nil: "jv_type JNull TNil"

definition rp_typed :: "raw_peer \<Rightarrow> bool" where
  "rp_typed p \<longleftrightarrow> pred_option in_i64 (rp_interval p) \<and> pred_option in_i64 (rp_timeout p) \<and>
     pred_option in_i64 (rp_id p)"

subsection \<open>Lemmas\<close>

inductive_simps jv_type_int_simps: "jv_type (JInt i) t" "jv_type (JInt64 i) t"
inductive_simps jv_type_map_simps: "jv_type (JMap m) t"
inductive_simps jv_type_slice_simps: "jv_type (JList vs) t"

lemma readString_notfound: "lookup_key m name = None \<Longrightarrow> readString fmt m name = (None, Some NotFound)"
  by (simp add: readString_def)

text \<open>A configuration without a \<open>ListenAddress\<close> key is rejected: \<open>readString\<close>
  returns the error "not found", and \<open>ReadConfig\<close> substitutes the default \<open>:8000\<close> but
  still returns that error.\<close>

lemma listen_address_required:
  "lookup_key dat ''ListenAddress'' = None \<Longrightarrow> snd (ReadConfig fmt parse_ip dat) \<noteq> None"
  by (auto simp: ReadConfig_def Let_def readString_notfound split: prod.splits option.splits if_splits)

text \<open>The retention window is 672 hours whatever the configuration says: the value of
  \<open>KeepHistoryFor\<close> is read and then ignored in both branches.\<close>

lemma keep_history_ignored: "raw_keep (fst (ReadConfig fmt parse_ip dat)) = keep_history_default"
  by (auto simp: ReadConfig_def Let_def split: prod.splits option.splits if_splits)


lemma peers_loop_addr:
  "(\<forall>p\<in>set acc. rp_address p \<noteq> None) \<Longrightarrow> peers_loop fmt vs acc = (ps, None) \<Longrightarrow>
   \<forall>p\<in>set ps. rp_address p \<noteq> None"
proof (induction vs arbitrary: acc)
  case Nil
  then show ?case by simp
next
  case (Cons v vs)
  show ?case
  proof (cases v)
    case (JString s)
    then show ?thesis
      using Cons.IH [of "acc @ [address_peer s]"] Cons.prems by (simp add: address_peer_def)
  next
    case (JMap m)
    obtain addr err where rs: "readString fmt m ''Address'' = (addr, err)" by fastforce
    let ?q = "\<lparr>rp_name = fst (readString fmt m ''Name''), rp_address = addr,
               rp_interval = fst (readInt m ''Interval''), rp_timeout = fst (readInt m ''Timeout''),
               rp_id = fst (readInt m ''ID''), rp_ip = []\<rparr>"
    show ?thesis
    proof (cases "err = Some InvalidFormat \<or> err = Some NotFound \<or> addr = None \<or> addr = Some []")
      case True
      then show ?thesis using Cons.prems JMap rs by (auto simp: Let_def split: if_splits)
    next
      case False
      then have "peers_loop fmt vs (acc @ [?q]) = (ps, None)"
        using Cons.prems(2) JMap rs by (auto simp: Let_def split: if_splits)
      then show ?thesis using Cons.IH [of "acc @ [?q]"] Cons.prems(1) False by auto
    qed
  qed (use Cons in simp_all)
qed

lemma readPeers_addr: "readPeers fmt m n = (ps, None) \<Longrightarrow> \<forall>p\<in>set ps. rp_address p \<noteq> None"
proof (cases "lookup_key m n")
  case None
  then show "readPeers fmt m n = (ps, None) \<Longrightarrow> ?thesis" by (simp add: readPeers_def)
next
  case (Some v)
  show "readPeers fmt m n = (ps, None) \<Longrightarrow> ?thesis"
  proof (cases v)
    case (JList vs)
    then show "readPeers fmt m n = (ps, None) \<Longrightarrow> ?thesis"
      using Some peers_loop_addr [of "[]" fmt vs ps] by (simp add: readPeers_def)
  qed (use Some in \<open>auto simp: readPeers_def address_peer_def\<close>)
qed

lemma default_clamp_ge: "10 \<le> k \<Longrightarrow> \<exists>v. default_clamp (Some k) x = Some v \<and> 10 \<le> v"
  by (simp add: default_clamp_def split: option.split)

lemma normalise_ok:
  assumes "iv = Some i" "10 \<le> i" "to = Some t" "10 \<le> t"
  shows "(\<forall>p\<in>set acc. peer_ok p) \<Longrightarrow> (\<forall>p\<in>set ps. rp_address p \<noteq> None) \<Longrightarrow>
         normalise_peers pip iv to ps acc = (ps2, None) \<Longrightarrow> \<forall>p\<in>set ps2. peer_ok p"
proof (induction ps arbitrary: acc)
  case Nil
  then show ?case by simp
next
  case (Cons p ps)
  obtain a where a: "rp_address p = Some a" using Cons.prems(2) by auto
  have ip: "pip a \<noteq> []" using Cons.prems(3) a by (auto simp: Let_def split: if_splits)
  have iv: "\<exists>v. default_clamp iv (rp_interval p) = Some v \<and> 10 \<le> v"
    using default_clamp_ge assms(1,2) by blast
  have to: "\<exists>v. default_clamp to (rp_timeout p) = Some v \<and> 10 \<le> v"
    using default_clamp_ge assms(3,4) by blast
  let ?p2 = "p\<lparr>rp_interval := default_clamp iv (rp_interval p), rp_timeout := default_clamp to (rp_timeout p),
               rp_ip := pip a, rp_name := (case rp_name p of None \<Rightarrow> Some a | Some n \<Rightarrow> Some n),
               rp_id := (case rp_id p of None \<Rightarrow> Some (address_id a) | Some i \<Rightarrow> Some i)\<rparr>"
  have ok: "peer_ok ?p2" using iv to ip a by (auto simp: peer_ok_def split: option.split)
  have n: "normalise_peers pip iv to ps (acc @ [?p2]) = (ps2, None)"
    using Cons.prems(3) a ip by (simp add: Let_def)
  have acc: "\<forall>q\<in>set (acc @ [?p2]). peer_ok q" using Cons.prems(1) ok by simp
  have "\<forall>q\<in>set ps. rp_address q \<noteq> None" using Cons.prems(2) by simp
  from Cons.IH [OF acc this n] show ?case .
qed


lemma dup_ids_None: "dup_ids ps = None \<Longrightarrow> distinct (map rp_id ps)"
proof -
  assume "dup_ids ps = None"
  then have "\<forall>i<length ps. \<forall>j<length ps. i \<noteq> j \<longrightarrow> rp_id (ps ! i) \<noteq> rp_id (ps ! j)"
    by (auto simp: dup_ids_def find_None_iff)
  then show ?thesis by (auto simp: distinct_conv_nth)
qed

lemma those_peer_of:
  "\<forall>p\<in>set ps. peer_ok p \<Longrightarrow>
   \<exists>qs. those (map peer_of ps) = Some qs \<and> map peer_id qs = map (\<lambda>p. the (rp_id p)) ps \<and>
        (\<forall>q\<in>set qs. 10 \<le> peer_interval q \<and> 10 \<le> peer_timeout q \<and> peer_ip q \<noteq> [])"
proof (induction ps)
  case (Cons p ps)
  then obtain qs where qs: "those (map peer_of ps) = Some qs" "map peer_id qs = map (\<lambda>p. the (rp_id p)) ps"
    "\<forall>q\<in>set qs. 10 \<le> peer_interval q \<and> 10 \<le> peer_timeout q \<and> peer_ip q \<noteq> []" by auto
  have "peer_ok p" using Cons.prems by simp
  then obtain q where "peer_of p = Some q" "peer_id q = the (rp_id p)"
    "10 \<le> peer_interval q \<and> 10 \<le> peer_timeout q \<and> peer_ip q \<noteq> []"
    by (auto simp: peer_ok_def peer_of_def split: option.splits)
  with qs show ?case by auto
qed simp

lemma distinct_the_ids:
  "\<forall>p\<in>set ps. rp_id p \<noteq> None \<Longrightarrow> distinct (map rp_id ps) \<Longrightarrow> distinct (map (\<lambda>p. the (rp_id p)) ps)"
proof -
  assume a: "\<forall>p\<in>set ps. rp_id p \<noteq> None" and d: "distinct (map rp_id ps)"
  have "inj_on the (set (map rp_id ps))"
  proof (rule inj_onI)
    fix x y assume "x \<in> set (map rp_id ps)" "y \<in> set (map rp_id ps)" "the x = the y"
    with a show "x = y" by (metis (no_types, lifting) imageE list.set_map option.expand)
  qed
  then have "distinct (map the (map rp_id ps))" using d by (simp only: distinct_map)
  then show ?thesis by (simp add: comp_def)
qed


lemma read_config_ok_fields:
  "snd (ReadConfig fmt pip dat) = None \<Longrightarrow>
   raw_listen (fst (ReadConfig fmt pip dat)) \<noteq> None \<and> raw_database (fst (ReadConfig fmt pip dat)) \<noteq> None"
  by (auto simp: ReadConfig_def Let_def split: prod.splits option.splits if_splits)

text \<open>C29. When \<open>ReadConfig\<close> returns no error, its result is a complete configuration
  (no \<open>nil\<close> pointer left) that meets the spec's contract: global and per-peer interval
  and timeout at least 10 ms, every peer with an IP address, and peer ids pairwise
  distinct.\<close>

theorem read_config_contract:
  assumes ok: "snd (ReadConfig fmt pip dat) = None"
  shows "\<exists>c. config_of (fst (ReadConfig fmt pip dat)) = Some c \<and> 10 \<le> cfg_interval c \<and> 10 \<le> cfg_timeout c \<and>
           distinct (map peer_id (cfg_peers c)) \<and>
           (\<forall>p\<in>set (cfg_peers c). 10 \<le> peer_interval p \<and> 10 \<le> peer_timeout p \<and> peer_ip p \<noteq> [])"
proof -
  define iv where "iv = default_clamp (Some 1000) (fst (readInt dat ''Interval''))"
  define to where "to = default_clamp (Some 1000) (fst (readInt dat ''Timeout''))"
  obtain i where i: "iv = Some i" "10 \<le> i" using default_clamp_ge [of 1000] unfolding iv_def by fastforce
  obtain t where t: "to = Some t" "10 \<le> t" using default_clamp_ge [of 1000] unfolding to_def by fastforce
  obtain ps perr where rp: "readPeers fmt dat ''Peers'' = (ps, perr)" by fastforce
  obtain ps2 nerr where np: "normalise_peers pip iv to ps [] = (ps2, nerr)" by fastforce
  obtain la lerr where ls: "readString fmt dat ''ListenAddress'' = (la, lerr)" by fastforce
  let ?R = "fst (ReadConfig fmt pip dat)"
  have e: "perr = None \<and> nerr = None \<and> dup_ids ps2 = None"
    using ok by (auto simp: ReadConfig_def Let_def rp np ls simp flip: iv_def to_def split: if_splits option.splits)
  have f: "raw_peers ?R = ps2 \<and> raw_interval ?R = iv \<and> raw_timeout ?R = to \<and> raw_listen ?R \<noteq> None \<and>
           raw_database ?R \<noteq> None"
    using ok e by (auto simp: ReadConfig_def Let_def rp np ls simp flip: iv_def to_def split: if_splits option.splits)
  have "\<forall>p\<in>set ps2. peer_ok p"
    using normalise_ok [OF i t, of "[]" ps pip ps2] readPeers_addr [of fmt dat "''Peers''" ps] rp np e by simp
  then obtain qs where qs: "those (map peer_of ps2) = Some qs" "map peer_id qs = map (\<lambda>p. the (rp_id p)) ps2"
    "\<forall>q\<in>set qs. 10 \<le> peer_interval q \<and> 10 \<le> peer_timeout q \<and> peer_ip q \<noteq> []"
    and pok: "\<forall>p\<in>set ps2. peer_ok p"
    using those_peer_of by blast
  have "distinct (map (\<lambda>p. the (rp_id p)) ps2)"
  proof (rule distinct_the_ids)
    show "\<forall>p\<in>set ps2. rp_id p \<noteq> None" using pok by (simp add: peer_ok_def)
    show "distinct (map rp_id ps2)" using dup_ids_None e by simp
  qed
  then have d: "distinct (map peer_id qs)" using qs(2) by simp
  obtain l d' where "raw_listen ?R = Some l" "raw_database ?R = Some d'" using f by auto
  then show ?thesis using f qs(1,3) d i t by (auto simp: config_of_def)
qed


lemma go_parse_int_syntax: "snd (go_parse_int s) = Some ErrSyntax \<Longrightarrow> fst (go_parse_int s) = 0"
  by (auto simp: go_parse_int_def Let_def split: if_splits sum.splits num_error.splits)

lemma raw_interval_ReadConfig:
  "raw_interval (fst (ReadConfig fmt pip dat)) = default_clamp (Some 1000) (fst (readInt dat ''Interval''))"
  by (auto simp: ReadConfig_def Let_def split: prod.splits option.splits if_splits)


subsection \<open>The table-driven CRC\<close>

lemma crc_shift_bit: "crc_shift poly c = drop_bit 1 c XOR (if bit c 0 then poly else 0)"
proof -
  have "(c AND 1 = 1) = bit c 0"
    by (metis and_one_eq odd_iff_mod_2_eq_one bit_0 one_mod_2_pow_eq)
  then show ?thesis by (simp add: crc_shift_def)
qed

lemma crc_shift_xor: "crc_shift poly (a XOR b) = crc_shift poly a XOR crc_shift poly b"
  unfolding crc_shift_bit by (rule bit_word_eqI) (auto simp: bit_simps)

lemma crc_shifts_xor: "(crc_shift poly ^^ n) (a XOR b) = (crc_shift poly ^^ n) a XOR (crc_shift poly ^^ n) b"
  by (induction n) (simp_all add: crc_shift_xor)

lemma crc_shifts_high:
  "(\<And>k. k < n \<Longrightarrow> \<not> bit h k) \<Longrightarrow> (crc_shift poly ^^ n) h = drop_bit n h"
proof (induction n)
  case (Suc n)
  have ih: "(crc_shift poly ^^ n) h = drop_bit n h" using Suc by simp
  have nb: "\<not> bit (drop_bit n h) 0" using Suc.prems [of n] by (simp add: bit_drop_bit_eq)
  have "(crc_shift poly ^^ Suc n) h = crc_shift poly ((crc_shift poly ^^ n) h)" by simp
  also have "\<dots> = crc_shift poly (drop_bit n h)" by (simp only: ih)
  also have "\<dots> = drop_bit (Suc n) h" using nb by (simp add: crc_shift_bit drop_bit_drop_bit)
  finally show ?case .
qed simp

lemma split_low_byte:
  "c XOR ucast v = ucast (ucast c XOR v :: 8 word) XOR (c AND NOT (mask 8))"
  by (rule bit_word_eqI) (auto simp: bit_simps)

lemma crc_table_nth:
  "crc_table poly ! unat (w :: 8 word) = (crc_shift poly ^^ 8) (ucast w)"
proof -
  have "unat w < 2 ^ LENGTH(8)" by (rule unsigned_less)
  then have "unat w < 256" by simp
  moreover have "(word_of_nat (unat w) :: 32 word) = ucast w"
    by (rule bit_word_eqI) (auto simp: bit_simps)
  ultimately show ?thesis by (simp add: crc_table_def)
qed

lemma crc_table_step:
  "crc_table poly ! unat (ucast c XOR v :: 8 word) XOR drop_bit 8 c = (crc_shift poly ^^ 8) (c XOR ucast v)"
proof -
  have high: "(crc_shift poly ^^ 8) (c AND NOT (mask 8)) = drop_bit 8 c"
  proof -
    have "(crc_shift poly ^^ 8) (c AND NOT (mask 8)) = drop_bit 8 (c AND NOT (mask 8))"
      by (rule crc_shifts_high) (simp add: bit_simps)
    also have "\<dots> = drop_bit 8 c" by (rule bit_word_eqI) (auto simp: bit_simps dest: bit_imp_le_length)
    finally show ?thesis .
  qed
  show ?thesis
    unfolding split_low_byte [of c v] crc_shifts_xor high crc_table_nth ..
qed


subsection \<open>Types of the values read\<close>

lemma lookup_key_in: "lookup_key m k = Some v \<Longrightarrow> v \<in> snd ` set m"
  by (auto simp: lookup_key_def find_Some_iff image_iff) (metis nth_mem snd_conv)

lemma go_int_of_float_i64: "in_i64 (go_int_of_float f)"
  by (simp add: go_int_of_float_def Let_def in_i64_def)

lemma readInt_typed:
  "jv_type (JMap m) TMap \<Longrightarrow> pred_option in_i64 (fst (readInt m k))"
proof -
  assume "jv_type (JMap m) TMap"
  then have typed: "\<forall>kv\<in>set m. \<exists>t. jv_type (snd kv) t" by (simp add: jv_type_map_simps)
  show ?thesis
  proof (cases "lookup_key m k")
    case (Some v)
    then obtain t where "jv_type v t" using lookup_key_in typed by fastforce
    then show ?thesis using Some go_parse_int_i64 go_int_of_float_i64
      by (cases v) (auto simp: readInt_def in_i64_def jv_type_int_simps)
  qed (simp add: readInt_def)
qed

lemma default_clamp_typed:
  "pred_option in_i64 d \<Longrightarrow> pred_option in_i64 x \<Longrightarrow> pred_option in_i64 (default_clamp d x)"
  by (auto simp: default_clamp_def in_i64_def split: option.split)

lemma peers_loop_typed:
  "\<forall>v\<in>set vs. \<exists>t. jv_type v t \<Longrightarrow> \<forall>p\<in>set acc. rp_typed p \<Longrightarrow>
   \<forall>p\<in>set (fst (peers_loop fmt vs acc)). rp_typed p"
proof (induction vs arbitrary: acc)
  case (Cons v vs)
  have vs: "\<forall>v\<in>set vs. \<exists>t. jv_type v t" using Cons.prems(1) by simp
  show ?case
  proof (cases v)
    case (JString s)
    have "rp_typed (address_peer s)" by (simp add: address_peer_def rp_typed_def)
    then have "\<forall>p\<in>set (acc @ [address_peer s]). rp_typed p" using Cons.prems(2) by simp
    from Cons.IH [OF vs this] show ?thesis using JString by simp
  next
    case (JMap m)
    have "\<exists>t. jv_type (JMap m) t" using Cons.prems(1) JMap by simp
    then have "jv_type (JMap m) TMap" by (simp add: jv_type_map_simps)
    then have r: "pred_option in_i64 (fst (readInt m k))" for k by (rule readInt_typed)
    obtain addr err where rs: "readString fmt m ''Address'' = (addr, err)" by fastforce
    let ?q = "\<lparr>rp_name = fst (readString fmt m ''Name''), rp_address = addr,
               rp_interval = fst (readInt m ''Interval''), rp_timeout = fst (readInt m ''Timeout''),
               rp_id = fst (readInt m ''ID''), rp_ip = []\<rparr>"
    have "rp_typed ?q" using r by (simp add: rp_typed_def)
    then have acc: "\<forall>p\<in>set (acc @ [?q]). rp_typed p" using Cons.prems(2) by simp
    show ?thesis
    proof (cases "err = Some InvalidFormat \<or> err = Some NotFound \<or> addr = None \<or> addr = Some []")
      case True
      then have "fst (peers_loop fmt (v # vs) acc) = acc" using JMap rs by (auto simp: Let_def)
      then show ?thesis using Cons.prems(2) by simp
    next
      case False
      then have "peers_loop fmt (v # vs) acc = peers_loop fmt vs (acc @ [?q])"
        using JMap rs False by (auto simp: Let_def)
      then show ?thesis using Cons.IH [OF vs acc] by simp
    qed
  qed (use Cons.IH [OF vs Cons.prems(2)] in simp_all)
qed simp

lemma readPeers_typed:
  "jv_type (JMap m) TMap \<Longrightarrow> \<forall>p\<in>set (fst (readPeers fmt m n)). rp_typed p"
proof -
  assume typed: "jv_type (JMap m) TMap"
  then have typed': "\<forall>kv\<in>set m. \<exists>t. jv_type (snd kv) t" by (simp add: jv_type_map_simps)
  show ?thesis
  proof (cases "lookup_key m n")
    case (Some v)
    then obtain t where vt: "jv_type v t" using lookup_key_in typed' by fastforce
    show ?thesis
    proof (cases v)
      case (JList vs)
      then show ?thesis using Some vt peers_loop_typed [of vs "[]" fmt] by (simp add: readPeers_def jv_type_slice_simps)
    qed (use Some in \<open>auto simp: readPeers_def address_peer_def rp_typed_def\<close>)
  qed (simp add: readPeers_def)
qed

lemma address_id_i64: "in_i64 (address_id a)"
proof -
  let ?w = "crc_update 0 (crc_table crc_poly) (string_bytes a)"
  have "uint ?w < 4294967296" using uint_lt2p [of ?w] by simp
  moreover have "0 \<le> uint ?w" by simp
  moreover have "- (2 ^ 63) \<le> (0 :: int)" "(4294967296 :: int) \<le> 2 ^ 63" by simp_all
  ultimately show ?thesis unfolding address_id_def in_i64_def by linarith
qed

lemma normalise_typed:
  "pred_option in_i64 iv \<Longrightarrow> pred_option in_i64 to \<Longrightarrow> \<forall>p\<in>set acc. rp_typed p \<Longrightarrow>
   \<forall>p\<in>set ps. rp_typed p \<Longrightarrow> \<forall>p\<in>set (fst (normalise_peers pip iv to ps acc)). rp_typed p"
proof (induction ps arbitrary: acc)
  case (Cons p ps)
  define p1 where "p1 = p\<lparr>rp_interval := default_clamp iv (rp_interval p), rp_timeout := default_clamp to (rp_timeout p)\<rparr>"
  have t1: "rp_typed p1" using Cons.prems default_clamp_typed unfolding p1_def rp_typed_def by simp
  have ps: "\<forall>q\<in>set ps. rp_typed q" using Cons.prems(4) by simp
  have stop: "\<forall>q\<in>set (acc @ p1 # ps). rp_typed q" using Cons.prems(3) t1 ps by auto
  show ?case
  proof (cases "rp_address p")
    case None
    then have "fst (normalise_peers pip iv to (p # ps) acc) = acc @ p1 # ps" by (simp add: p1_def)
    then show ?thesis using stop by simp
  next
    case (Some a)
    show ?thesis
    proof (cases "pip a = []")
      case True
      then have "fst (normalise_peers pip iv to (p # ps) acc) = acc @ p1 # ps" using Some by (simp add: p1_def)
      then show ?thesis using stop by simp
    next
      case False
      define p2 where "p2 = p1\<lparr>rp_ip := pip a, rp_name := (case rp_name p of None \<Rightarrow> Some a | Some n \<Rightarrow> Some n),
                               rp_id := (case rp_id p of None \<Rightarrow> Some (address_id a) | Some i \<Rightarrow> Some i)\<rparr>"
      have t2: "rp_typed p2"
        using t1 address_id_i64 [of a] unfolding p2_def rp_typed_def by (cases "rp_id p") (simp_all add: p1_def)
      have eq: "fst (normalise_peers pip iv to (p # ps) acc) = fst (normalise_peers pip iv to ps (acc @ [p2]))"
        using Some False by (simp add: p1_def p2_def)
      have "\<forall>q\<in>set (acc @ [p2]). rp_typed q" using Cons.prems(3) t2 by simp
      then have "\<forall>q\<in>set (fst (normalise_peers pip iv to ps (acc @ [p2]))). rp_typed q"
        by (rule Cons.IH [OF Cons.prems(1,2) _ ps])
      then show ?thesis by (simp only: eq)
    qed
  qed
qed simp

lemma read_config_typed:
  "jv_type (JMap dat) TMap \<Longrightarrow>
   pred_option in_i64 (raw_interval (fst (ReadConfig fmt pip dat))) \<and>
   pred_option in_i64 (raw_timeout (fst (ReadConfig fmt pip dat))) \<and>
   (\<forall>p\<in>set (raw_peers (fst (ReadConfig fmt pip dat))). rp_typed p)"
proof -
  assume typed: "jv_type (JMap dat) TMap"
  define iv where "iv = default_clamp (Some 1000) (fst (readInt dat ''Interval''))"
  define to where "to = default_clamp (Some 1000) (fst (readInt dat ''Timeout''))"
  have iv: "pred_option in_i64 iv" and to: "pred_option in_i64 to"
    using default_clamp_typed readInt_typed [OF typed] unfolding iv_def to_def by (simp_all add: in_i64_def)
  have ps: "\<forall>p\<in>set (fst (readPeers fmt dat ''Peers'')). rp_typed p" by (rule readPeers_typed [OF typed])
  have ps2: "\<forall>p\<in>set (fst (normalise_peers pip iv to (fst (readPeers fmt dat ''Peers'')) [])). rp_typed p"
    using normalise_typed [OF iv to _ ps, where acc="[]" and pip=pip] by simp
  show ?thesis
    using iv to ps ps2
    by (auto simp: ReadConfig_def Let_def simp flip: iv_def to_def split: prod.splits option.splits if_splits)
qed

lemma those_peer_of_typed:
  "those (map peer_of ps) = Some qs \<Longrightarrow> \<forall>p\<in>set ps. rp_typed p \<Longrightarrow>
   \<forall>q\<in>set qs. in_i64 (peer_interval q) \<and> in_i64 (peer_timeout q) \<and> in_i64 (peer_id q)"
proof (induction ps arbitrary: qs)
  case (Cons p ps)
  then show ?case
    by (auto simp: peer_of_def rp_typed_def split: option.splits)
qed simp


subsection \<open>Examples\<close>

lemmas cfg_eval = ReadConfig_def readInt_def readString_def readPeers_def lookup_key_def equal_fold_def
  ascii_lower_def default_clamp_def Let_def go_int_of_float_def in_i64_def dup_ids_def keep_history_default_def

theorem read_config_contract_witness:
  "\<exists>c. config_of (fst (ReadConfig (\<lambda>_ _. []) (\<lambda>_. [10, 0, 0, 1])
         [(''ListenAddress'', JString '':8000''),
          (''Peers'', JList [JMap [(''Address'', JString ''10.0.0.1''), (''ID'', JFloat64 7)]])])) = Some c \<and>
       10 \<le> cfg_interval c \<and> 10 \<le> cfg_timeout c \<and> distinct (map peer_id (cfg_peers c)) \<and>
       (\<forall>p\<in>set (cfg_peers c). 10 \<le> peer_interval p \<and> 10 \<le> peer_timeout p \<and> peer_ip p \<noteq> [])"
proof (rule read_config_contract)
  show "snd (ReadConfig (\<lambda>_ _. []) (\<lambda>_. [10, 0, 0, 1])
         [(''ListenAddress'', JString '':8000''),
          (''Peers'', JList [JMap [(''Address'', JString ''10.0.0.1''), (''ID'', JFloat64 7)]])]) = None"
    by (simp add: cfg_eval)
qed


abbreviation cfg_ex_dat :: "(string \<times> jvalue) list" where
  "cfg_ex_dat \<equiv> [(''ListenAddress'', JString '':8000''),
                  (''Peers'', JList [JMap [(''Address'', JString ''10.0.0.1''), (''ID'', JFloat64 7)]])]"

abbreviation cfg_ex_peer :: peer where
  "cfg_ex_peer \<equiv> \<lparr>peer_name = ''10.0.0.1'', peer_address = ''10.0.0.1'', peer_interval = 1000,
                   peer_timeout = 1000, peer_id = 7, peer_ip = [10, 0, 0, 1]\<rparr>"


end
