(* ===== verification/Handlers.thy ===== *)
theory Handlers
  imports Complex_Main DataHandler
begin

text \<open>
  The HTTP handlers of \<open>src/icmpmon.go\<close> that compute something: \<open>dataHandler\<close> with
  its parameter parsing in front of \<open>data_series\<close>, and \<open>statsHandler\<close>.
  \<^item> The parsed query string \<open>req.URL.Query()\<close> is an association list of
    \<open>url_values\<close>; \<open>Get\<close> returns the first value of a key or the empty string
    (\<open>query_get\<close>).
  \<^item> \<open>opt_param\<close> is the pattern \<open>if len(str) > 0 { v, err = ParseInt(..); if err
    != nil { 400 } }\<close> that keeps the default \<open>-1\<close> when the parameter is absent.
  \<^item> \<open>statsHandler\<close> asks SQLite for two numbers. \<open>AVG\<close> over no rows and a division
    by a count of zero are \<open>NULL\<close>; gorm's \<open>Scan\<close> of a \<open>NULL\<close> column leaves the
    field of the reused \<open>result\<close> struct as it was (\<open>scan_f\<close>). The uptime query
    divides two integers, so SQLite truncates (\<open>sql_uptime\<close>). Averages are exact
    rationals here; SQLite computes them in floating point.
\<close>

type_synonym url_values = "(string \<times> string) list"

definition query_get :: "url_values \<Rightarrow> string \<Rightarrow> string" where
  "query_get q k = (case map_of q k of None \<Rightarrow> [] | Some v \<Rightarrow> v)"

definition opt_param :: "url_values \<Rightarrow> string \<Rightarrow> int option" where
  "opt_param q k =
     (let s = query_get q k
      in if 0 < length s then (case go_parse_int s of (v, None) \<Rightarrow> Some v | (_, Some _) \<Rightarrow> None)
         else Some (-1))"

definition dataHandler :: "config \<Rightarrow> query list \<Rightarrow> url_values \<Rightarrow> data_reply option" where
  "dataHandler cfg rows q =
     (case go_parse_int (query_get q ''peer'') of
        (_, Some _) \<Rightarrow> Some Http400
      | (pid, None) \<Rightarrow>
          (case opt_param q ''start'' of
             None \<Rightarrow> Some Http400
           | Some start \<Rightarrow>
               (case opt_param q ''stop'' of
                  None \<Rightarrow> Some Http400
                | Some stop \<Rightarrow>
                    (case opt_param q ''max'' of
                       None \<Rightarrow> Some Http400
                     | Some mx \<Rightarrow> data_series cfg rows pid start stop mx))))"

subsection \<open>\<open>statsHandler\<close>\<close>

datatype stats_reply = Stats400 | StatsJson rat rat

definition sql_avg :: "int list \<Rightarrow> rat option" where
  "sql_avg xs = (if xs = [] then None else Some (of_int (sum_list xs) / of_nat (length xs)))"

definition sql_uptime :: "nat \<Rightarrow> nat \<Rightarrow> rat option" where
  "sql_uptime pos cnt = (if cnt = 0 then None else Some (of_nat (pos * 100 div cnt)))"

definition scan_f :: "rat option \<Rightarrow> rat \<Rightarrow> rat" where
  "scan_f v f = (case v of None \<Rightarrow> f | Some x \<Rightarrow> x)"

definition stats_rows :: "int \<Rightarrow> int \<Rightarrow> int \<Rightarrow> query list \<Rightarrow> query list" where
  "stats_rows pid start stop rows =
     (if 0 < start \<and> 0 < stop
      then filter (\<lambda>r. qry_peer_id r = pid \<and> start \<le> qry_time r \<and> qry_time r \<le> stop) rows
      else filter (\<lambda>r. qry_peer_id r = pid) rows)"

definition statsHandler :: "query list \<Rightarrow> url_values \<Rightarrow> stats_reply" where
  "statsHandler rows q =
     (case go_parse_int (query_get q ''peer'') of
        (_, Some _) \<Rightarrow> Stats400
      | (pid, None) \<Rightarrow>
          (case opt_param q ''start'' of
             None \<Rightarrow> Stats400
           | Some start \<Rightarrow>
               (case opt_param q ''stop'' of
                  None \<Rightarrow> Stats400
                | Some stop \<Rightarrow>
                    (let rs = stats_rows pid start stop rows;
                         pos = filter (\<lambda>r. 0 < qry_response_time r) rs;
                         avg = scan_f (sql_avg (map qry_response_time pos)) 0;
                         up = scan_f (sql_uptime (length pos) (length rs)) avg
                     in StatsJson avg up))))"

text \<open>The aggregate the spec asks for: the mean of the positive response times and the
  exact percentage of samples with a positive response time (0 when there are none).\<close>

definition spec_mean :: "query list \<Rightarrow> rat" where
  "spec_mean rs =
     (let ps = filter (\<lambda>r. 0 < qry_response_time r) rs
      in if ps = [] then 0 else of_int (sum_list (map qry_response_time ps)) / of_nat (length ps))"

definition spec_uptime :: "query list \<Rightarrow> rat" where
  "spec_uptime rs =
     (if rs = [] then 0
      else 100 * of_nat (length (filter (\<lambda>r. 0 < qry_response_time r) rs)) / of_nat (length rs))"

subsection \<open>Lemmas on the handlers\<close>

lemma opt_param_string:
  "in_i64 v \<Longrightarrow> query_get q k = int_string v \<Longrightarrow> opt_param q k = Some v"
proof -
  assume v: "in_i64 v" and q: "query_get q k = int_string v"
  have "0 < length (int_string v)" using nat_digits_ne by (simp add: int_string_def)
  then show ?thesis using go_parse_int_string [OF v] q by (simp add: opt_param_def)
qed

lemma respond_max_not_400: "respond_max mx iv pid start ql \<noteq> Http400"
  by (auto simp: respond_max_def Let_def split: prod.splits)

lemma data_series_not_400: "data_series cfg rows pid start stop mx \<noteq> Some Http400"
  using respond_max_not_400 by (auto simp: data_series_def Let_def)

lemma sql_avg_pos: "sql_avg xs = Some a \<Longrightarrow> xs \<noteq> []"
  by (simp add: sql_avg_def split: if_splits)

lemma uptime_le_100: "pos \<le> cnt \<Longrightarrow> pos * 100 div cnt \<le> (100 :: nat)"
proof (cases "cnt = 0")
  case False
  assume "pos \<le> cnt"
  then have "pos * 100 \<le> cnt * 100" by simp
  then have "pos * 100 div cnt \<le> cnt * 100 div cnt" by (rule div_le_mono)
  with False show ?thesis by simp
qed simp

lemma stats_values:
  assumes "go_parse_int (query_get q ''peer'') = (pid, None)"
    and "opt_param q ''start'' = Some s" and "opt_param q ''stop'' = Some t"
  shows "statsHandler rows q =
           (let rs = stats_rows pid s t rows
            in StatsJson (spec_mean rs) (of_nat (length (filter (\<lambda>r. 0 < qry_response_time r) rs) * 100 div length rs)))"
proof -
  let ?rs = "stats_rows pid s t rows"
  let ?pos = "filter (\<lambda>r. 0 < qry_response_time r) ?rs"
  have avg: "scan_f (sql_avg (map qry_response_time ?pos)) 0 = spec_mean ?rs"
    by (simp add: scan_f_def sql_avg_def spec_mean_def Let_def)
  have up: "scan_f (sql_uptime (length ?pos) (length ?rs)) (spec_mean ?rs) = of_nat (length ?pos * 100 div length ?rs)"
    by (cases "?rs = []") (simp_all add: scan_f_def sql_uptime_def spec_mean_def)
  show ?thesis using assms avg up by (simp add: statsHandler_def Let_def)
qed

lemma uptime_floor:
  "(of_nat (pos * 100 div n) :: rat) = of_int \<lfloor>(100 * of_nat pos / of_nat n :: rat)\<rfloor>"
proof -
  have "(100 * of_nat pos / of_nat n :: rat) = of_nat (pos * 100) / of_nat n" by (simp add: mult.commute)
  then show ?thesis by (simp only: floor_divide_of_nat_eq)
qed

subsection \<open>Properties of the handlers\<close>

text \<open>C32. Parameters written in decimal reach the query service unchanged: a request
  whose \<open>peer\<close>, \<open>start\<close>, \<open>stop\<close> and \<open>max\<close> are the decimal text of 64-bit integers
  is answered exactly as \<open>data_series\<close> answers those integers.\<close>

theorem dataHandler_params:
  assumes "in_i64 p" "in_i64 s" "in_i64 t" "in_i64 m"
  shows "dataHandler cfg rows [(''peer'', int_string p), (''start'', int_string s),
                               (''stop'', int_string t), (''max'', int_string m)] =
         data_series cfg rows p s t m"
proof -
  let ?q = "[(''peer'', int_string p), (''start'', int_string s), (''stop'', int_string t), (''max'', int_string m)]"
  have "opt_param ?q ''start'' = Some s" "opt_param ?q ''stop'' = Some t" "opt_param ?q ''max'' = Some m"
    using assms by (simp_all add: opt_param_string query_get_def)
  moreover have "go_parse_int (query_get ?q ''peer'') = (p, None)"
    using go_parse_int_string [OF assms(1)] by (simp add: query_get_def)
  ultimately show ?thesis by (simp add: dataHandler_def)
qed

text \<open>C33. \<open>dataHandler\<close> answers 400 exactly when a parameter is malformed: the
  \<open>peer\<close> parameter (also when it is missing) does not parse as an \<open>int64\<close>, or one of
  \<open>start\<close>, \<open>stop\<close>, \<open>max\<close> is present and does not parse. The query service itself
  never answers 400.\<close>

theorem dataHandler_bad_request:
  "dataHandler cfg rows q = Some Http400 \<longleftrightarrow>
     snd (go_parse_int (query_get q ''peer'')) \<noteq> None \<or> opt_param q ''start'' = None \<or>
     opt_param q ''stop'' = None \<or> opt_param q ''max'' = None"
  using data_series_not_400
  by (auto simp: dataHandler_def split: prod.splits option.splits)

text \<open>C34. The uptime \<open>statsHandler\<close> reports is a whole percentage between 0 and 100,
  whatever the stored rows and the parameters.\<close>

theorem stats_uptime_bounds:
  "case statsHandler rows q of
     Stats400 \<Rightarrow> True
   | StatsJson a u \<Rightarrow> 0 \<le> u \<and> u \<le> 100 \<and> u \<in> \<int>"
proof (cases "statsHandler rows q")
  case (StatsJson a u)
  then obtain pid s t where p: "go_parse_int (query_get q ''peer'') = (pid, None)"
      "opt_param q ''start'' = Some s" "opt_param q ''stop'' = Some t"
    by (auto simp: statsHandler_def split: prod.splits option.splits)
  let ?rs = "stats_rows pid s t rows"
  let ?k = "length (filter (\<lambda>r. 0 < qry_response_time r) ?rs) * 100 div length ?rs"
  have u: "u = of_nat ?k" using StatsJson stats_values [OF p, of rows] by (simp add: Let_def)
  have "?k \<le> 100" by (rule uptime_le_100) simp
  then have "(of_nat ?k :: rat) \<le> 100" by (simp add: of_nat_le_iff [of _ 100, simplified])
  then show ?thesis using StatsJson u by simp
qed simp

text \<open>C35. Against the spec's aggregate: for well-formed parameters \<open>statsHandler\<close>
  returns the mean of the positive response times of the selected rows, and the spec's
  uptime percentage rounded down to a whole number (SQLite divides integers).\<close>

theorem stats_refines_spec:
  assumes "go_parse_int (query_get q ''peer'') = (pid, None)"
    and "opt_param q ''start'' = Some s" and "opt_param q ''stop'' = Some t"
  shows "statsHandler rows q =
           StatsJson (spec_mean (stats_rows pid s t rows)) (of_int \<lfloor>spec_uptime (stats_rows pid s t rows)\<rfloor>)"
  using stats_values [OF assms, of rows] uptime_floor
  by (simp add: Let_def spec_uptime_def)

subsection \<open>Examples\<close>

abbreviation ex_rows :: "query list" where
  "ex_rows \<equiv> [\<lparr>qry_peer_id = 7, qry_response_time = 12, qry_time = 1000\<rparr>,
              \<lparr>qry_peer_id = 7, qry_response_time = -1, qry_time = 2000\<rparr>,
              \<lparr>qry_peer_id = 7, qry_response_time = -1, qry_time = 3000\<rparr>]"

theorem dataHandler_params_witness:
  "in_i64 7 \<and> in_i64 1000 \<and> in_i64 3000 \<and> in_i64 2 \<and>
   dataHandler ex_cfg ex_rows [(''peer'', int_string 7), (''start'', int_string 1000),
                               (''stop'', int_string 3000), (''max'', int_string 2)] =
   data_series ex_cfg ex_rows 7 1000 3000 2"
proof -
  have i: "in_i64 7" "in_i64 1000" "in_i64 3000" "in_i64 2" by (simp_all add: in_i64_def)
  show ?thesis using dataHandler_params [OF i] i by simp
qed

theorem dataHandler_bad_request_witness:
  "dataHandler ex_cfg ex_rows [(''peer'', ''7''), (''max'', ''ten'')] = Some Http400"
proof -
  have "opt_param [(''peer'', ''7''), (''max'', ''ten'')] ''max'' = None"
    by (simp add: opt_param_def query_get_def go_parse_int_def is_digit_def)
  then show ?thesis using dataHandler_bad_request [of ex_cfg ex_rows "[(''peer'', ''7''), (''max'', ''ten'')]"]
    by simp
qed

theorem stats_refines_spec_witness:
  "statsHandler ex_rows [(''peer'', ''7'')] = StatsJson 12 33"
proof -
  have p: "go_parse_int (query_get [(''peer'', ''7'')] ''peer'') = (7, None)"
    by (simp add: query_get_def go_parse_int_def is_digit_def digit_val_def max_uint64_def)
  have s: "opt_param [(''peer'', ''7'')] ''start'' = Some (-1)" "opt_param [(''peer'', ''7'')] ''stop'' = Some (-1)"
    by (simp_all add: opt_param_def query_get_def)
  have r: "stats_rows 7 (-1) (-1) ex_rows = ex_rows" by (simp add: stats_rows_def)
  have m: "spec_mean ex_rows = 12" by (simp add: spec_mean_def)
  have u: "\<lfloor>spec_uptime ex_rows\<rfloor> = 33" by (simp add: spec_uptime_def floor_eq_iff)
  show ?thesis using stats_refines_spec [OF p s] r m u by simp
qed

end
