(* ===== verification/LiveData.thy ===== *)
theory LiveData
  imports Data
begin

unbundle bit_operations_syntax

text \<open>
  \<open>liveDataHandler\<close> of \<open>src/icmpmon.go\<close>, the websocket that streams the samples of
  one peer. A helper goroutine receives one message from the client and puts the peer
  id it reads (\<open>binary.BigEndian.Uint32\<close>, which panics on fewer than four bytes) or
  the receive error into the one-slot channel \<open>offset\<close>; the handler loops over a
  \<open>select\<close> of three arms. The loop is a function over the sequence of arms the
  \<open>select\<close> picks (\<open>live_event\<close>):
  \<^item> \<open>LiveQuit\<close>: a value arrived on its quit channel; it closes the socket and sends
    \<open>true\<close> back, and the \<open>break\<close> only leaves the \<open>select\<close>;
  \<^item> \<open>LiveOffset\<close>: the helper's value; the helper sends once, so the arm is not
    enabled again and a repeated event changes nothing;
  \<^item> \<open>LiveQuery q ok\<close>: a sample from the query channel; it is sent when it belongs to
    the selected peer, and the send fails when the socket is closed or \<open>ok\<close> is false.
  The one message the helper receives is the parameter \<open>r\<close> (\<open>None\<close> is a receive
  error). The state is the record \<open>live_state\<close>: the selected \<open>peerID\<close>, whether the
  helper's value was taken, whether the socket is closed, the acknowledgements sent and
  the samples sent to the client.
\<close>

datatype live_event = LiveQuit | LiveOffset | LiveQuery query bool

datatype live_exit = LiveReturned | LivePanic | LiveRunning

datatype offset_msg = OffsetErr | OffsetPeer "32 word"

record live_state =
  live_peer :: int
  live_offset_taken :: bool
  live_closed :: bool
  live_acks :: nat
  live_sent :: "query list"

definition be_uint32 :: "8 word list \<Rightarrow> 32 word option" where
  "be_uint32 b =
     (if length b < 4 then None
      else Some (ucast (b ! 3) OR push_bit 8 (ucast (b ! 2)) OR push_bit 16 (ucast (b ! 1)) OR
                 push_bit 24 (ucast (b ! 0))))"

definition offset_of :: "8 word list option \<Rightarrow> offset_msg option" where
  "offset_of r = (case r of None \<Rightarrow> Some OffsetErr | Some b \<Rightarrow> map_option OffsetPeer (be_uint32 b))"

definition live_init :: live_state where
  "live_init = \<lparr>live_peer = 0, live_offset_taken = False, live_closed = False, live_acks = 0, live_sent = []\<rparr>"

fun live_loop :: "8 word list option \<Rightarrow> live_event list \<Rightarrow> live_state \<Rightarrow> live_exit \<times> live_state" where
  "live_loop r [] st = (LiveRunning, st)"
| "live_loop r (LiveQuit # evs) st =
     live_loop r evs (st\<lparr>live_closed := True, live_acks := Suc (live_acks st)\<rparr>)"
| "live_loop r (LiveOffset # evs) st =
     (if live_offset_taken st then live_loop r evs st
      else (case offset_of r of
              None \<Rightarrow> (LivePanic, st)
            | Some OffsetErr \<Rightarrow> (LiveReturned, st\<lparr>live_offset_taken := True\<rparr>)
            | Some (OffsetPeer v) \<Rightarrow>
                live_loop r evs (st\<lparr>live_peer := uint v, live_offset_taken := True\<rparr>)))"
| "live_loop r (LiveQuery q ok # evs) st =
     (if qry_peer_id q = live_peer st then
        (if ok \<and> \<not> live_closed st then live_loop r evs (st\<lparr>live_sent := live_sent st @ [q]\<rparr>)
         else (LiveReturned, st))
      else live_loop r evs st)"

definition liveDataHandler :: "8 word list option \<Rightarrow> live_event list \<Rightarrow> live_exit \<times> live_state" where
  "liveDataHandler r evs = live_loop r evs live_init"

definition live_ok :: "live_state \<Rightarrow> bool" where
  "live_ok st \<longleftrightarrow> 0 \<le> live_peer st \<and> live_peer st < 2 ^ 32 \<and>
     (\<forall>q\<in>set (live_sent st). 0 \<le> qry_peer_id q \<and> qry_peer_id q < 2 ^ 32)"

subsection \<open>Lemmas\<close>

lemma uint32_range: "0 \<le> uint (v :: 32 word) \<and> uint v < 2 ^ 32"
  using uint_lt2p [of v] by simp

lemma live_loop_ok: "live_ok st \<Longrightarrow> live_ok (snd (live_loop r evs st))"
proof (induction r evs st rule: live_loop.induct)
  case (3 r evs st)
  then show ?case
    using uint32_range
    by (auto simp: live_ok_def split: option.splits offset_msg.splits)
next
  case (4 r q ok evs st)
  then show ?case by (auto simp: live_ok_def)
qed (simp_all add: live_ok_def)

lemma live_ok_init: "live_ok live_init"
  by (simp add: live_ok_def live_init_def)

subsection \<open>Properties of \<open>liveDataHandler\<close>\<close>

text \<open>C36. Only samples of peers whose id is a 32-bit unsigned number ever reach a
  websocket client: the id the client selects is read as a \<open>uint32\<close>, so a peer
  configured with a negative id or one of \<open>2^32\<close> or more can never be watched live.\<close>

theorem live_forwards_uint32_ids:
  "\<forall>q\<in>set (live_sent (snd (liveDataHandler r evs))). 0 \<le> qry_peer_id q \<and> qry_peer_id q < 2 ^ 32"
  using live_loop_ok [OF live_ok_init, of r evs] by (simp add: liveDataHandler_def live_ok_def)

text \<open>A first client message shorter than four bytes makes
  \<open>binary.BigEndian.Uint32\<close> panic in the helper goroutine, which ends the whole
  process.\<close>

lemma live_short_offset_panics:
  "length b < 4 \<Longrightarrow> fst (liveDataHandler (Some b) (LiveOffset # evs)) = LivePanic"
  by (simp add: liveDataHandler_def live_init_def offset_of_def be_uint32_def)

text \<open>C38. The handler does not stop on the shutdown signal: after any number of values
  on its quit channel (the signal, then its own acknowledgements read back) it is still
  running and has acknowledged every one of them.\<close>

theorem live_quit_keeps_running:
  "fst (live_loop r (replicate n LiveQuit) st) = LiveRunning \<and>
   live_acks (snd (live_loop r (replicate n LiveQuit) st)) = live_acks st + n"
proof (induction n arbitrary: st)
  case (Suc n)
  then show ?case by simp
qed simp

text \<open>C39. While the socket is open and sends succeed, the handler forwards exactly the
  samples of the selected peer, in the order the query channel delivers them.\<close>

theorem live_forwards_in_order:
  "\<not> live_closed st \<Longrightarrow>
   live_loop r (map (\<lambda>q. LiveQuery q True) qs) st =
     (LiveRunning, st\<lparr>live_sent := live_sent st @ filter (\<lambda>q. qry_peer_id q = live_peer st) qs\<rparr>)"
proof (induction qs arbitrary: st)
  case (Cons q qs)
  then show ?case by simp
qed simp

subsection \<open>Examples\<close>

abbreviation ex_sample :: "int \<Rightarrow> query" where
  "ex_sample p \<equiv> \<lparr>qry_peer_id = p, qry_response_time = 12, qry_time = 1000\<rparr>"

theorem live_forwards_uint32_ids_witness:
  "live_sent (snd (liveDataHandler (Some [0, 0, 0, 7]) [LiveOffset, LiveQuery (ex_sample 7) True])) = [ex_sample 7] \<and>
   0 \<le> qry_peer_id (ex_sample 7) \<and> qry_peer_id (ex_sample 7) < 2 ^ 32"
proof -
  have "be_uint32 [0, 0, 0, 7] = Some 7" by (simp add: be_uint32_def)
  then have s: "live_sent (snd (liveDataHandler (Some [0, 0, 0, 7]) [LiveOffset, LiveQuery (ex_sample 7) True])) = [ex_sample 7]"
    by (simp add: liveDataHandler_def live_init_def offset_of_def)
  have "0 \<le> qry_peer_id (ex_sample 7) \<and> qry_peer_id (ex_sample 7) < (2 :: int) ^ 32"
    using live_forwards_uint32_ids [of "Some [0, 0, 0, 7]" "[LiveOffset, LiveQuery (ex_sample 7) True]"]
    unfolding s by simp
  with s show ?thesis by simp
qed

theorem live_forwards_in_order_witness:
  "live_loop None (map (\<lambda>q. LiveQuery q True) [ex_sample 0, ex_sample 5, ex_sample 0]) live_init =
     (LiveRunning, live_init\<lparr>live_sent := [ex_sample 0, ex_sample 0]\<rparr>)"
  using live_forwards_in_order [of live_init None "[ex_sample 0, ex_sample 5, ex_sample 0]"]
  by (simp add: live_init_def)

end
