(* ===== verification/WebServer.thy ===== *)
theory WebServer
  imports Handlers LiveData
begin

text \<open>
  The web front of \<open>src/icmpmon.go\<close>: \<open>assetHandler\<close>, \<open>peersHandler\<close> and the
  request multiplexer \<open>webServer\<close> builds.
  \<^item> The embedded assets (the generated \<open>Asset\<close>/\<open>AssetNames\<close>, not under \<open>src/\<close>) are
    the parameters \<open>assets\<close> and \<open>names\<close>; \<open>mime.TypeByExtension\<close> is the parameter
    \<open>mime\<close>; \<open>path.Ext\<close> is \<open>path_ext\<close>.
  \<^item> \<open>http.ServeMux\<close> is an association list from patterns to the handler they name
    (\<open>route\<close>). \<open>HandleFunc\<close> panics when a pattern is registered twice
    (\<open>mux_handle\<close>); a request is served by the exact pattern of its path, else by the
    longest registered pattern ending in \<open>/\<close> that is a prefix of it (\<open>mux_match\<close>).
  \<^item> \<open>webServer\<close> registers \<open>/\<close>, one pattern per asset, and the four API paths, in
    this order (\<open>webServer_mux\<close>); \<open>None\<close> is the panic.
  \<^item> The goroutine serving the requests and the shutdown \<open>select\<close> are the step
    relation \<open>web_step\<close>.
\<close>

datatype route = RAsset | RData | RStats | RPeers | RLive

datatype asset_reply = Asset404 | Asset200 string "8 word list"

fun strip_slashes :: "string \<Rightarrow> string" where
  "strip_slashes [] = []"
| "strip_slashes (c # cs) = (if c = CHR ''/'' then strip_slashes cs else c # cs)"

definition path_ext :: "string \<Rightarrow> string" where
  "path_ext p =
     (let seg = takeWhile (\<lambda>c. c \<noteq> CHR ''/'') (rev p)
      in if CHR ''.'' \<in> set seg then CHR ''.'' # rev (takeWhile (\<lambda>c. c \<noteq> CHR ''.'') seg) else [])"

definition asset_file :: "string \<Rightarrow> string" where
  "asset_file p = (let f = strip_slashes p in if length f = 0 \<or> f = [] then ''index.html'' else f)"

definition assetHandler ::
  "(string \<Rightarrow> 8 word list option) \<Rightarrow> (string \<Rightarrow> string) \<Rightarrow> string \<Rightarrow> asset_reply"
where
  "assetHandler assets mime p =
     (let f = asset_file p
      in case assets f of
           None \<Rightarrow> Asset404
         | Some b \<Rightarrow> Asset200 (mime (path_ext f)) b)"

definition peersHandler :: "config \<Rightarrow> peer list" where
  "peersHandler cfg = cfg_peers cfg"

definition mux_handle :: "(string \<times> route) list option \<Rightarrow> string \<times> route \<Rightarrow> (string \<times> route) list option" where
  "mux_handle m pr =
     (case m of
        None \<Rightarrow> None
      | Some ps \<Rightarrow> (if fst pr \<in> fst ` set ps then None else Some (ps @ [pr])))"

definition webServer_patterns :: "string list \<Rightarrow> (string \<times> route) list" where
  "webServer_patterns names =
     [(''/'', RAsset)] @ map (\<lambda>a. (''/'' @ a, RAsset)) names @
     [(''/data'', RData), (''/stats'', RStats), (''/peers'', RPeers), (''/livedata'', RLive)]"

definition webServer_mux :: "string list \<Rightarrow> (string \<times> route) list option" where
  "webServer_mux names = foldl mux_handle (Some []) (webServer_patterns names)"

definition mux_match :: "(string \<times> route) list \<Rightarrow> string \<Rightarrow> route option" where
  "mux_match ps path =
     (case map_of ps path of
        Some r \<Rightarrow> Some r
      | None \<Rightarrow>
          (let cands = filter (\<lambda>(pat, r). pat \<noteq> [] \<and> last pat = CHR ''/'' \<and> take (length pat) path = pat) ps
           in if cands = [] then None
              else Some (snd (last (sort_key (\<lambda>(pat, r). length pat) cands)))))"

definition api_route :: "string \<Rightarrow> route" where
  "api_route p =
     (if p = ''/data'' then RData else if p = ''/stats'' then RStats
      else if p = ''/peers'' then RPeers else if p = ''/livedata'' then RLive else RAsset)"

text \<open>Shutdown of \<open>webServer\<close>: the goroutine running \<open>server.ListenAndServe()\<close> and the
  final \<open>select\<close> on the quit channel, with main's two operations on that channel
  (\<open>SignalQuit\<close>'s send and \<open>WaitForCleanup\<close>'s receive), as the step relation
  \<open>web_step ok\<close>, where \<open>ok\<close> says whether the listen address could be bound. The state
  counts the values buffered in the quit channel (capacity 2) and records which of the
  operations have happened; \<open>ListenAndServe\<close> returns an error at once when it cannot
  listen, and \<open>http.ErrServerClosed\<close> once the server is closed; the goroutine passes
  any error to \<open>log.Panic\<close>, which ends the process, so no step follows a panic.\<close>

datatype serve_error = ErrServerClosed | ErrListen

record web_state =
  web_quit :: nat
  web_signalled :: bool
  web_got :: bool
  web_closed :: bool
  web_acked :: bool
  web_serving :: bool
  web_panic :: "serve_error option"

definition web_init :: web_state where
  "web_init = \<lparr>web_quit = 0, web_signalled = False, web_got = False, web_closed = False,
               web_acked = False, web_serving = True, web_panic = None\<rparr>"

inductive web_step :: "bool \<Rightarrow> web_state \<Rightarrow> web_state \<Rightarrow> bool" for ok :: bool where
  web_signal:
    "web_panic s = None \<Longrightarrow> \<not> web_signalled s \<Longrightarrow> web_quit s < 2 \<Longrightarrow>
     web_step ok s (s\<lparr>web_quit := Suc (web_quit s), web_signalled := True\<rparr>)"
| web_quit_recv:
    "web_panic s = None \<Longrightarrow> \<not> web_closed s \<Longrightarrow> 0 < web_quit s \<Longrightarrow>
     web_step ok s (s\<lparr>web_quit := web_quit s - 1, web_closed := True\<rparr>)"
| web_ack:
    "web_panic s = None \<Longrightarrow> web_closed s \<Longrightarrow> \<not> web_acked s \<Longrightarrow> web_quit s < 2 \<Longrightarrow>
     web_step ok s (s\<lparr>web_quit := Suc (web_quit s), web_acked := True\<rparr>)"
| web_main_recv:
    "web_panic s = None \<Longrightarrow> web_signalled s \<Longrightarrow> \<not> web_got s \<Longrightarrow> 0 < web_quit s \<Longrightarrow>
     web_step ok s (s\<lparr>web_quit := web_quit s - 1, web_got := True\<rparr>)"
| web_serve_fail:
    "web_panic s = None \<Longrightarrow> web_serving s \<Longrightarrow> \<not> ok \<Longrightarrow>
     web_step ok s (s\<lparr>web_serving := False, web_panic := Some ErrListen\<rparr>)"
| web_serve_closed:
    "web_panic s = None \<Longrightarrow> web_serving s \<Longrightarrow> ok \<Longrightarrow> web_closed s \<Longrightarrow>
     web_step ok s (s\<lparr>web_serving := False, web_panic := Some ErrServerClosed\<rparr>)"

definition web_inv :: "web_state \<Rightarrow> bool" where
  "web_inv s \<longleftrightarrow> (web_serving s \<longleftrightarrow> web_panic s = None)"

abbreviation web_closed_state :: web_state where
  "web_closed_state \<equiv> \<lparr>web_quit = 0, web_signalled = True, web_got = False, web_closed = True,
                        web_acked = False, web_serving = True, web_panic = None\<rparr>"

subsection \<open>Lemmas on the multiplexer\<close>

lemma foldl_mux_None: "foldl mux_handle None ps = None"
  by (induction ps) (simp_all add: mux_handle_def)

lemma foldl_mux_handle:
  "distinct (map fst acc) \<Longrightarrow> foldl mux_handle (Some acc) ps =
     (if distinct (map fst (acc @ ps)) then Some (acc @ ps) else None)"
proof (induction ps arbitrary: acc)
  case (Cons p ps)
  show ?case
  proof (cases "fst p \<in> fst ` set acc")
    case True
    then have "mux_handle (Some acc) p = None" by (simp add: mux_handle_def)
    then show ?thesis using True by (simp add: foldl_mux_None)
  next
    case False
    then show ?thesis using Cons.IH [of "acc @ [p]"] Cons.prems by (simp add: mux_handle_def)
  qed
qed simp

lemma webServer_mux_eq:
  "webServer_mux names =
     (if distinct (map fst (webServer_patterns names)) then Some (webServer_patterns names) else None)"
  by (simp add: webServer_mux_def foldl_mux_handle)

lemma webServer_patterns_routes:
  "(pat, r) \<in> set (webServer_patterns names) \<Longrightarrow> r \<noteq> RAsset \<Longrightarrow> pat = ''/data'' \<or> pat = ''/stats'' \<or> pat = ''/peers'' \<or> pat = ''/livedata''"
  by (auto simp: webServer_patterns_def)

lemma mux_match_asset_fallback:
  assumes root: "(''/'', RAsset) \<in> set ps"
    and api: "\<And>pat r. (pat, r) \<in> set ps \<Longrightarrow> r \<noteq> RAsset \<Longrightarrow> last pat \<noteq> CHR ''/''"
    and p: "take 1 p = ''/''" and none: "map_of ps p = None"
  shows "mux_match ps p = Some RAsset"
proof -
  define c where "c = filter (\<lambda>(pat, r). pat \<noteq> [] \<and> last pat = CHR ''/'' \<and> take (length pat) p = pat) ps"
  have mem: "(''/'', RAsset) \<in> set c"
    unfolding c_def using root p by (simp only: set_filter mem_Collect_eq) simp
  then have ne: "c \<noteq> []" by (cases c) simp_all
  have all: "\<forall>x\<in>set c. snd x = RAsset"
    unfolding c_def using api by fastforce
  have "last (sort_key (\<lambda>(pat, r). length pat) c) \<in> set c"
    using ne by (metis last_in_set length_0_conv length_sort set_sort)
  then have "snd (last (sort_key (\<lambda>(pat, r). length pat) c)) = RAsset" using all by blast
  then show ?thesis using ne none unfolding mux_match_def Let_def c_def [symmetric] by simp
qed

lemma api_route_pattern:
  "api_route p \<noteq> RAsset \<Longrightarrow> (p, api_route p) \<in> set (webServer_patterns names)"
  by (auto simp: webServer_patterns_def api_route_def split: if_splits)

lemma webServer_mux_panics:
  "webServer_mux names = None \<longleftrightarrow>
     \<not> distinct names \<or> (\<exists>a\<in>set names. a = [] \<or> a = ''data'' \<or> a = ''stats'' \<or> a = ''peers'' \<or> a = ''livedata'')"
proof -
  have inj: "inj (\<lambda>a. CHR ''/'' # a)" by (simp add: inj_def)
  have "map fst (webServer_patterns names) =
        ''/'' # map (\<lambda>a. CHR ''/'' # a) names @ [''/data'', ''/stats'', ''/peers'', ''/livedata'']"
    by (simp add: webServer_patterns_def comp_def)
  then show ?thesis
    using inj by (auto simp: webServer_mux_eq distinct_map inj_on_def)
qed



subsection \<open>Shutdown of the web server\<close>

lemma web_step_inv: "web_step ok s t \<Longrightarrow> web_inv s \<Longrightarrow> web_inv t"
  by (induction rule: web_step.induct) (auto simp: web_inv_def)

lemma web_reach_inv: "(web_step ok)\<^sup>*\<^sup>* web_init s \<Longrightarrow> web_inv s"
proof (induction rule: rtranclp_induct)
  case base
  then show ?case by (simp add: web_inv_def web_init_def)
next
  case (step t u)
  then show ?case using web_step_inv by blast
qed

lemma web_run_close: "(web_step True)\<^sup>*\<^sup>* web_init web_closed_state"
proof -
  have s1: "web_step True web_init (web_init\<lparr>web_quit := 1, web_signalled := True\<rparr>)"
    using web_signal [of web_init True] by (simp add: web_init_def)
  have s2: "web_step True (web_init\<lparr>web_quit := 1, web_signalled := True\<rparr>) web_closed_state"
    using web_quit_recv [of "web_init\<lparr>web_quit := 1, web_signalled := True\<rparr>" True] by (simp add: web_init_def)
  from s1 s2 show ?thesis by (meson converse_rtranclp_into_rtranclp rtranclp.rtrancl_refl)
qed



end
