(* ===== verification/Startup.thy ===== *)
theory Startup
  imports Config
begin

text \<open>
  Process start-up in \<open>src/icmpmon.go\<close>: \<open>init\<close> declares the flags and \<open>main\<close> checks
  them, reads the configuration, opens the store and both raw sockets and starts the
  goroutines. \<open>flag.Parse\<close> is the library's: its result is the record \<open>flags\<close>,
  whose defaults are those \<open>init\<close> declares (\<open>init_flags\<close>). The outcomes of the calls
  into the operating system are the record \<open>main_env\<close>: the decoded configuration file
  (\<open>None\<close> when \<open>ioutil.ReadFile\<close> or \<open>hjson.Unmarshal\<close> fails), whether \<open>NewDB\<close>
  and the two \<open>icmp.ListenPacket\<close> calls succeed. \<open>os.Exit\<close> and \<open>log.Fatal\<close> end the
  process with a status (\<open>MainExit\<close>; \<open>log.Fatal\<close> exits with 1, a panic with 2);
  otherwise \<open>main\<close> has started the goroutines listed in \<open>MainRunning\<close>, in the order of
  the \<open>go\<close> statements.
\<close>

record flags =
  fl_config :: string
  fl_help :: bool
  fl_version :: bool
  fl_args :: "string list"

record main_env =
  env_file :: "(string \<times> jvalue) list option"
  env_db_ok :: bool
  env_listen4_ok :: bool
  env_listen6_ok :: bool

datatype goroutine = GWebServer string | GCollector | GReadListener int | GPingRoutine raw_peer

datatype main_outcome = MainExit nat | MainRunning "goroutine list"

definition init_flags :: flags where
  "init_flags = \<lparr>fl_config = ''config.hjson'', fl_help = False, fl_version = False, fl_args = []\<rparr>"

definition first_arg_is :: "flags \<Rightarrow> string \<Rightarrow> bool" where
  "first_arg_is fs a \<longleftrightarrow> 0 < length (fl_args fs) \<and> hd (fl_args fs) = a"

definition NewDB :: "bool \<Rightarrow> string \<Rightarrow> (unit + string)" where
  "NewDB ok file = (if ok then Inr file else Inl ())"

definition main_start ::
  "(nat \<Rightarrow> rat \<Rightarrow> string) \<Rightarrow> (string \<Rightarrow> ip) \<Rightarrow> flags \<Rightarrow> main_env \<Rightarrow> main_outcome"
where
  "main_start fmt pip fs env =
     (if fl_version fs \<or> first_arg_is fs ''version'' then MainExit 0
      else if length (fl_config fs) \<le> 0 \<or> fl_help fs \<or> first_arg_is fs ''help'' then
        (if length (fl_config fs) \<le> 0 then MainExit 1 else MainExit 0)
      else
        (case env_file env of
           None \<Rightarrow> MainExit 1
         | Some dat \<Rightarrow>
             (let (c, err) = ReadConfig fmt pip dat
              in if err \<noteq> None then MainExit 1
                 else if raw_peers c = [] then MainExit 1
                 else (case raw_database c of
                         None \<Rightarrow> MainExit 2
                       | Some file \<Rightarrow>
                           (case NewDB (env_db_ok env) file of
                              Inl _ \<Rightarrow> MainExit 1
                            | Inr _ \<Rightarrow>
                                if \<not> env_listen4_ok env then MainExit 1
                                else if \<not> env_listen6_ok env then MainExit 1
                                else (case raw_listen c of
                                        None \<Rightarrow> MainExit 2
                                      | Some addr \<Rightarrow>
                                          MainRunning (GWebServer addr # GCollector # GReadListener 4 #
                                                       GReadListener 6 # map GPingRoutine (raw_peers c))))))))"

text \<open>The goroutines that subscribe to the shutdown broadcaster when they start: all of
  them (\<open>webServer\<close>, \<open>collector\<close>, \<open>readListener\<close> and \<open>pingRoutine\<close> each call
  \<open>quitChannel.Add()\<close> first).\<close>

definition quit_subscribers :: "main_outcome \<Rightarrow> nat" where
  "quit_subscribers out = (case out of MainExit _ \<Rightarrow> 0 | MainRunning gs \<Rightarrow> length gs)"

subsection \<open>Lemmas\<close>

lemma main_start_default_flags:
  "env_file env = Some dat \<Longrightarrow>
   main_start fmt pip init_flags env =
     (let (c, err) = ReadConfig fmt pip dat
      in if err \<noteq> None then MainExit 1
         else if raw_peers c = [] then MainExit 1
         else (case raw_database c of
                 None \<Rightarrow> MainExit 2
               | Some file \<Rightarrow>
                   (case NewDB (env_db_ok env) file of
                      Inl _ \<Rightarrow> MainExit 1
                    | Inr _ \<Rightarrow>
                        if \<not> env_listen4_ok env then MainExit 1
                        else if \<not> env_listen6_ok env then MainExit 1
                        else (case raw_listen c of
                                None \<Rightarrow> MainExit 2
                              | Some addr \<Rightarrow>
                                  MainRunning (GWebServer addr # GCollector # GReadListener 4 #
                                               GReadListener 6 # map GPingRoutine (raw_peers c))))))"
  by (simp add: main_start_def init_flags_def first_arg_is_def)

lemma main_start_running:
  assumes "env_file env = Some dat" and "snd (ReadConfig fmt pip dat) = None"
    and "raw_peers (fst (ReadConfig fmt pip dat)) \<noteq> []"
    and "env_db_ok env" "env_listen4_ok env" "env_listen6_ok env"
  shows "\<exists>addr. main_start fmt pip init_flags env =
           MainRunning (GWebServer addr # GCollector # GReadListener 4 # GReadListener 6 #
                        map GPingRoutine (raw_peers (fst (ReadConfig fmt pip dat))))"
proof -
  obtain c where c: "ReadConfig fmt pip dat = (c, None)" using assms(2) by (cases "ReadConfig fmt pip dat") simp
  obtain l d where "raw_listen c = Some l" "raw_database c = Some d"
    using read_config_ok_fields [of fmt pip dat] c by auto
  then show ?thesis using assms c by (simp add: main_start_default_flags NewDB_def)
qed

lemma main_subscribers:
  assumes "env_file env = Some dat" and "snd (ReadConfig fmt pip dat) = None"
    and "raw_peers (fst (ReadConfig fmt pip dat)) \<noteq> []"
    and "env_db_ok env" "env_listen4_ok env" "env_listen6_ok env"
  shows "quit_subscribers (main_start fmt pip init_flags env) = 4 + length (raw_peers (fst (ReadConfig fmt pip dat)))"
  using main_start_running [OF assms] by (auto simp: quit_subscribers_def)

text \<open>C28. A configuration file without a \<open>ListenAddress\<close> key stops the monitor at start-up:
  \<open>ReadConfig\<close> substitutes the default \<open>:8000\<close> but returns the "not found" error of
  \<open>readString\<close>, and \<open>main\<close> exits with status 1 before it starts any goroutine. The
  default is never used.\<close>

theorem main_rejects_missing_listen:
  "env_file env = Some dat \<Longrightarrow> lookup_key dat ''ListenAddress'' = None \<Longrightarrow>
   main_start fmt pip init_flags env = MainExit 1"
  using listen_address_required [of dat fmt pip]
  by (auto simp: main_start_default_flags split: prod.splits)

subsection \<open>Examples\<close>

theorem main_rejects_missing_listen_witness:
  "main_start (\<lambda>_ _. []) (\<lambda>_. [10, 0, 0, 1]) init_flags
     \<lparr>env_file = Some [(''Peers'', JString ''10.0.0.1'')], env_db_ok = True, env_listen4_ok = True,
      env_listen6_ok = True\<rparr> = MainExit 1"
proof -
  have "lookup_key [(''Peers'', JString ''10.0.0.1'')] ''ListenAddress'' = None"
    by (simp add: lookup_key_def equal_fold_def ascii_lower_def)
  then show ?thesis by (intro main_rejects_missing_listen) simp_all
qed

end
