(* ===== verification/EndToEnd.thy ===== *)
theory EndToEnd
  imports Collector Scheduler
begin

text \<open>
  The measurement path across components: \<open>ping\<close> (theory \<open>Scheduler\<close>) writes an echo
  request and enqueues its \<open>Request\<close>; the peer answers as RFC 792 requires
  (\<open>peer_echo\<close>: an echo reply with the identifier, sequence number and data of the
  request); \<open>readListener\<close>'s receive step (theory \<open>Transport\<close>) turns the reply into a
  \<open>Response\<close>; and the \<open>collector\<close> (theory \<open>Collector\<close>) takes the request and then
  the response from the \<open>messages\<close> channel, in the order they were sent.
\<close>

definition peer_echo :: "8 word list \<Rightarrow> 8 word list option" where
  "peer_echo bytes =
     (case icmp_parse 1 bytes of
        Some m \<Rightarrow>
          (case msg_body m of
             EchoBody e \<Rightarrow>
               (if msg_type m = V4Type 8
                then Some (icmp_marshal \<lparr>msg_type = V4Type 0, msg_code = msg_code m, msg_checksum = 0,
                                         msg_body = EchoBody e\<rparr>)
                else None)
           | OtherBody _ \<Rightarrow> None)
      | None \<Rightarrow> None)"

subsection \<open>Lemmas\<close>

lemma parse_marshal_echo:
  assumes t: "echo_type ty" and ty: "proto_of ty = 1"
    and e: "0 \<le> echo_id e" "echo_id e < 65536" "0 \<le> echo_seq e" "echo_seq e < 65536"
    and c: "0 \<le> c" "c < 256"
  shows "\<exists>cs. icmp_parse 1 (icmp_marshal \<lparr>msg_type = ty, msg_code = c, msg_checksum = k, msg_body = EchoBody e\<rparr>) =
               Some \<lparr>msg_type = ty, msg_code = c, msg_checksum = cs, msg_body = EchoBody e\<rparr>"
proof -
  let ?m = "\<lparr>msg_type = ty, msg_code = c, msg_checksum = k, msg_body = EchoBody e\<rparr>"
  have "map_option (\<lambda>m'. (msg_type m', msg_code m', msg_body m')) (icmp_parse (proto_of ty) (icmp_marshal ?m)) =
        Some (ty, c, EchoBody e)"
    using icmp_roundtrip [of ?m e] t e c by simp
  then obtain m' where "icmp_parse 1 (icmp_marshal ?m) = Some m'" "msg_type m' = ty" "msg_code m' = c"
    "msg_body m' = EchoBody e"
    using ty by auto
  then show ?thesis by (intro exI [of _ "msg_checksum m'"]) (cases m', simp)
qed

lemma peer_echo_request:
  assumes "0 \<le> q" "q < 65536"
  shows "peer_echo (icmp_marshal (echo_request True i q)) =
           Some (icmp_marshal \<lparr>msg_type = V4Type 0, msg_code = 0, msg_checksum = 0,
                               msg_body = EchoBody \<lparr>echo_id = i AND 0xffff, echo_seq = q, echo_data = []\<rparr>\<rparr>)"
proof -
  have r: "0 \<le> i AND 0xffff" "i AND 0xffff < 65536" using pid_id_range [of i] by simp_all
  obtain cs where
    "icmp_parse 1 (icmp_marshal (echo_request True i q)) =
       Some \<lparr>msg_type = V4Type 8, msg_code = 0, msg_checksum = cs,
             msg_body = EchoBody \<lparr>echo_id = i AND 0xffff, echo_seq = q, echo_data = []\<rparr>\<rparr>"
    using parse_marshal_echo [of "V4Type 8" "\<lparr>echo_id = i AND 0xffff, echo_seq = q, echo_data = []\<rparr>" 0 0] r assms
    by (auto simp: echo_request_def echo_type_def proto_of_def)
  then show ?thesis by (simp add: peer_echo_def)
qed

lemma listener_recv_reply:
  assumes "0 \<le> i" "i < 65536" "0 \<le> q" "q < 65536"
  shows "listener_recv (V4Type 0)
           (icmp_marshal \<lparr>msg_type = V4Type 0, msg_code = 0, msg_checksum = 0,
                          msg_body = EchoBody \<lparr>echo_id = i, echo_seq = q, echo_data = d\<rparr>\<rparr>) a zone t =
         Some \<lparr>resp_id = q, resp_ip = remote_ip a zone, resp_time = unix_millis t\<rparr>"
proof -
  obtain cs where
    "icmp_parse 1 (icmp_marshal \<lparr>msg_type = V4Type 0, msg_code = 0, msg_checksum = 0,
                                 msg_body = EchoBody \<lparr>echo_id = i, echo_seq = q, echo_data = d\<rparr>\<rparr>) =
       Some \<lparr>msg_type = V4Type 0, msg_code = 0, msg_checksum = cs,
             msg_body = EchoBody \<lparr>echo_id = i, echo_seq = q, echo_data = d\<rparr>\<rparr>"
    using parse_marshal_echo [of "V4Type 0" "\<lparr>echo_id = i, echo_seq = q, echo_data = d\<rparr>" 0 0] assms
    by (auto simp: echo_type_def proto_of_def)
  then show ?thesis by (simp add: listener_recv_def ProtocolICMP_def)
qed


subsection \<open>Examples\<close>


end
