(* ===== verification/Spec2Isabelle.thy ===== *)
theory Spec2Isabelle
  imports Collector DataHandler Scheduler QuitChannel Config Handlers LiveData WebServer Startup EndToEnd
begin

text \<open>
  \<^bold>\<open>A verification development of icmpmon\<close> (the Go sources under \<open>src/\<close>).

  icmpmon pings a configured set of peers, matches echo replies to the probes that
  caused them, stores one latency sample per probe (\<open>-1\<close> for a loss) and serves the
  series over HTTP. Its parts and how they interact: one \<open>pingRoutine\<close> per peer calls
  \<open>ping\<close>, which takes the next sequence number, enqueues a \<open>Request\<close> on the
  \<open>messages\<close> ring channel and writes an ICMP echo request to the raw socket of the
  peer's family; one \<open>readListener\<close> per family turns echo replies into
  \<open>Response\<close>s on the same channel; the single \<open>collector\<close> goroutine matches
  responses to pending requests, times requests out once a second, stores samples and
  publishes them on the live \<open>QueryChannel\<close>; the web server routes \<open>/data\<close>
  (\<open>dataHandler\<close>: stored samples, gap-filled and downsampled), \<open>/stats\<close>,
  \<open>/peers\<close>, \<open>/livedata\<close> (a websocket fed from the \<open>QueryChannel\<close>) and the
  embedded assets. \<open>main\<close> reads the configuration, starts all of these goroutines,
  and on an interrupt broadcasts the shutdown over the \<open>QuitChannel\<close> they all
  subscribed to.

  \<^bold>\<open>Theories and the code they model.\<close>
  \<^item> \<open>Prelude\<close>: Go \<open>int64\<close> arithmetic with wrap-around (\<open>wrap64\<close>, \<open>add64\<close>,
    \<open>sub64\<close>, \<open>mul64\<close>), truncating division (\<open>go_quot\<close>), the millisecond clock stamp
    (\<open>unix_millis\<close>), the slice idioms (\<open>remove_at\<close>, \<open>slice_copy\<close> with the
    memmove semantics of \<open>copy\<close>, \<open>lastn\<close>), and decimal integers as \<open>strconv\<close>
    reads and prints them (\<open>go_parse_int\<close> with its syntax and range errors,
    \<open>int_string\<close>), with the lemma collection \<open>go_simps\<close>.
  \<^item> \<open>Data\<close>: the records of \<open>src/data.go\<close> and \<open>src/config.go\<close> (\<open>Query\<close>,
    \<open>Request\<close>, \<open>Response\<close>, \<open>Peer\<close>, \<open>Config\<close>) and the \<open>message\<close> sum type of
    the \<open>messages\<close> channel.
  \<^item> \<open>QueryChannel\<close>: \<open>src/querychannel.go\<close> and the drop-oldest \<open>RingChannel\<close> it
    is built from (a library type, modelled from its contract).
  \<^item> \<open>Collector\<close>: \<open>collector()\<close> and \<open>cleanup()\<close> as a step function
    \<open>collector_step\<close> over a record of the pending list, the stored rows and the live
    channel, one event per arm of the \<open>select\<close>; the backwards index loops with
    in-place removal are \<open>response_scan\<close> and \<open>timeout_scan\<close>; \<open>timeout_ref\<close> is the
    reference definition of a timeout tick.
  \<^item> \<open>DataHandler\<close>: \<open>dataHandler\<close> after parameter parsing (\<open>data_series\<close>):
    store query, leading and trailing insertion, the gap-filling loop as a
    \<open>partial_function (option)\<close> (\<open>fill_loop\<close>) with its reference \<open>fill_after\<close>,
    and downsampling (\<open>respond_max\<close>, \<open>stride_loop\<close>); \<open>getPeerInterval\<close>.
  \<^item> \<open>Transport\<close>: the echo wire format of \<open>golang.org/x/net/icmp\<close> (marshal with the
    Internet checksum, parse) and \<open>readListener\<close> as a loop over read events.
  \<^item> \<open>Scheduler\<close>: the sequence allocator, \<open>ping\<close>, \<open>pingRoutine\<close>, and the
    interleaving of all routines as a sequence of whole \<open>ping\<close> calls (\<open>ping_all\<close>);
    this is exact because \<open>seqcount\<close> is only touched under \<open>lock\<close> and the other
    effects of \<open>ping\<close> commute with those of other routines.
  \<^item> \<open>QuitChannel\<close>: \<open>src/quitchannel.go\<close> as an \<open>inductive\<close> step relation
    \<open>qstep\<close> over the buffers of the subscriber channels (capacity 2), the program
    counter of the main goroutine inside \<open>SignalQuit\<close>/\<open>WaitForCleanup\<close> and one
    program counter per subscriber (listen, acknowledge, stopped); every channel
    operation is one step, so all interleavings are covered.
  \<^item> \<open>Config\<close>: \<open>src/config.go\<close> from the decoded map on: \<open>readInt\<close>,
    \<open>readString\<close>, \<open>readPeers\<close> (\<open>peers_loop\<close>) and \<open>ReadConfig\<close> with the defaults,
    clamps, per-peer normalisation (\<open>normalise_peers\<close>), the CRC-32 id of
    \<open>hash/crc32\<close> (\<open>crc_table\<close>, \<open>crc_update\<close>, with the bit-serial reference
    \<open>crc_bitwise\<close>), the duplicate-id search
    (\<open>dup_ids\<close>) and the \<open>ListenAddress\<close> default. The hjson map is an association
    list searched in order (Go leaves the order of \<open>range\<close> over a map open);
    \<open>net.ParseIP\<close> and \<open>strconv.FormatFloat\<close> are parameters. \<open>config_of\<close> maps
    the pointer-valued result to the normalised configuration record of \<open>Data\<close>;
    \<open>jv_type\<close> is the typing judgement of the decoded values.
  \<^item> \<open>Handlers\<close>: the HTTP parameter parsing of \<open>dataHandler\<close> in front of
    \<open>data_series\<close>, and \<open>statsHandler\<close> with its two SQL aggregates (SQLite's
    integer division, gorm's handling of \<open>NULL\<close>), against the spec's mean and
    percentage (\<open>spec_mean\<close>, \<open>spec_uptime\<close>).
  \<^item> \<open>LiveData\<close>: \<open>liveDataHandler\<close>, its receive goroutine and its \<open>select\<close>
    loop as a function over the sequence of arms taken (\<open>live_loop\<close>).
  \<^item> \<open>WebServer\<close>: \<open>assetHandler\<close>, \<open>peersHandler\<close> and the \<open>ServeMux\<close> that
    \<open>webServer\<close> builds, with Go's registration and matching rules, and the
    shutdown of \<open>webServer\<close> (its serving goroutine and its \<open>select\<close> on the quit
    channel) as the step relation \<open>web_step\<close>.
  \<^item> \<open>EndToEnd\<close>: the measurement path across \<open>Scheduler\<close>, \<open>Transport\<close> and
    \<open>Collector\<close>, with the peer's echo reply (\<open>peer_echo\<close>, RFC 792) as the one
    behaviour of the outside world it needs.
  \<^item> \<open>Startup\<close>: \<open>init\<close>'s flag defaults and \<open>main\<close> up to the start of the
    goroutines (\<open>main_start\<close>), with the results of the library and system calls
    as inputs.

  \<^bold>\<open>What the lemmas show.\<close>
  Collector (C1--C8): a reply removes the newest pending request with its sequence
  number and yields one row \<open>receipt - send\<close>; an unmatched reply changes nothing;
  the timeout loop equals the filter-based reference; the timeout test fires for
  requests whose deadline is still ahead and never for expired ones (the spec's open
  question, decided by the code the other way); nothing is timed out twice; under a
  monotone clock the stored rows stay sorted and valid, and each row is also published.
  Query service (C9--C14): the leading insertion drops the last sample, the trailing
  insertion never fires in range, the fill pass terminates for bounded inputs and
  inserts a row every interval, downsampling returns exactly \<open>max\<close> rows at the
  stride, unranged queries are gap-filled too.
  Transport and scheduler (C15--C21): replies are matched whatever their identifier;
  IPv6 replies are never delivered; a ping's datagram decodes back to the request's
  sequence number and, for IPv4, its checksum verifies; \<open>pingRoutine\<close> panics on the
  first send error; sequence numbers run \<open>1..65535\<close> cyclically (and stay in range
  under every interleaving, a lemma); end to end, the peer's echo reply to a ping
  becomes, through the listener and the collector, one sample with the round-trip time
  (C21, theory \<open>EndToEnd\<close>).
  Shutdown (C22--C26): the web server's shutdown always ends in \<open>log.Panic\<close> of
  \<open>http.ErrServerClosed\<close> (C22, by rule induction over \<open>web_step\<close>); by rule
  induction over \<open>qstep\<close>, a subscriber channel never holds more than one signal
  (a lemma), so \<open>SignalQuit\<close> never blocks; \<open>WaitForCleanup\<close>
  finishes exactly when it has received one value per channel, which a main that
  steals its own signal reaches with no acknowledgement at all; a subscriber added
  during \<open>SignalQuit\<close> blocks \<open>WaitForCleanup\<close> for ever.
  Parsing, configuration and start-up (C27--C31): decimal printing and \<open>ParseInt\<close>
  round-trip exactly on \<open>int64\<close>; a configuration without \<open>ListenAddress\<close> makes
  \<open>main\<close> exit with status 1; an accepted configuration meets the spec's contract
  (set fields, bounds of 10 ms, addresses, distinct ids); on a well-typed document
  every integer of the configuration is a Go \<open>int\<close>; a non-numeric interval silently
  becomes 10 ms. (That the retention window is the constant 672 h is a lemma of
  \<open>Config\<close>.)
  Handlers (C32--C35): decimal parameters reach \<open>data_series\<close> unchanged, a 400 is
  answered exactly for malformed parameters, the uptime is a whole percentage in
  \<open>0..100\<close>, and \<open>statsHandler\<close> returns the spec's mean with the spec's
  percentage rounded down.
  Live data, peer ids and web server (C36--C40): only peers with a \<open>uint32\<close> id can
  be watched live (and a first message shorter than four bytes panics, a lemma); the
  default peer id is the CRC-32 of the address, the table-driven update of
  \<open>hash/crc32\<close> being equal to the bit-serial definition; the live handler keeps
  running after the shutdown signal; it forwards the selected peer's samples in
  order; every request path reaches the handler \<open>webServer\<close> registered for it.

  \<^bold>\<open>Bounds and fuel.\<close> Times are \<open>int64\<close> milliseconds; the theorems about the
  gap-filling pass assume timestamps below \<open>2^60\<close> (sums of three of them cannot
  overflow), far beyond any real clock. The gap-filling loop needs no fuel: it is a
  \<open>partial_function (option)\<close> and its termination is proved under those bounds. The
  checksum theorem assumes a message of at most 65535 bytes (an IP datagram), so the
  32-bit accumulator cannot overflow. One timeout tick reads the clock once.

  \<^bold>\<open>Not modelled.\<close> Reading the configuration file, decoding hjson and
  \<open>flag.Parse\<close> are I/O and library parsers: their results are inputs. The wait of
  \<open>main\<close> for an interrupt (\<open>signal.Notify\<close> and the \<open>WaitGroup\<close>) has no logic of
  its own: it is the moment the \<open>signal_start\<close> step of \<open>qstep\<close> is taken, which the
  relation allows at any time. JSON encoding, the websocket framing and the package
  level variable declarations are not modelled beyond the records that hold them.
  The SQL store is modelled by its contract (insert, ordered select, delete older
  than, the two aggregates); floating-point rounding of \<open>AVG\<close> is not.
\<close>

end
